(* ===== verification/Prelude.thy ===== *)
theory Prelude
  imports
    Main
    "HOL-Library.Word"
    "HOL-Library.Char_ord"
    "HOL-Library.List_Lexorder"
begin

text \<open>
  Shared vocabulary of the development: the machine integers of the Rust sources, results and
  panics as values, \<open>std::time::Duration\<close>, the \<open>HashMap\<close> operations the sources use, and the
  theorem collections that carry the component proofs.

  \<^item> \<open>Result<A, E>\<close> is the sum \<open>('e, 'a) result\<close>; \<open>Err\<close> and \<open>Ok\<close> are its injections.
  \<^item> Code that can panic (index out of range, \<open>expect\<close>, \<open>assert!\<close>, \<open>unreachable!\<close>) returns
    \<open>'a exec\<close>, whose value \<open>Panic\<close> is the panic; that a panic never happens is then a theorem.
  \<^item> A \<open>HashMap\<close> is a partial function. Its iteration order is unspecified in Rust, so an
    operation that iterates takes the order it happened to see as an argument.
  \<^item> \<open>Duration\<close> is its number of nanoseconds, with the order of the standard library.
\<close>

section \<open>Theorem collections\<close>

named_theorems model_simps "evaluation equations of the model's operations"
named_theorems inv_intros "preservation of the components' invariants"

section \<open>Machine integers\<close>

type_synonym u8 = "8 word"
type_synonym u16 = "16 word"
type_synonym u32 = "32 word"
type_synonym u64 = "64 word"
type_synonym i32 = "32 word"
type_synonym i64 = "64 word"
type_synonym timestamp = int
type_synonym uuid = "128 word"

lemma unat_Suc_no_wrap:
  fixes w b :: "'a::len word"
  assumes "unat w < unat b"
  shows "unat (w + 1) = Suc (unat w)"
proof -
  have "w < b" using assms by (simp add: word_less_nat_alt)
  then have "w \<noteq> - 1" using word_order.extremum_strict by blast
  then have "w + 1 \<noteq> 0" by (simp add: eq_neg_iff_add_eq_0)
  then show ?thesis by (simp add: unatSuc add.commute)
qed

section \<open>Results and panics\<close>

type_synonym ('e, 'a) result = "'e + 'a"

abbreviation Err :: "'e \<Rightarrow> ('e, 'a) result" where
  "Err \<equiv> Inl"

abbreviation Ok :: "'a \<Rightarrow> ('e, 'a) result" where
  "Ok \<equiv> Inr"

definition is_ok :: "('e, 'a) result \<Rightarrow> bool" where
  "is_ok r = (case r of Inl _ \<Rightarrow> False | Inr _ \<Rightarrow> True)"

lemma is_ok_simps [simp]: "is_ok (Err e) = False" "is_ok (Ok a) = True"
  by (simp_all add: is_ok_def)

datatype 'a exec = Panic | Return 'a

definition exec_bind :: "'a exec \<Rightarrow> ('a \<Rightarrow> 'b exec) \<Rightarrow> 'b exec" where
  "exec_bind m f = (case m of Panic \<Rightarrow> Panic | Return a \<Rightarrow> f a)"

lemma exec_bind_simps [simp]: "exec_bind Panic f = Panic" "exec_bind (Return a) f = f a"
  by (simp_all add: exec_bind_def)

lemma exec_bind_Return: "exec_bind m f = Return b \<longleftrightarrow> (\<exists>a. m = Return a \<and> f a = Return b)"
  by (cases m) simp_all

text \<open>\<open>Semaphore::MAX_PERMITS\<close> of \<open>tokio\<close>: \<open>usize::MAX >> 3\<close>. More permits, or a channel for more messages, panic.\<close>

definition max_permits :: nat where
  "max_permits = 2 ^ 61 - 1"

text \<open>\<open>mpsc::channel\<close> panics on any other capacity.\<close>

definition channel_size :: "nat \<Rightarrow> bool" where
  "channel_size n \<longleftrightarrow> 0 < n \<and> n \<le> max_permits"

lemma channel_size_numeral [simp]: "channel_size (numeral k) \<longleftrightarrow> numeral k \<le> (2 ^ 61 - 1 :: nat)"
  by (simp add: channel_size_def max_permits_def)

text \<open>
  Integer arithmetic that overflows panics (the checked arithmetic of the development profile).
  \<open>incr\<close> is \<open>+= 1\<close> on an unsigned integer, \<open>i64_checked\<close> the result of an operation on \<open>i64\<close>, and
  \<open>as_i64\<close> the cast of an unsigned value.
\<close>

definition incr :: "'a::len word \<Rightarrow> 'a word exec" where
  "incr w = (if w = - 1 then Panic else Return (w + 1))"

lemma incr_Return: "incr w = Return v \<longleftrightarrow> w \<noteq> - 1 \<and> v = w + 1"
  by (auto simp: incr_def)

lemma incr_below:
  assumes "unat w < n" and "n < 2 ^ LENGTH('a)"
  shows "incr (w :: 'a::len word) = Return (w + 1) \<and> unat (w + 1) = Suc (unat w)"
proof -
  have "w \<noteq> - 1"
  proof
    assume "w = - 1"
    then have "unat w = 2 ^ LENGTH('a) - 1" by (simp add: unsigned_minus_1_eq_mask mask_eq_exp_minus_1)
    with assms show False by simp
  qed
  moreover from this have "w + 1 \<noteq> 0" by (simp add: eq_neg_iff_add_eq_0)
  ultimately show ?thesis by (simp add: incr_def unatSuc add.commute)
qed

definition i64_checked :: "int \<Rightarrow> int exec" where
  "i64_checked i = (if - (2 ^ 63) \<le> i \<and> i < 2 ^ 63 then Return i else Panic)"

definition as_i64 :: "nat \<Rightarrow> int" where
  "as_i64 n = (int n + 2 ^ 63) mod 2 ^ 64 - 2 ^ 63"

lemma as_i64_id: "n < 2 ^ 63 \<Longrightarrow> as_i64 n = int n"
  by (simp add: as_i64_def)

section \<open>Channels\<close>

text \<open>
  The bounded channels of \<open>tokio\<close> and \<open>crossbeam\<close> are parameters of the operations that use them;
  these are the answers of their methods. A send hands the message back when it fails.
\<close>

datatype 'm try_send_outcome = Sent | SendFull 'm | SendClosed 'm

text \<open>
  A channel whose receiver may go at any time: a send succeeds while it is there, and from the first
  that fails on it is gone for good; nothing else changes what is queued.
\<close>

definition send_law ::
  "('m \<Rightarrow> 'ch \<Rightarrow> bool \<times> 'ch) \<Rightarrow> ('ch \<Rightarrow> 'm list) \<Rightarrow> ('ch \<Rightarrow> bool) \<Rightarrow> bool" where
  "send_law send contents gone \<longleftrightarrow>
     (\<forall>m ch. case send m ch of
        (True, ch') \<Rightarrow> \<not> gone ch \<and> contents ch' = contents ch @ [m]
      | (False, ch') \<Rightarrow> gone ch' \<and> contents ch' = contents ch)"

lemma send_law_step:
  "send_law send contents gone \<Longrightarrow> send m ch = (b, ch') \<Longrightarrow>
   if b then \<not> gone ch \<and> contents ch' = contents ch @ [m] else gone ch' \<and> contents ch' = contents ch"
  unfolding send_law_def by (drule spec[of _ m], drule spec[of _ ch]) (cases b; simp)

text \<open>A channel whose receiver leaves after so many messages, for concrete runs.\<close>

definition leaving_send :: "'m \<Rightarrow> 'm list \<times> nat \<Rightarrow> bool \<times> 'm list \<times> nat" where
  "leaving_send m ch = (case ch of (q, k) \<Rightarrow> if k = 0 then (False, q, 0) else (True, q @ [m], k - 1))"

lemma leaving_send_law: "send_law leaving_send fst (\<lambda>ch. snd ch = 0)"
  by (auto simp: send_law_def leaving_send_def split: prod.splits if_splits)

section \<open>Durations\<close>

datatype duration = Duration (as_nanos: nat)

instantiation duration :: linorder
begin

definition less_eq_duration :: "duration \<Rightarrow> duration \<Rightarrow> bool" where
  "d \<le> e \<longleftrightarrow> as_nanos d \<le> as_nanos e"

definition less_duration :: "duration \<Rightarrow> duration \<Rightarrow> bool" where
  "d < e \<longleftrightarrow> as_nanos d < as_nanos e"

instance
  by standard (auto simp: less_eq_duration_def less_duration_def duration.expand)

end

lemma duration_le [simp]: "Duration m \<le> Duration n \<longleftrightarrow> m \<le> n"
  by (simp add: less_eq_duration_def)

lemma duration_less [simp]: "Duration m < Duration n \<longleftrightarrow> m < n"
  by (simp add: less_duration_def)

definition from_nanos :: "nat \<Rightarrow> duration" where
  "from_nanos n = Duration n"

definition from_micros :: "nat \<Rightarrow> duration" where
  "from_micros n = Duration (n * 1000)"

definition from_millis :: "nat \<Rightarrow> duration" where
  "from_millis n = Duration (n * 1000000)"

definition from_secs :: "nat \<Rightarrow> duration" where
  "from_secs n = Duration (n * 1000000000)"

definition as_micros :: "duration \<Rightarrow> nat" where
  "as_micros d = as_nanos d div 1000"

definition dur_is_zero :: "duration \<Rightarrow> bool" where
  "dur_is_zero d \<longleftrightarrow> as_nanos d = 0"

lemma duration_zero_le [simp]: "Duration 0 \<le> d"
  by (simp add: less_eq_duration_def)

section \<open>Hash maps\<close>

text \<open>\<open>HashMap::retain\<close>.\<close>

definition map_retain :: "('k \<Rightarrow> 'v \<Rightarrow> bool) \<Rightarrow> ('k \<rightharpoonup> 'v) \<Rightarrow> ('k \<rightharpoonup> 'v)" where
  "map_retain P m = (\<lambda>k. case m k of None \<Rightarrow> None | Some v \<Rightarrow> if P k v then Some v else None)"

lemma map_retain_Some [simp]: "map_retain P m k = Some v \<longleftrightarrow> m k = Some v \<and> P k v"
  by (auto simp: map_retain_def split: option.splits)

lemma map_retain_None [simp]: "map_retain P m k = None \<longleftrightarrow> (\<forall>v. m k = Some v \<longrightarrow> \<not> P k v)"
  by (auto simp: map_retain_def split: option.splits)

lemma dom_map_retain: "dom (map_retain P m) = {k. \<exists>v. m k = Some v \<and> P k v}"
  by (auto simp: dom_def)

lemma dom_map_retain_subset: "dom (map_retain P m) \<subseteq> dom m"
  by (auto simp: dom_def)

lemma map_retain_id: "(\<And>k v. m k = Some v \<Longrightarrow> P k v) \<Longrightarrow> map_retain P m = m"
  by (rule ext) (auto simp: map_retain_def split: option.splits)

text \<open>
  One iteration over the entries of a hash map in the order \<open>ks\<close> the iterator produced.
\<close>

definition iteration_order :: "'k list \<Rightarrow> ('k \<rightharpoonup> 'v) \<Rightarrow> bool" where
  "iteration_order ks m \<longleftrightarrow> distinct ks \<and> set ks = dom m"

text \<open>A map filled by a loop of insertions.\<close>

lemma fold_upd_Some:
  "fold (\<lambda>x m. m(f x \<mapsto> g x)) xs m k = Some v \<Longrightarrow> m k = Some v \<or> (\<exists>x \<in> set xs. f x = k \<and> g x = v)"
  by (induction xs arbitrary: m) (fastforce split: if_splits)+

lemma fold_upd_notin: "k \<notin> f ` set xs \<Longrightarrow> fold (\<lambda>x m. m(f x \<mapsto> g x)) xs m k = m k"
  by (induction xs arbitrary: m) auto

lemma dom_fold_upd: "dom (fold (\<lambda>x m. m(f x \<mapsto> g x)) xs m) = dom m \<union> f ` set xs"
  by (induction xs arbitrary: m) auto

section \<open>Lists\<close>

text \<open>\<open>iter().position(p)\<close> and \<open>Vec::insert\<close>.\<close>

fun position :: "('a \<Rightarrow> bool) \<Rightarrow> 'a list \<Rightarrow> nat option" where
  "position P [] = None"
| "position P (x # xs) = (if P x then Some 0 else map_option Suc (position P xs))"

definition insert_at :: "nat \<Rightarrow> 'a \<Rightarrow> 'a list \<Rightarrow> 'a list" where
  "insert_at i x xs = take i xs @ x # drop i xs"

lemma position_Some:
  "position P xs = Some i \<Longrightarrow> i < length xs \<and> P (xs ! i) \<and> (\<forall>j < i. \<not> P (xs ! j))"
proof (induction xs arbitrary: i)
  case (Cons x xs)
  then show ?case
    by (auto split: if_splits simp: nth_Cons split: nat.splits)
qed simp

lemma position_None: "position P xs = None \<longleftrightarrow> (\<forall>x \<in> set xs. \<not> P x)"
  by (induction xs) auto

lemma set_insert_at [simp]: "set (insert_at i x xs) = insert x (set xs)"
proof -
  have "set (take i xs) \<union> set (drop i xs) = set xs"
    by (metis append_take_drop_id set_append)
  then show ?thesis by (auto simp: insert_at_def)
qed

text \<open>Distinct offsets below the capacity address distinct slots of a ring.\<close>

lemma ring_index_inj:
  fixes h i j c :: nat
  assumes "(h + i) mod c = (h + j) mod c" and "i < c" and "j < c"
  shows "i = j"
proof -
  have "(int h + int i) mod int c = (int h + int j) mod int c"
    using assms(1) by (metis of_nat_add of_nat_mod)
  then have "int c dvd (int h + int i) - (int h + int j)"
    by (simp add: mod_eq_dvd_iff)
  then have "int c dvd int i - int j" by simp
  moreover have "\<bar>int i - int j\<bar> < \<bar>int c\<bar>" using assms(2,3) by linarith
  ultimately have "int i - int j = 0"
    using dvd_imp_le_int[of "int i - int j" "int c"] by linarith
  then show ?thesis by simp
qed

end
