(* ===== verification/Event_Queue.thy ===== *)
theory Event_Queue
  imports Prelude
begin

text \<open>
  The event system of the engine, \<open>engine/fischertechnikdtengine/src/eventsystem/eventqueue.rs\<close>:
  events and envelopes, the ring buffer \<open>RingState\<close>, and the operations of \<open>EventQueue\<close> on it.
  The ring is proved to implement a bounded first-in first-out queue.

  The ring sits behind a mutex, so each operation is one atomic step; whether \<open>try_lock\<close> found
  the mutex taken is the argument \<open>busy\<close>. The clock reading of an operation is an argument. The
  indices are natural numbers: they stay below the capacity, a vector length.
\<close>

section \<open>Events\<close>

datatype event_source = Gateway | Database | ModelManager | Service | Other string

datatype event_kind = PositionChanged | SyncCompleted | Custom string

record event =
  ev_id :: uuid
  ev_kind :: event_kind
  ev_source :: event_source
  ev_created_at :: timestamp

definition event_new :: "uuid \<Rightarrow> timestamp \<Rightarrow> event_kind \<Rightarrow> event_source \<Rightarrow> event" where
  "event_new uid now k s = \<lparr>ev_id = uid, ev_kind = k, ev_source = s, ev_created_at = now\<rparr>"

record envelope =
  env_event :: event
  env_arrived_at :: timestamp

datatype queue_error = Full | Empty | Busy

section \<open>The ring buffer\<close>

record 'a ring_state =
  ring_buf :: "'a option list"
  ring_head :: nat
  ring_tail :: nat
  ring_len :: nat

definition ring_new :: "nat \<Rightarrow> 'a ring_state" where
  "ring_new capacity =
     \<lparr>ring_buf = replicate capacity None, ring_head = 0, ring_tail = 0, ring_len = 0\<rparr>"

definition ring_capacity :: "'a ring_state \<Rightarrow> nat" where
  "ring_capacity r = length (ring_buf r)"

definition ring_is_full :: "'a ring_state \<Rightarrow> bool" where
  "ring_is_full r \<longleftrightarrow> ring_len r = ring_capacity r"

definition ring_is_empty :: "'a ring_state \<Rightarrow> bool" where
  "ring_is_empty r \<longleftrightarrow> ring_len r = 0"

text \<open>
  \<open>self.buf[self.tail]\<close> and \<open>self.buf[self.head]\<close> panic out of range, and \<open>expect\<close> panics on an
  empty slot.
\<close>

definition ring_push :: "'a ring_state \<Rightarrow> 'a \<Rightarrow> ((queue_error, unit) result \<times> 'a ring_state) exec" where
  "ring_push r item =
     (if ring_is_full r then Return (Err Full, r)
      else if ring_tail r < length (ring_buf r) then
        Return (Ok (), r\<lparr>ring_buf := (ring_buf r)[ring_tail r := Some item],
                         ring_tail := (ring_tail r + 1) mod ring_capacity r,
                         ring_len := ring_len r + 1\<rparr>)
      else Panic)"

definition ring_pop :: "'a ring_state \<Rightarrow> ((queue_error, 'a) result \<times> 'a ring_state) exec" where
  "ring_pop r =
     (if ring_is_empty r then Return (Err Empty, r)
      else if ring_head r < length (ring_buf r) then
        (case ring_buf r ! ring_head r of
           None \<Rightarrow> Panic
         | Some item \<Rightarrow>
             Return (Ok item, r\<lparr>ring_buf := (ring_buf r)[ring_head r := None],
                                ring_head := (ring_head r + 1) mod ring_capacity r,
                                ring_len := ring_len r - 1\<rparr>))
      else Panic)"

section \<open>The bounded queue contract\<close>

text \<open>
  What a client of the ring may rely on: \<open>push\<close> appends until the capacity is reached and then
  reports \<open>Full\<close>, \<open>pop\<close> takes from the front and reports \<open>Empty\<close> when there is nothing, neither
  ever panics, and neither changes the capacity.
\<close>

datatype 'a qop = Push 'a | Pop

record ('a, 'q) qrun =
  accepted :: "'a list"
  popped :: "'a list"
  final :: 'q

fun run_ops ::
  "('q \<Rightarrow> 'a \<Rightarrow> ((queue_error, unit) result \<times> 'q) exec) \<Rightarrow> ('q \<Rightarrow> ((queue_error, 'a) result \<times> 'q) exec)
   \<Rightarrow> 'q \<Rightarrow> 'a qop list \<Rightarrow> ('a, 'q) qrun exec" where
  "run_ops push pop q [] = Return \<lparr>accepted = [], popped = [], final = q\<rparr>"
| "run_ops push pop q (Push x # ops) =
     (case push q x of
        Panic \<Rightarrow> Panic
      | Return (res, q') \<Rightarrow>
          (case run_ops push pop q' ops of
             Panic \<Rightarrow> Panic
           | Return r \<Rightarrow> Return (if is_ok res then r\<lparr>accepted := x # accepted r\<rparr> else r)))"
| "run_ops push pop q (Pop # ops) =
     (case pop q of
        Panic \<Rightarrow> Panic
      | Return (res, q') \<Rightarrow>
          (case run_ops push pop q' ops of
             Panic \<Rightarrow> Panic
           | Return r \<Rightarrow>
               Return (case res of Inl _ \<Rightarrow> r | Inr x \<Rightarrow> r\<lparr>popped := x # popped r\<rparr>)))"

locale bounded_fifo =
  fixes push :: "'q \<Rightarrow> 'a \<Rightarrow> ((queue_error, unit) result \<times> 'q) exec"
    and pop :: "'q \<Rightarrow> ((queue_error, 'a) result \<times> 'q) exec"
    and contents :: "'q \<Rightarrow> 'a list"
    and cap :: "'q \<Rightarrow> nat"
    and invar :: "'q \<Rightarrow> bool"
  assumes bound: "invar q \<Longrightarrow> length (contents q) \<le> cap q"
    and push_full: "invar q \<Longrightarrow> length (contents q) = cap q \<Longrightarrow> push q x = Return (Err Full, q)"
    and push_room: "invar q \<Longrightarrow> length (contents q) < cap q \<Longrightarrow>
      \<exists>q'. push q x = Return (Ok (), q') \<and> invar q' \<and> cap q' = cap q \<and> contents q' = contents q @ [x]"
    and pop_empty: "invar q \<Longrightarrow> contents q = [] \<Longrightarrow> pop q = Return (Err Empty, q)"
    and pop_cons: "invar q \<Longrightarrow> contents q = x # xs \<Longrightarrow>
      \<exists>q'. pop q = Return (Ok x, q') \<and> invar q' \<and> cap q' = cap q \<and> contents q' = xs"
begin

lemma push_cases:
  assumes "invar q"
  obtains (full) "length (contents q) = cap q" "push q x = Return (Err Full, q)"
  | (room) q' where "length (contents q) < cap q" "push q x = Return (Ok (), q')" "invar q'"
      "cap q' = cap q" "contents q' = contents q @ [x]"
proof (cases "length (contents q) = cap q")
  case True
  with assms show ?thesis using full push_full by blast
next
  case False
  then have "length (contents q) < cap q" using bound[OF assms] by simp
  with assms show ?thesis using push_room room by blast
qed

lemma pop_cases:
  assumes "invar q"
  obtains (empty) "contents q = []" "pop q = Return (Err Empty, q)"
  | (cons) x xs q' where "contents q = x # xs" "pop q = Return (Ok x, q')" "invar q'"
      "cap q' = cap q" "contents q' = xs"
proof (cases "contents q")
  case Nil
  with assms show ?thesis using pop_empty empty by blast
next
  case (Cons x xs)
  with assms show ?thesis using pop_cons cons by blast
qed

text \<open>Whatever the operations, nothing is lost, duplicated or reordered.\<close>

lemma run_ops_fifo:
  "invar q \<Longrightarrow> \<exists>r. run_ops push pop q ops = Return r \<and> invar (final r) \<and> cap (final r) = cap q
     \<and> popped r @ contents (final r) = contents q @ accepted r"
proof (induction ops arbitrary: q)
  case Nil
  then show ?case by simp
next
  case (Cons op ops)
  show ?case
  proof (cases op)
    case (Push x)
    from Cons.prems show ?thesis
    proof (cases rule: push_cases[where x = x])
      case full
      then show ?thesis using Cons.IH[OF Cons.prems] Push by fastforce
    next
      case (room q')
      then show ?thesis using Cons.IH[OF room(3)] Push by fastforce
    qed
  next
    case Pop
    from Cons.prems show ?thesis
    proof (cases rule: pop_cases)
      case empty
      then show ?thesis using Cons.IH[OF Cons.prems] Pop by fastforce
    next
      case (cons x xs q')
      then show ?thesis using Cons.IH[OF cons(3)] Pop by fastforce
    qed
  qed
qed

end

section \<open>The ring implements the contract\<close>

text \<open>
  The occupied slots are the \<open>ring_len\<close> slots from \<open>ring_head\<close> on, and \<open>ring_tail\<close> is the slot
  after them.
\<close>

definition ring_slot :: "'a ring_state \<Rightarrow> nat \<Rightarrow> nat" where
  "ring_slot r i = (ring_head r + i) mod ring_capacity r"

definition ring_inv :: "'a ring_state \<Rightarrow> bool" where
  "ring_inv r \<longleftrightarrow>
     0 < ring_capacity r \<and> ring_head r < ring_capacity r \<and> ring_len r \<le> ring_capacity r \<and>
     ring_tail r = ring_slot r (ring_len r) \<and>
     (\<forall>i < ring_capacity r. ring_buf r ! ring_slot r i \<noteq> None \<longleftrightarrow> i < ring_len r)"

definition ring_list :: "'a ring_state \<Rightarrow> 'a list" where
  "ring_list r = map (\<lambda>i. the (ring_buf r ! ring_slot r i)) [0..<ring_len r]"

lemma ring_list_length [simp]: "length (ring_list r) = ring_len r"
  by (simp add: ring_list_def)

lemma ring_slot_less: "ring_inv r \<Longrightarrow> ring_slot r i < ring_capacity r"
  by (simp add: ring_inv_def ring_slot_def)

lemma ring_slot_inj:
  "ring_slot r i = ring_slot r j \<Longrightarrow> i < ring_capacity r \<Longrightarrow> j < ring_capacity r \<Longrightarrow> i = j"
  unfolding ring_slot_def by (rule ring_index_inj)

lemma ring_inv_new: "0 < capacity \<Longrightarrow> ring_inv (ring_new capacity)"
  by (simp add: ring_inv_def ring_new_def ring_capacity_def ring_slot_def)

lemma ring_list_new [simp]: "ring_list (ring_new capacity) = []"
  by (simp add: ring_list_def ring_new_def)

lemma ring_capacity_new [simp]: "ring_capacity (ring_new capacity) = capacity"
  by (simp add: ring_capacity_def ring_new_def)

lemma ring_push_full:
  "length (ring_list r) = ring_capacity r \<Longrightarrow> ring_push r x = Return (Err Full, r)"
  by (simp add: ring_push_def ring_is_full_def)

lemma ring_push_room:
  assumes inv: "ring_inv r" and room: "length (ring_list r) < ring_capacity r"
  shows "\<exists>r'. ring_push r x = Return (Ok (), r') \<and> ring_inv r' \<and>
    ring_capacity r' = ring_capacity r \<and> ring_list r' = ring_list r @ [x]"
proof -
  let ?n = "ring_len r" and ?c = "ring_capacity r"
  define r' where "r' = r\<lparr>ring_buf := (ring_buf r)[ring_tail r := Some x],
    ring_tail := (ring_tail r + 1) mod ?c, ring_len := ?n + 1\<rparr>"
  have tail: "ring_tail r = ring_slot r ?n" and n: "?n < ?c"
    using inv room by (simp_all add: ring_inv_def)
  have cap: "ring_capacity r' = ?c" by (simp add: r'_def ring_capacity_def)
  have slot: "ring_slot r' i = ring_slot r i" for i
    by (simp add: ring_slot_def cap) (simp add: r'_def)
  have buf: "ring_buf r' ! ring_slot r i = (if i = ?n then Some x else ring_buf r ! ring_slot r i)"
    if "i < ?c" for i
    using that ring_slot_inj[of r i ?n] n ring_slot_less[OF inv, of ?n]
    by (auto simp: r'_def tail ring_capacity_def nth_list_update)
  have push: "ring_push r x = Return (Ok (), r')"
    using n ring_slot_less[OF inv, of ?n]
    by (simp add: ring_push_def ring_is_full_def r'_def tail ring_capacity_def)
  have "ring_tail r' = ring_slot r' (ring_len r')"
    by (simp add: slot) (simp add: r'_def tail ring_slot_def mod_Suc_eq)
  then have inv': "ring_inv r'"
    using inv n by (auto simp: ring_inv_def cap slot buf) (auto simp: r'_def)
  have "ring_list r' = ring_list r @ [x]"
    using n buf by (auto simp: ring_list_def slot) (simp add: r'_def)
  with push inv' cap show ?thesis by blast
qed

lemma ring_pop_empty: "ring_list r = [] \<Longrightarrow> ring_pop r = Return (Err Empty, r)"
  by (simp add: ring_pop_def ring_is_empty_def ring_list_def)

lemma ring_pop_cons:
  assumes inv: "ring_inv r" and list: "ring_list r = x # xs"
  shows "\<exists>r'. ring_pop r = Return (Ok x, r') \<and> ring_inv r' \<and>
    ring_capacity r' = ring_capacity r \<and> ring_list r' = xs"
proof -
  let ?c = "ring_capacity r"
  obtain n where n: "ring_len r = Suc n"
    using list ring_list_length[of r] by (metis length_Cons)
  define r' where "r' = r\<lparr>ring_buf := (ring_buf r)[ring_head r := None],
    ring_head := (ring_head r + 1) mod ?c, ring_len := ring_len r - 1\<rparr>"
  have c: "0 < ?c" "ring_head r < ?c" "Suc n \<le> ?c" using inv n by (simp_all add: ring_inv_def)
  have head: "ring_head r = ring_slot r 0" using c by (simp add: ring_slot_def)
  have cap: "ring_capacity r' = ?c" by (simp add: r'_def ring_capacity_def)
  have slot: "ring_slot r' i = ring_slot r (Suc i)" for i
    by (simp add: ring_slot_def cap) (simp add: r'_def mod_Suc_eq mod_add_left_eq flip: add_Suc)
  have wrap: "ring_slot r ?c = ring_slot r 0" by (simp add: ring_slot_def)
  have buf: "ring_buf r' ! ring_slot r i = (if i = 0 then None else ring_buf r ! ring_slot r i)"
    if "i < ?c" for i
    using that c ring_slot_inj[of r i 0] by (auto simp: r'_def head ring_capacity_def nth_list_update
        ring_slot_less[OF inv, unfolded ring_capacity_def])
  have full: "ring_buf r ! ring_slot r i \<noteq> None \<longleftrightarrow> i < Suc n" if "i < ?c" for i
    using inv that n by (simp add: ring_inv_def)
  have x: "ring_buf r ! ring_head r = Some x"
    using list full[OF c(1)] n by (auto simp: ring_list_def head upt_conv_Cons simp del: upt_Suc)
  have pop: "ring_pop r = Return (Ok x, r')"
    using c n x by (simp add: ring_pop_def ring_is_empty_def r'_def ring_capacity_def)
  have slots: "ring_buf r' ! ring_slot r' i \<noteq> None \<longleftrightarrow> i < n" if "i < ?c" for i
  proof (cases "Suc i = ?c")
    case True
    then show ?thesis using buf[OF c(1)] wrap c by (simp add: slot)
  next
    case False
    with that have "Suc i < ?c" by simp
    then show ?thesis using buf full by (simp add: slot)
  qed
  have "ring_tail r' = ring_slot r' (ring_len r')"
    using inv n by (simp add: slot) (simp add: r'_def ring_inv_def)
  moreover have "ring_head r' < ?c" "ring_len r' = n" using c n by (simp_all add: r'_def)
  ultimately have inv': "ring_inv r'" using c slots by (simp add: ring_inv_def cap)
  have "ring_list r' = map (\<lambda>i. the (ring_buf r ! ring_slot r (Suc i))) [0..<n]"
    using c buf by (auto simp: ring_list_def slot \<open>ring_len r' = n\<close>)
  also have "\<dots> = tl (ring_list r)"
    by (simp add: ring_list_def n upt_conv_Cons map_Suc_upt[symmetric] comp_def del: upt_Suc)
  finally have "ring_list r' = xs" using list by simp
  with pop inv' cap show ?thesis by blast
qed

interpretation ring: bounded_fifo ring_push ring_pop ring_list ring_capacity ring_inv
proof unfold_locales
  show "length (ring_list q) \<le> ring_capacity q" if "ring_inv q" for q :: "'a ring_state"
    using that by (simp add: ring_inv_def)
qed (simp_all only: ring_push_full ring_push_room ring_pop_empty ring_pop_cons)

section \<open>The event queue\<close>

type_synonym event_queue = "envelope ring_state"

definition event_queue_new :: "nat \<Rightarrow> event_queue exec" where
  "event_queue_new capacity = (if 0 < capacity then Return (ring_new capacity) else Panic)"

definition try_push ::
  "bool \<Rightarrow> timestamp \<Rightarrow> event \<Rightarrow> event_queue \<Rightarrow> ((queue_error, unit) result \<times> event_queue) exec" where
  "try_push busy now ev q =
     (if busy then Return (Err Busy, q)
      else if ring_is_full q then Return (Err Full, q)
      else ring_push q \<lparr>env_event = ev, env_arrived_at = now\<rparr>)"

definition try_pop :: "bool \<Rightarrow> event_queue \<Rightarrow> ((queue_error, envelope) result \<times> event_queue) exec" where
  "try_pop busy q = (if busy then Return (Err Busy, q) else ring_pop q)"

text \<open>
  One turn of the loop of the awaiting operations \<open>push\<close> and \<open>pop\<close>: the lock is held, and the
  turn either ends the call (\<open>Some\<close> of its result) or releases the lock and waits to be notified
  (\<open>None\<close>), after which the loop makes another turn.
\<close>

definition push_turn ::
  "timestamp \<Rightarrow> event \<Rightarrow> event_queue \<Rightarrow> ((queue_error, unit) result option \<times> event_queue) exec" where
  "push_turn now ev q =
     (if \<not> ring_is_full q then
        (case ring_push q \<lparr>env_event = ev, env_arrived_at = now\<rparr> of
           Panic \<Rightarrow> Panic
         | Return (res, q') \<Rightarrow> Return (Some res, q'))
      else Return (None, q))"

definition pop_turn ::
  "event_queue \<Rightarrow> ((queue_error, envelope) result option \<times> event_queue) exec" where
  "pop_turn q =
     (if \<not> ring_is_empty q then
        (case ring_pop q of
           Panic \<Rightarrow> Panic
         | Return (res, q') \<Rightarrow> Return (Some res, q'))
      else Return (None, q))"

text \<open>What each operation does to a queue in a good state, in terms of its contents.\<close>

lemma ring_is_full_iff: "ring_is_full r \<longleftrightarrow> length (ring_list r) = ring_capacity r"
  by (simp add: ring_is_full_def)

lemma ring_is_empty_iff: "ring_is_empty r \<longleftrightarrow> ring_list r = []"
  by (simp add: ring_is_empty_def ring_list_def)

lemma try_push_cases:
  assumes "ring_inv q"
  obtains (busy) "busy" "try_push busy now ev q = Return (Err Busy, q)"
  | (full) "\<not> busy" "length (ring_list q) = ring_capacity q" "try_push busy now ev q = Return (Err Full, q)"
  | (room) q' where "\<not> busy" "length (ring_list q) < ring_capacity q"
      "try_push busy now ev q = Return (Ok (), q')" "ring_inv q'" "ring_capacity q' = ring_capacity q"
      "ring_list q' = ring_list q @ [\<lparr>env_event = ev, env_arrived_at = now\<rparr>]"
  using assms
proof (cases rule: ring.push_cases[where x = "\<lparr>env_event = ev, env_arrived_at = now\<rparr>"])
  case full
  then show ?thesis using that(1,2) by (cases busy) (simp_all add: try_push_def ring_is_full_iff)
next
  case (room q')
  then show ?thesis using that(1,3) by (cases busy) (simp_all add: try_push_def ring_is_full_iff)
qed

lemma try_pop_cases:
  assumes "ring_inv q"
  obtains (busy) "busy" "try_pop busy q = Return (Err Busy, q)"
  | (empty) "\<not> busy" "ring_list q = []" "try_pop busy q = Return (Err Empty, q)"
  | (cons) x xs q' where "\<not> busy" "ring_list q = x # xs" "try_pop busy q = Return (Ok x, q')"
      "ring_inv q'" "ring_capacity q' = ring_capacity q" "ring_list q' = xs"
  using assms
proof (cases rule: ring.pop_cases)
  case empty
  then show ?thesis using that(1,2) by (cases busy) (simp_all add: try_pop_def)
next
  case (cons x xs q')
  then show ?thesis using that(1,3) by (cases busy) (simp_all add: try_pop_def)
qed

lemma push_turn_cases:
  assumes "ring_inv q"
  obtains (wait) "length (ring_list q) = ring_capacity q" "push_turn now ev q = Return (None, q)"
  | (moved) q' where "length (ring_list q) < ring_capacity q"
      "push_turn now ev q = Return (Some (Ok ()), q')" "ring_inv q'"
      "ring_capacity q' = ring_capacity q"
      "ring_list q' = ring_list q @ [\<lparr>env_event = ev, env_arrived_at = now\<rparr>]"
  using assms
proof (cases rule: ring.push_cases[where x = "\<lparr>env_event = ev, env_arrived_at = now\<rparr>"])
  case full
  then show ?thesis using that(1) by (simp add: push_turn_def ring_is_full_iff)
next
  case (room q')
  then show ?thesis using that(2) by (simp add: push_turn_def ring_is_full_iff)
qed

lemma pop_turn_cases:
  assumes "ring_inv q"
  obtains (wait) "ring_list q = []" "pop_turn q = Return (None, q)"
  | (moved) x xs q' where "ring_list q = x # xs" "pop_turn q = Return (Some (Ok x), q')"
      "ring_inv q'" "ring_capacity q' = ring_capacity q" "ring_list q' = xs"
  using assms
proof (cases rule: ring.pop_cases)
  case empty
  then show ?thesis using that(1) by (simp add: pop_turn_def ring_is_empty_iff)
next
  case (cons x xs q')
  then show ?thesis using that(2) by (simp add: pop_turn_def ring_is_empty_iff)
qed

end
