(* ===== verification/Float64.thy ===== *)
theory Float64
  imports Prelude
begin

text \<open>
  The \<open>f64\<close> of the Rust sources: IEEE 754 binary64, kept as its bit pattern, with the operations
  the sources use (\<open>to_bits\<close>, \<open>from_bits\<close>, \<open>+\<close>, \<open>-\<close>, \<open>*\<close>, \<open>/\<close>, \<open>abs\<close>, \<open><\<close>, \<open>as u64\<close>, \<open>as f64\<close>).
  A finite value is \<open>(-1)^s * m * 2^e\<close>; every operation is computed exactly on \<open>m\<close> and \<open>e\<close> and
  rounded once, to nearest with ties to even. Rust leaves the payload of a NaN result open; the
  model returns the quiet NaN.
\<close>

unbundle bit_operations_syntax

datatype f64 = F64 (to_bits: u64)

abbreviation from_bits :: "u64 \<Rightarrow> f64" where
  "from_bits \<equiv> F64"

datatype fval = NaN | Inf bool | Fin bool nat int

definition f64_decode :: "f64 \<Rightarrow> fval" where
  "f64_decode x =
     (let w = unat (to_bits x); s = (w div 2 ^ 63 = 1); ex = w div 2 ^ 52 mod 2048; fr = w mod 2 ^ 52
      in if ex = 2047 then (if fr = 0 then Inf s else NaN)
         else if ex = 0 then Fin s fr (-1074)
         else Fin s (fr + 2 ^ 52) (int ex - 1075))"

definition f64_pack :: "bool \<Rightarrow> nat \<Rightarrow> nat \<Rightarrow> f64" where
  "f64_pack s ex fr = F64 (word_of_nat ((if s then 2 ^ 63 else 0) + ex * 2 ^ 52 + fr))"

definition f64_nan :: f64 where "f64_nan = f64_pack False 2047 (2 ^ 51)"

definition f64_inf :: "bool \<Rightarrow> f64" where "f64_inf s = f64_pack s 2047 0"

definition f64_zero :: "bool \<Rightarrow> f64" where "f64_zero s = f64_pack s 0 0"

fun bit_length :: "nat \<Rightarrow> nat" where
  "bit_length n = (if n = 0 then 0 else Suc (bit_length (n div 2)))"

declare bit_length.simps [simp del]

definition round_half_even :: "nat \<Rightarrow> nat \<Rightarrow> nat" where
  "round_half_even m k =
     (let q = m div 2 ^ k; r = m mod 2 ^ k
      in if 2 * r < 2 ^ k then q
         else if 2 ^ k < 2 * r then q + 1
         else if even q then q else q + 1)"

text \<open>The binary64 value nearest to \<open>(-1)^s * m * 2^e\<close>.\<close>

definition f64_round :: "bool \<Rightarrow> nat \<Rightarrow> int \<Rightarrow> f64" where
  "f64_round s m e =
     (if m = 0 then f64_zero s
      else
        let k = max (int (bit_length m) - 53) (- 1074 - e);
            m1 = (if k \<le> 0 then m else round_half_even m (nat k));
            e1 = (if k \<le> 0 then e else e + k);
            up = min (53 - int (bit_length m1)) (e1 + 1074);
            m2 = (if 0 \<le> up then m1 * 2 ^ nat up else m1 div 2);
            e2 = (if 0 \<le> up then e1 - up else e1 + 1)
        in if m2 < 2 ^ 52 then f64_pack s 0 m2
           else if 971 < e2 then f64_inf s
           else f64_pack s (nat (e2 + 1075)) (m2 - 2 ^ 52))"

definition signed_mantissa :: "bool \<Rightarrow> nat \<Rightarrow> int" where
  "signed_mantissa s m = (if s then - int m else int m)"

definition f64_add :: "f64 \<Rightarrow> f64 \<Rightarrow> f64" where
  "f64_add a b =
     (case (f64_decode a, f64_decode b) of
        (NaN, _) \<Rightarrow> f64_nan
      | (_, NaN) \<Rightarrow> f64_nan
      | (Inf s, Inf t) \<Rightarrow> if s = t then f64_inf s else f64_nan
      | (Inf s, Fin _ _ _) \<Rightarrow> f64_inf s
      | (Fin _ _ _, Inf t) \<Rightarrow> f64_inf t
      | (Fin s m e, Fin t n f) \<Rightarrow>
          (let g = min e f;
               i = signed_mantissa s (m * 2 ^ nat (e - g)) + signed_mantissa t (n * 2 ^ nat (f - g))
           in if i = 0 then f64_zero (s \<and> t)
              else f64_round (i < 0) (nat \<bar>i\<bar>) g))"

text \<open>Adding \<open>2^63\<close> to the pattern flips its top bit, the sign.\<close>

definition f64_neg :: "f64 \<Rightarrow> f64" where
  "f64_neg a = F64 (to_bits a + 2 ^ 63)"

definition f64_sub :: "f64 \<Rightarrow> f64 \<Rightarrow> f64" where
  "f64_sub a b = f64_add a (f64_neg b)"

definition f64_abs :: "f64 \<Rightarrow> f64" where
  "f64_abs a = F64 (word_of_nat (unat (to_bits a) mod 2 ^ 63))"

definition f64_mul :: "f64 \<Rightarrow> f64 \<Rightarrow> f64" where
  "f64_mul a b =
     (case (f64_decode a, f64_decode b) of
        (NaN, _) \<Rightarrow> f64_nan
      | (_, NaN) \<Rightarrow> f64_nan
      | (Inf s, Inf t) \<Rightarrow> f64_inf (s \<noteq> t)
      | (Inf s, Fin t n _) \<Rightarrow> if n = 0 then f64_nan else f64_inf (s \<noteq> t)
      | (Fin s m _, Inf t) \<Rightarrow> if m = 0 then f64_nan else f64_inf (s \<noteq> t)
      | (Fin s m e, Fin t n f) \<Rightarrow> f64_round (s \<noteq> t) (m * n) (e + f))"

text \<open>The quotient is computed to at least 56 bits, with a last bit that records a remainder.\<close>

definition f64_div :: "f64 \<Rightarrow> f64 \<Rightarrow> f64" where
  "f64_div a b =
     (case (f64_decode a, f64_decode b) of
        (NaN, _) \<Rightarrow> f64_nan
      | (_, NaN) \<Rightarrow> f64_nan
      | (Inf s, Inf t) \<Rightarrow> f64_nan
      | (Inf s, Fin t _ _) \<Rightarrow> f64_inf (s \<noteq> t)
      | (Fin s _ _, Inf t) \<Rightarrow> f64_zero (s \<noteq> t)
      | (Fin s m e, Fin t n f) \<Rightarrow>
          (if n = 0 then (if m = 0 then f64_nan else f64_inf (s \<noteq> t))
           else
             let k = bit_length n + 55; d = m * 2 ^ k;
                 q = 2 * (d div n) + (if d mod n = 0 then 0 else 1)
             in f64_round (s \<noteq> t) q (e - f - int k - 1)))"

definition f64_less :: "f64 \<Rightarrow> f64 \<Rightarrow> bool" where
  "f64_less a b =
     (case (f64_decode a, f64_decode b) of
        (NaN, _) \<Rightarrow> False
      | (_, NaN) \<Rightarrow> False
      | (Inf s, Inf t) \<Rightarrow> s \<and> \<not> t
      | (Inf s, Fin _ _ _) \<Rightarrow> s
      | (Fin _ _ _, Inf t) \<Rightarrow> \<not> t
      | (Fin s m e, Fin t n f) \<Rightarrow>
          (let g = min e f
           in signed_mantissa s (m * 2 ^ nat (e - g)) < signed_mantissa t (n * 2 ^ nat (f - g))))"

text \<open>\<open>x as u64\<close> truncates towards zero and saturates; \<open>n as f64\<close> rounds.\<close>

definition f64_to_u64 :: "f64 \<Rightarrow> u64" where
  "f64_to_u64 a =
     (case f64_decode a of
        NaN \<Rightarrow> 0
      | Inf s \<Rightarrow> if s then 0 else - 1
      | Fin s m e \<Rightarrow>
          (if s then 0
           else
             let n = (if 0 \<le> e then m * 2 ^ nat e else m div 2 ^ nat (- e))
             in if n < 2 ^ 64 then word_of_nat n else - 1))"

definition f64_of_u64 :: "u64 \<Rightarrow> f64" where
  "f64_of_u64 w = f64_round False (unat w) 0"

text \<open>A decimal literal \<open>n / 10^k\<close> denotes the nearest value.\<close>

definition f64_lit :: "nat \<Rightarrow> nat \<Rightarrow> f64" where
  "f64_lit n k = f64_div (f64_round False n 0) (f64_round False (10 ^ k) 0)"

definition f64_is_nan :: "f64 \<Rightarrow> bool" where
  "f64_is_nan a \<longleftrightarrow> f64_decode a = NaN"

lemma unat_flip:
  fixes w :: u64
  shows "unat (w + 2 ^ 63) = (if unat w < 2 ^ 63 then unat w + 2 ^ 63 else unat w - 2 ^ 63)"
proof -
  have u: "unat (w + 2 ^ 63) = (unat w + 2 ^ 63) mod 2 ^ 64" by (simp add: unat_word_ariths)
  have w: "unat w < 2 ^ 64" using unsigned_less[of w] by simp
  show ?thesis
  proof (cases "unat w < 2 ^ 63")
    case True
    then show ?thesis using u by simp
  next
    case False
    then obtain r where "unat w = 2 ^ 63 + r" using le_Suc_ex not_less by blast
    then show ?thesis using u w by simp
  qed
qed

lemma f64_decode_neg:
  "f64_decode (f64_neg a) =
     (case f64_decode a of NaN \<Rightarrow> NaN | Inf s \<Rightarrow> Inf (\<not> s) | Fin s m e \<Rightarrow> Fin (\<not> s) m e)"
proof -
  let ?w = "unat (to_bits a)"
  have w: "?w < 2 ^ 64" using unsigned_less[of "to_bits a"] by simp
  obtain v where v: "unat (to_bits (f64_neg a)) = v" "v < 2 ^ 64"
    "?w = v + 2 ^ 63 \<and> v < 2 ^ 63 \<or> v = ?w + 2 ^ 63 \<and> ?w < 2 ^ 63"
    using unat_flip[of "to_bits a"] w by (auto simp: f64_neg_def split: if_splits)
  have m: "v mod 2 ^ 52 = ?w mod 2 ^ 52"
    using v(3) mod_mult_self1[of v 2048 "2 ^ 52"] mod_mult_self1[of ?w 2048 "2 ^ 52"] by auto
  have add: "(x + 2 ^ 63) div 2 ^ 52 mod 2048 = x div 2 ^ 52 mod 2048" for x :: nat
  proof -
    have "(x + 2 ^ 63) div 2 ^ 52 = x div 2 ^ 52 + 2048"
      using div_mult_self1[of "2 ^ 52" x 2048] by simp
    then show ?thesis using mod_add_self2[of "x div 2 ^ 52" 2048] by simp
  qed
  have d: "v div 2 ^ 52 mod 2048 = ?w div 2 ^ 52 mod 2048"
    using v(3) add[of v] add[of ?w] by (auto simp del: power_numeral)
  have s: "v div 2 ^ 63 = 1 \<longleftrightarrow> \<not> ?w div 2 ^ 63 = 1"
    using v(3) by auto
  show ?thesis
    by (simp add: f64_decode_def v(1) m d s[unfolded One_nat_def] Let_def del: power_numeral)
qed

text \<open>\<open>x - x\<close> is zero or NaN.\<close>

lemma f64_sub_self: "f64_sub a a = f64_nan \<or> f64_sub a a = f64_zero False"
  by (cases "f64_decode a") (auto simp: f64_sub_def f64_add_def f64_decode_neg signed_mantissa_def Let_def)

lemma f64_less_irrefl [simp]: "\<not> f64_less a a"
  by (cases "f64_decode a") (auto simp: f64_less_def Let_def)

lemma f64_less_nan [simp]:
  "f64_is_nan a \<Longrightarrow> \<not> f64_less a b" "f64_is_nan b \<Longrightarrow> \<not> f64_less a b"
  by (auto simp: f64_less_def f64_is_nan_def split: fval.splits)

end
