(* ===== verification/Engine.thy ===== *)
theory Engine
  imports Event_Queue Float64
begin

text \<open>
  The digital twin engine around the queue: \<open>WorkflowEngine\<close> (\<open>eventsystem/workflowengine.rs\<close>),
  \<open>Synchronizer\<close> (\<open>synchronizer/synchronizer.rs\<close>), \<open>PositionMapping\<close>
  (\<open>synchronizer/mappings/positionmapping.rs\<close>) and the engine of \<open>bin/mainold.rs\<close> with its mock
  gateway and mock database.

  A mapping, a gateway port and a database port are trait objects: functions on the state \<open>'w\<close> of
  the world they act on. Whether a lock was free is an argument.
\<close>

section \<open>The workflow engine\<close>

record workflow_engine =
  max_per_tick :: nat

definition workflow_engine_new :: workflow_engine where
  "workflow_engine_new = \<lparr>max_per_tick = 32\<rparr>"

definition with_budget :: "nat \<Rightarrow> workflow_engine \<Rightarrow> workflow_engine" where
  "with_budget n w = w\<lparr>max_per_tick := max n 1\<rparr>"

text \<open>
  \<open>handle_event\<close> only logs the event with its latency. \<open>tick\<close> handles at most
  \<open>max_per_tick\<close> events; \<open>busy i\<close> tells whether the lock is taken at its \<open>i\<close>-th turn. The result
  lists the events handled, and the turn that would be \<open>unreachable!\<close> is a panic.
\<close>

record handled =
  h_id :: uuid
  h_kind :: event_kind
  h_latency :: timestamp

definition handle_event :: "timestamp \<Rightarrow> envelope \<Rightarrow> handled" where
  "handle_event handled_at env =
     \<lparr>h_id = ev_id (env_event env), h_kind = ev_kind (env_event env),
      h_latency = handled_at - env_arrived_at env\<rparr>"

fun workflow_turns ::
  "nat \<Rightarrow> (nat \<Rightarrow> bool) \<Rightarrow> nat \<Rightarrow> event_queue \<Rightarrow> (envelope list \<times> event_queue) exec" where
  "workflow_turns 0 busy i q = Return ([], q)"
| "workflow_turns (Suc n) busy i q =
     (case try_pop (busy i) q of
        Panic \<Rightarrow> Panic
      | Return (Inl Empty, q') \<Rightarrow> Return ([], q')
      | Return (Inl Busy, q') \<Rightarrow> Return ([], q')
      | Return (Inl Full, q') \<Rightarrow> Panic
      | Return (Inr env, q') \<Rightarrow>
          (case workflow_turns n busy (Suc i) q' of
             Panic \<Rightarrow> Panic
           | Return (envs, q'') \<Rightarrow> Return (env # envs, q'')))"

definition workflow_tick ::
  "workflow_engine \<Rightarrow> (nat \<Rightarrow> bool) \<Rightarrow> event_queue \<Rightarrow> (envelope list \<times> event_queue) exec" where
  "workflow_tick w busy q = workflow_turns (max_per_tick w) busy 0 q"

lemma workflow_turns_spec:
  "ring_inv q \<Longrightarrow> \<exists>envs q'. workflow_turns n busy i q = Return (envs, q') \<and> ring_inv q' \<and>
     ring_capacity q' = ring_capacity q \<and> envs @ ring_list q' = ring_list q \<and> length envs \<le> n"
proof (induction n arbitrary: i q)
  case 0
  then show ?case by simp
next
  case (Suc n)
  from Suc.prems show ?case
  proof (cases rule: try_pop_cases[where busy = "busy i"])
    case (cons x xs q')
    then show ?thesis using Suc.IH[OF cons(4), of "Suc i"] by force
  qed (use Suc.prems in auto)
qed

lemma workflow_turns_free:
  "ring_inv q \<Longrightarrow> (\<And>j. i \<le> j \<Longrightarrow> j < i + n \<Longrightarrow> \<not> busy j) \<Longrightarrow>
     \<exists>q'. workflow_turns n busy i q = Return (take n (ring_list q), q') \<and> ring_inv q' \<and>
       ring_capacity q' = ring_capacity q \<and> ring_list q' = drop n (ring_list q)"
proof (induction n arbitrary: i q)
  case 0
  then show ?case by simp
next
  case (Suc n)
  from Suc.prems(1) show ?case
  proof (cases rule: try_pop_cases[where busy = "busy i"])
    case busy
    then show ?thesis using Suc.prems(2)[of i] by simp
  next
    case empty
    then show ?thesis using Suc.prems(1) by simp
  next
    case (cons x xs q')
    have "\<not> busy j" if "Suc i \<le> j" "j < Suc i + n" for j
      using Suc.prems(2)[of j] that by simp
    from Suc.IH[OF cons(4) this] cons show ?thesis by force
  qed
qed

section \<open>Operations on the event system\<close>

text \<open>
  Producers, consumers and the workflow engine share the queue. A step is one of their
  operations; its result lists the envelopes that entered and the envelopes that left.
\<close>

datatype engine_op =
    TryPush bool timestamp event
  | TryPop bool
  | PushTurn timestamp event
  | PopTurn
  | Tick "nat \<Rightarrow> bool"

fun engine_step ::
  "workflow_engine \<Rightarrow> engine_op \<Rightarrow> event_queue \<Rightarrow> (envelope list \<times> envelope list \<times> event_queue) exec" where
  "engine_step w (TryPush busy now ev) q =
     (case try_push busy now ev q of
        Panic \<Rightarrow> Panic
      | Return (res, q') \<Rightarrow>
          Return (if is_ok res then [\<lparr>env_event = ev, env_arrived_at = now\<rparr>] else [], [], q'))"
| "engine_step w (TryPop busy) q =
     (case try_pop busy q of
        Panic \<Rightarrow> Panic
      | Return (res, q') \<Rightarrow> Return ([], case res of Inl _ \<Rightarrow> [] | Inr env \<Rightarrow> [env], q'))"
| "engine_step w (PushTurn now ev) q =
     (case push_turn now ev q of
        Panic \<Rightarrow> Panic
      | Return (res, q') \<Rightarrow>
          Return (if res = Some (Ok ()) then [\<lparr>env_event = ev, env_arrived_at = now\<rparr>] else [], [], q'))"
| "engine_step w PopTurn q =
     (case pop_turn q of
        Panic \<Rightarrow> Panic
      | Return (res, q') \<Rightarrow> Return ([], case res of Some (Inr env) \<Rightarrow> [env] | _ \<Rightarrow> [], q'))"
| "engine_step w (Tick busy) q =
     (case workflow_tick w busy q of
        Panic \<Rightarrow> Panic
      | Return (envs, q') \<Rightarrow> Return ([], envs, q'))"

fun engine_run ::
  "workflow_engine \<Rightarrow> engine_op list \<Rightarrow> event_queue \<Rightarrow> (envelope list \<times> envelope list \<times> event_queue) exec" where
  "engine_run w [] q = Return ([], [], q)"
| "engine_run w (op # ops) q =
     (case engine_step w op q of
        Panic \<Rightarrow> Panic
      | Return (ins, outs, q') \<Rightarrow>
          (case engine_run w ops q' of
             Panic \<Rightarrow> Panic
           | Return (ins', outs', q'') \<Rightarrow> Return (ins @ ins', outs @ outs', q'')))"

lemma engine_step_spec:
  assumes "ring_inv q"
  shows "\<exists>ins outs q'. engine_step w op q = Return (ins, outs, q') \<and> ring_inv q' \<and>
    ring_capacity q' = ring_capacity q \<and> outs @ ring_list q' = ring_list q @ ins"
proof (cases op)
  case (TryPush busy now ev)
  from assms show ?thesis
    by (cases rule: try_push_cases[where busy = busy and now = now and ev = ev])
      (simp_all add: TryPush assms)
next
  case (TryPop busy)
  from assms show ?thesis
    by (cases rule: try_pop_cases[where busy = busy]) (simp_all add: TryPop assms)
next
  case (PushTurn now ev)
  from assms show ?thesis
    by (cases rule: push_turn_cases[where now = now and ev = ev]) (simp_all add: PushTurn assms)
next
  case PopTurn
  from assms show ?thesis
    by (cases rule: pop_turn_cases) (simp_all add: PopTurn assms)
next
  case (Tick busy)
  from workflow_turns_spec[OF assms, of "max_per_tick w" busy 0] show ?thesis
    by (auto simp: Tick workflow_tick_def)
qed

lemma engine_run_spec:
  "ring_inv q \<Longrightarrow> \<exists>ins outs q'. engine_run w ops q = Return (ins, outs, q') \<and> ring_inv q' \<and>
     ring_capacity q' = ring_capacity q \<and> outs @ ring_list q' = ring_list q @ ins"
proof (induction ops arbitrary: q)
  case Nil
  then show ?case by simp
next
  case (Cons op ops)
  obtain ins outs q1 where step: "engine_step w op q = Return (ins, outs, q1)" "ring_inv q1"
    "ring_capacity q1 = ring_capacity q" "outs @ ring_list q1 = ring_list q @ ins"
    using engine_step_spec[OF Cons.prems] by blast
  obtain ins' outs' q2 where run: "engine_run w ops q1 = Return (ins', outs', q2)" "ring_inv q2"
    "ring_capacity q2 = ring_capacity q1" "outs' @ ring_list q2 = ring_list q1 @ ins'"
    using Cons.IH[OF step(2)] by blast
  have "(outs @ outs') @ ring_list q2 = ring_list q @ (ins @ ins')"
    using step(4) run(4) by (metis append.assoc)
  then show ?case using step run by simp
qed

section \<open>The synchronizer\<close>

text \<open>
  \<open>Synchronizer::tick\<close> runs every mapping once, in order; a mapping that fails is logged by name
  and does not stop the others.
\<close>

datatype sync_error = Mapping string

record 'w mapping =
  map_name :: string
  sync_gateway_to_db :: "'w \<Rightarrow> (sync_error, unit) result \<times> 'w"

fun sync_tick :: "'w mapping list \<Rightarrow> 'w \<Rightarrow> (string \<times> sync_error) list \<times> 'w" where
  "sync_tick [] w = ([], w)"
| "sync_tick (m # ms) w =
     (case sync_gateway_to_db m w of
        (res, w1) \<Rightarrow>
          (case sync_tick ms w1 of
             (warnings, w2) \<Rightarrow>
               (case res of
                  Inl e \<Rightarrow> ((map_name m, e) # warnings, w2)
                | Inr _ \<Rightarrow> (warnings, w2))))"

lemma sync_tick_append:
  "sync_tick (ms @ ms') w =
     (case sync_tick ms w of (ws, w1) \<Rightarrow> (case sync_tick ms' w1 of (ws', w2) \<Rightarrow> (ws @ ws', w2)))"
  by (induction ms arbitrary: w) (auto split: prod.splits sum.splits)

section \<open>The position mapping\<close>

record position3 =
  px :: f64
  py :: f64
  pz :: f64

datatype mapping_io_error = GatewayIo string | DbWrite string

fun mapping_io_error_display :: "mapping_io_error \<Rightarrow> string" where
  "mapping_io_error_display (GatewayIo m) = ''gateway read failed: '' @ m"
| "mapping_io_error_display (DbWrite m) = ''db write failed: '' @ m"

definition position_sync ::
  "string \<Rightarrow> ('w \<Rightarrow> (mapping_io_error, position3) result \<times> 'w) \<Rightarrow>
   (position3 \<Rightarrow> 'w \<Rightarrow> (mapping_io_error, unit) result \<times> 'w) \<Rightarrow> 'w \<Rightarrow> (sync_error, unit) result \<times> 'w" where
  "position_sync name get_position try_set_position w =
     (case get_position w of
        (Inl e, w1) \<Rightarrow> (Err (Mapping (name @ '' (gateway): '' @ mapping_io_error_display e)), w1)
      | (Inr pos, w1) \<Rightarrow>
          (case try_set_position pos w1 of
             (Inl e, w2) \<Rightarrow> (Err (Mapping (name @ '' (db): '' @ mapping_io_error_display e)), w2)
           | (Inr _, w2) \<Rightarrow> (Ok (), w2)))"

definition position_mapping ::
  "string \<Rightarrow> ('w \<Rightarrow> (mapping_io_error, position3) result \<times> 'w) \<Rightarrow>
   (position3 \<Rightarrow> 'w \<Rightarrow> (mapping_io_error, unit) result \<times> 'w) \<Rightarrow> 'w mapping" where
  "position_mapping name get_position try_set_position =
     \<lparr>map_name = name, sync_gateway_to_db = position_sync name get_position try_set_position\<rparr>"

text \<open>
  The contract of the two ports: a read does not write, and reports the position of the machine, which
  may have moved on by the time it returns; a write either stores the position or leaves the store alone.
\<close>

locale position_ports =
  fixes get_position :: "'w \<Rightarrow> (mapping_io_error, position3) result \<times> 'w"
    and try_set_position :: "position3 \<Rightarrow> 'w \<Rightarrow> (mapping_io_error, unit) result \<times> 'w"
    and machine :: "'w \<Rightarrow> position3"
    and stored :: "'w \<Rightarrow> position3 option"
  assumes get_frame: "get_position w = (got, w') \<Longrightarrow> stored w' = stored w"
    and get_ok: "get_position w = (Ok p, w') \<Longrightarrow> p = machine w"
    and set_ok: "try_set_position p w = (Ok u, w') \<Longrightarrow> stored w' = Some p"
    and set_err: "try_set_position p w = (Err e, w') \<Longrightarrow> stored w' = stored w"
begin

lemma sync_ok:
  "position_sync n get_position try_set_position w = (Ok u, w') \<Longrightarrow> stored w' = Some (machine w)"
  by (auto simp: position_sync_def split: prod.splits sum.splits dest!: get_ok set_ok)

lemma sync_err:
  "position_sync n get_position try_set_position w = (Err e, w') \<Longrightarrow> stored w' = stored w"
  by (auto simp: position_sync_def split: prod.splits sum.splits dest!: get_frame set_err)

lemma sync_stored:
  "position_sync n get_position try_set_position w = (res, w') \<Longrightarrow> stored w' \<in> {stored w, Some (machine w)}"
  by (cases res) (auto dest: sync_ok sync_err)

end

section \<open>The engine of mainold.rs\<close>

text \<open>
  The state the tasks of the binary share: the mock gateway's position, the mock database's last
  write, and the queue. \<open>db_busy\<close> is whether \<open>try_write\<close> would fail, \<open>moves_meanwhile\<close> how often the
  producer moves between the next read of the position and what follows it, and \<open>visited\<close> is a ghost: the
  positions the machine has been at.
\<close>

record engine_state =
  gw_pos :: position3
  db_stored :: "position3 option"
  db_busy :: bool
  moves_meanwhile :: nat
  eng_queue :: event_queue
  visited :: "position3 list"

definition simulate_move :: "engine_state \<Rightarrow> engine_state" where
  "simulate_move w =
     (let p = \<lparr>px = f64_add (px (gw_pos w)) (f64_lit 1 1), py = f64_add (py (gw_pos w)) (f64_lit 2 1),
              pz = f64_add (pz (gw_pos w)) (f64_lit 5 2)\<rparr>
      in w\<lparr>gw_pos := p, visited := p # visited w\<rparr>)"

definition mock_get_position :: "engine_state \<Rightarrow> (mapping_io_error, position3) result \<times> engine_state" where
  "mock_get_position w = (Ok (gw_pos w), (simulate_move ^^ moves_meanwhile w) w)"

definition mock_try_set_position ::
  "position3 \<Rightarrow> engine_state \<Rightarrow> (mapping_io_error, unit) result \<times> engine_state" where
  "mock_try_set_position pos w =
     (if db_busy w then (Err (DbWrite ''mockdb busy (dropped)''), w)
      else (Ok (), w\<lparr>db_stored := Some pos\<rparr>))"

definition mock_mappings :: "engine_state mapping list" where
  "mock_mappings = [position_mapping ''PositionMapping'' mock_get_position mock_try_set_position]"

definition mock_workflow :: workflow_engine where
  "mock_workflow = with_budget 32 workflow_engine_new"

text \<open>
  The producer task moves (\<open>simulate_move\<close>), then pushes a \<open>PositionChanged\<close> event without waiting and ignores
  the result. One turn of the engine loop: the synchronizer, then the workflow engine.
\<close>

definition producer_push :: "bool \<Rightarrow> uuid \<Rightarrow> timestamp \<Rightarrow> engine_state \<Rightarrow> engine_state exec" where
  "producer_push busy uid now w =
     (case try_push busy now (event_new uid now PositionChanged Gateway) (eng_queue w) of
        Panic \<Rightarrow> Panic
      | Return (_, q') \<Rightarrow> Return (w\<lparr>eng_queue := q'\<rparr>))"

definition engine_turn :: "nat \<Rightarrow> bool \<Rightarrow> (nat \<Rightarrow> bool) \<Rightarrow> engine_state \<Rightarrow> engine_state exec" where
  "engine_turn moves dbusy busy w =
     (case sync_tick mock_mappings (w\<lparr>db_busy := dbusy, moves_meanwhile := moves\<rparr>) of
        (_, w1) \<Rightarrow>
          (case workflow_tick mock_workflow busy (eng_queue w1) of
             Panic \<Rightarrow> Panic
           | Return (_, q') \<Rightarrow> Return (w1\<lparr>eng_queue := q'\<rparr>)))"

definition engine_start :: "nat \<Rightarrow> engine_state exec" where
  "engine_start capacity =
     (case event_queue_new capacity of
        Panic \<Rightarrow> Panic
      | Return q \<Rightarrow>
          (let p = \<lparr>px = f64_zero False, py = f64_zero False, pz = f64_zero False\<rparr>
           in Return \<lparr>gw_pos = p, db_stored = None, db_busy = False, moves_meanwhile = 0, eng_queue = q, visited = [p]\<rparr>))"

text \<open>
  The steps of the two tasks in any order: a move, a push, and a turn of the loop, during which the
  producer may move between the read of the position and the write.
\<close>

datatype turn = Move | Push bool uuid timestamp | Loop nat bool "nat \<Rightarrow> bool"

fun engine_turns :: "turn list \<Rightarrow> engine_state \<Rightarrow> engine_state exec" where
  "engine_turns [] w = Return w"
| "engine_turns (t # ts) w =
     (case (case t of
              Move \<Rightarrow> Return (simulate_move w)
            | Push b uid n \<Rightarrow> producer_push b uid n w
            | Loop moves d b \<Rightarrow> engine_turn moves d b w) of
        Panic \<Rightarrow> Panic
      | Return w' \<Rightarrow> engine_turns ts w')"

lemma move_frame [simp]:
  "eng_queue (simulate_move w) = eng_queue w" "db_stored (simulate_move w) = db_stored w"
  "db_busy (simulate_move w) = db_busy w" "visited (simulate_move w) = gw_pos (simulate_move w) # visited w"
  by (simp_all add: simulate_move_def Let_def)

lemma moves_frame [simp]:
  "eng_queue ((simulate_move ^^ n) w) = eng_queue w" "db_stored ((simulate_move ^^ n) w) = db_stored w"
  "db_busy ((simulate_move ^^ n) w) = db_busy w"
  by (induction n) simp_all

lemma moves_visit: "gw_pos w \<in> set (visited w) \<Longrightarrow>
    gw_pos ((simulate_move ^^ n) w) \<in> set (visited ((simulate_move ^^ n) w)) \<and> set (visited w) \<subseteq> set (visited ((simulate_move ^^ n) w))"
  by (induction n) auto

lemma moves_position: "gw_pos w = gw_pos v \<Longrightarrow> gw_pos ((simulate_move ^^ n) w) = gw_pos ((simulate_move ^^ n) v)"
  by (induction n) (simp_all add: simulate_move_def Let_def)

interpretation mock: position_ports mock_get_position mock_try_set_position gw_pos db_stored
  by unfold_locales (auto simp: mock_get_position_def mock_try_set_position_def split: if_splits)

definition engine_inv :: "engine_state \<Rightarrow> bool" where
  "engine_inv w \<longleftrightarrow>
     ring_inv (eng_queue w) \<and> gw_pos w \<in> set (visited w) \<and> (\<forall>p. db_stored w = Some p \<longrightarrow> p \<in> set (visited w))"

lemma mock_sync_keeps:
  "position_sync n mock_get_position mock_try_set_position w = (res, w') \<Longrightarrow>
     eng_queue w' = eng_queue w \<and> visited w' = visited ((simulate_move ^^ moves_meanwhile w) w) \<and>
     gw_pos w' = gw_pos ((simulate_move ^^ moves_meanwhile w) w)"
  by (auto simp: position_sync_def mock_get_position_def mock_try_set_position_def
      split: prod.splits sum.splits if_splits)

lemma mock_sync_tick:
  "sync_tick mock_mappings w = (ws, w') \<Longrightarrow>
     \<exists>res. position_sync ''PositionMapping'' mock_get_position mock_try_set_position w = (res, w')"
  by (auto simp: mock_mappings_def position_mapping_def split: prod.splits sum.splits)

lemma move_spec: "engine_inv w \<Longrightarrow> engine_inv (simulate_move w)"
  by (auto simp: engine_inv_def)

lemma producer_push_spec:
  assumes "engine_inv w"
  shows "\<exists>w'. producer_push busy uid now w = Return w' \<and> engine_inv w'"
proof -
  have "ring_inv (eng_queue w)" using assms by (simp add: engine_inv_def)
  then show ?thesis
    by (cases rule: try_push_cases[where busy = busy and now = now and ev = "event_new uid now PositionChanged Gateway"])
      (use assms in \<open>auto simp: producer_push_def engine_inv_def\<close>)
qed

lemma engine_turn_spec:
  assumes "engine_inv w"
  shows "\<exists>w'. engine_turn moves dbusy busy w = Return w' \<and> engine_inv w' \<and> gw_pos w' = gw_pos ((simulate_move ^^ moves) w)"
proof -
  let ?w = "w\<lparr>db_busy := dbusy, moves_meanwhile := moves\<rparr>"
  obtain ws w1 where tick: "sync_tick mock_mappings ?w = (ws, w1)" by fastforce
  then obtain res where sync: "position_sync ''PositionMapping'' mock_get_position mock_try_set_position ?w = (res, w1)"
    using mock_sync_tick by blast
  have frame: "eng_queue w1 = eng_queue w" "visited w1 = visited ((simulate_move ^^ moves) ?w)" "gw_pos w1 = gw_pos ((simulate_move ^^ moves) ?w)"
    using mock_sync_keeps[OF sync] by simp_all
  have st: "db_stored w1 \<in> {db_stored w, Some (gw_pos w)}"
    using mock.sync_stored[OF sync] by simp
  have visit: "gw_pos w1 \<in> set (visited w1)" "set (visited w) \<subseteq> set (visited w1)"
    using moves_visit[of ?w moves] assms frame by (simp_all add: engine_inv_def)
  have position: "gw_pos w1 = gw_pos ((simulate_move ^^ moves) w)" using moves_position[of ?w w moves] frame(3) by simp
  obtain envs q' where run: "workflow_tick mock_workflow busy (eng_queue w1) = Return (envs, q')" "ring_inv q'"
    using workflow_turns_spec[of "eng_queue w1"] assms frame(1)
    unfolding workflow_tick_def engine_inv_def by metis
  show ?thesis
    using assms st run visit position by (auto simp: engine_turn_def tick engine_inv_def)
qed

lemma engine_turns_inv:
  "engine_inv w \<Longrightarrow> \<exists>w'. engine_turns ts w = Return w' \<and> engine_inv w'"
proof (induction ts arbitrary: w)
  case Nil
  then show ?case by simp
next
  case (Cons t ts)
  have "\<exists>w1. (case t of Move \<Rightarrow> Return (simulate_move w) | Push b uid n \<Rightarrow> producer_push b uid n w
      | Loop moves d b \<Rightarrow> engine_turn moves d b w) = Return w1 \<and> engine_inv w1"
    using move_spec[OF Cons.prems] producer_push_spec[OF Cons.prems] engine_turn_spec[OF Cons.prems] by (cases t) fastforce+
  then show ?case using Cons.IH by fastforce
qed

end
