(* ===== verification/Engine_Properties.thy ===== *)
theory Engine_Properties
  imports Engine
begin

text \<open>
  The properties of the event system, the workflow engine, the synchronizer and the engine built
  from them. Each holds from the state the constructors give, for every sequence of operations.
\<close>

section \<open>The queue, from its constructor on\<close>

lemma event_queue_new_inv:
  "event_queue_new capacity = Return q \<Longrightarrow> ring_inv q \<and> ring_list q = [] \<and> ring_capacity q = capacity"
  by (auto simp: event_queue_new_def ring_inv_new split: if_splits)

lemma reachable_queue:
  assumes "event_queue_new capacity = Return q0" and "engine_run w ops q0 = Return (ins, outs, q)"
  shows "ring_inv q" "ring_capacity q = capacity" "outs @ ring_list q = ins"
  using event_queue_new_inv[OF assms(1)] engine_run_spec[of q0 w ops] assms(2) by auto

text \<open>
  C1. Whatever the producers, the consumers and the workflow engine do to a queue made by
  \<open>EventQueue::new\<close>, in any order and with any outcome of \<open>try_lock\<close>, nothing panics, the
  envelopes that left followed by those still queued are the envelopes that entered, in order, and
  the queue never holds more than its capacity.
\<close>

theorem event_system_fifo:
  assumes "0 < capacity"
  shows "\<exists>q0 ins outs q. event_queue_new capacity = Return q0 \<and> engine_run w ops q0 = Return (ins, outs, q) \<and>
    outs @ ring_list q = ins \<and> length (ring_list q) \<le> capacity"
proof -
  from assms obtain q0 where new: "event_queue_new capacity = Return q0"
    by (simp add: event_queue_new_def)
  then obtain ins outs q where run: "engine_run w ops q0 = Return (ins, outs, q)"
    using engine_run_spec[of q0 w ops] event_queue_new_inv by fastforce
  show ?thesis
    using new run reachable_queue[OF new run] ring.bound[of q] by auto
qed

definition sample_event :: event where
  "sample_event = event_new 7 1 PositionChanged Gateway"

theorem event_system_fifo_witness:
  "\<exists>q0 ins outs q. event_queue_new 2 = Return q0 \<and>
     engine_run workflow_engine_new [TryPush False 1 sample_event, TryPush False 2 sample_event, TryPush True 3 sample_event,
        TryPop False] q0
       = Return (ins, outs, q) \<and> outs @ ring_list q = ins \<and> length (ring_list q) \<le> 2"
  by (rule event_system_fifo) simp

text \<open>
  On every queue the system can reach, \<open>try_push\<close> answers \<open>Busy\<close> exactly when the lock is
  taken, \<open>Full\<close> exactly when the capacity is reached, and leaves the queue alone in both cases;
  otherwise it appends the event with its arrival time.
\<close>

theorem try_push_outcome:
  assumes "event_queue_new capacity = Return q0" and "engine_run w ops q0 = Return (ins, outs, q)"
  shows "\<exists>q'. try_push busy now ev q =
      Return (if busy then Err Busy else if length (ring_list q) = capacity then Err Full else Ok (), q') \<and>
    ring_list q' = (if busy \<or> length (ring_list q) = capacity then ring_list q
      else ring_list q @ [\<lparr>env_event = ev, env_arrived_at = now\<rparr>])"
  using reachable_queue(1)[OF assms]
  by (cases rule: try_push_cases[where busy = busy and now = now and ev = ev])
    (use reachable_queue(2)[OF assms] in auto)

theorem try_push_outcome_witness:
  "\<exists>q'. try_push False 5 sample_event (ring_new 1) = Return (Ok (), q') \<and>
    ring_list q' = [\<lparr>env_event = sample_event, env_arrived_at = 5\<rparr>]"
  using try_push_outcome[where ops = "[]" and w = workflow_engine_new and ins = "[]" and outs = "[]" and capacity = 1
      and ?q0.0 = "ring_new 1" and q = "ring_new 1" and busy = False and now = 5 and ev = sample_event]
  by (simp add: event_queue_new_def)

section \<open>Ticks of the workflow engine\<close>

text \<open>A tick with a free lock takes exactly the budget from the front.\<close>

lemma workflow_tick_free:
  assumes "ring_inv q" and "\<And>i. i < max_per_tick w \<Longrightarrow> \<not> busy i"
  shows "\<exists>q'. workflow_tick w busy q = Return (take (max_per_tick w) (ring_list q), q') \<and> ring_inv q' \<and>
    ring_capacity q' = ring_capacity q \<and> ring_list q' = drop (max_per_tick w) (ring_list q)"
  unfolding workflow_tick_def using assms by (intro workflow_turns_free) simp_all

text \<open>A number of ticks one after another, and the events they handled.\<close>

fun workflow_ticks ::
  "nat \<Rightarrow> workflow_engine \<Rightarrow> (nat \<Rightarrow> bool) \<Rightarrow> event_queue \<Rightarrow> (envelope list \<times> event_queue) exec" where
  "workflow_ticks 0 w busy q = Return ([], q)"
| "workflow_ticks (Suc k) w busy q =
     (case workflow_tick w busy q of
        Panic \<Rightarrow> Panic
      | Return (envs, q') \<Rightarrow>
          (case workflow_ticks k w busy q' of
             Panic \<Rightarrow> Panic
           | Return (envs', q'') \<Rightarrow> Return (envs @ envs', q'')))"

lemma workflow_ticks_free:
  "ring_inv q \<Longrightarrow> (\<And>i. \<not> busy i) \<Longrightarrow> \<exists>q'. workflow_ticks k w busy q =
     Return (take (k * max_per_tick w) (ring_list q), q') \<and> ring_inv q' \<and>
     ring_list q' = drop (k * max_per_tick w) (ring_list q)"
proof (induction k arbitrary: q)
  case 0
  then show ?case by simp
next
  case (Suc k)
  obtain q1 where tick: "workflow_tick w busy q = Return (take (max_per_tick w) (ring_list q), q1)"
    "ring_inv q1" "ring_list q1 = drop (max_per_tick w) (ring_list q)"
    using workflow_tick_free[of q w busy] Suc.prems by blast
  with Suc.IH[OF tick(2) Suc.prems(2)] show ?case
    by (auto simp: take_add add.commute)
qed

text \<open>
  C16. The workflow engine never starves the queue: with any budget configured by \<open>with_budget\<close>
  (a budget of zero is raised to one), a tick that finds the lock free handles the oldest
  \<open>max n 1\<close> events in order, and as many ticks as there are queued events leave the queue empty
  with every event handled once and in order.
\<close>

theorem ticks_drain_queue:
  assumes "event_queue_new capacity = Return q0" and "engine_run w0 ops q0 = Return (ins, outs, q)"
    and "\<And>i. \<not> busy i"
  shows "\<exists>q1 q2. workflow_tick (with_budget n w) busy q = Return (take (max n 1) (ring_list q), q1) \<and>
    ring_list q1 = drop (max n 1) (ring_list q) \<and>
    workflow_ticks (length (ring_list q)) (with_budget n w) busy q = Return (ring_list q, q2) \<and>
    ring_list q2 = []"
proof -
  have inv: "ring_inv q" by (rule reachable_queue(1)[OF assms(1,2)])
  have budget: "max_per_tick (with_budget n w) = max n 1" by (simp add: with_budget_def)
  have enough: "length (ring_list q) \<le> length (ring_list q) * max n 1"
    by (metis max.cobounded2 mult_le_mono2 nat_mult_1_right)
  obtain q1 where "workflow_tick (with_budget n w) busy q = Return (take (max n 1) (ring_list q), q1)"
    "ring_list q1 = drop (max n 1) (ring_list q)"
    using workflow_tick_free[OF inv, of "with_budget n w" busy] assms(3) budget by auto
  moreover obtain q2 where "workflow_ticks (length (ring_list q)) (with_budget n w) busy q =
      Return (take (length (ring_list q) * max n 1) (ring_list q), q2)"
    "ring_list q2 = drop (length (ring_list q) * max n 1) (ring_list q)"
    using workflow_ticks_free[OF inv, of busy "length (ring_list q)" "with_budget n w"] assms(3) budget by auto
  ultimately show ?thesis using enough by (metis drop_all take_all)
qed

text \<open>Four pushes and a pop on a queue of three, so that it is full and wrapped; then a budget of two.\<close>

definition backlog_ops :: "engine_op list" where
  "backlog_ops =
     [TryPush False 1 sample_event, TryPush False 2 sample_event, TryPush False 3 sample_event, TryPop False,
      TryPush False 4 sample_event]"

definition sample_at :: "timestamp \<Rightarrow> envelope" where
  "sample_at now = \<lparr>env_event = sample_event, env_arrived_at = now\<rparr>"

definition backlog :: event_queue where
  "backlog = \<lparr>ring_buf = [Some (sample_at 4), Some (sample_at 2), Some (sample_at 3)], ring_head = 1, ring_tail = 1, ring_len = 3\<rparr>"

lemma backlog_run:
  "engine_run workflow_engine_new backlog_ops (ring_new 3) =
     Return ([sample_at 1, sample_at 2, sample_at 3, sample_at 4], [sample_at 1], backlog)"
  by code_simp

lemma backlog_list: "ring_list backlog = [sample_at 2, sample_at 3, sample_at 4]"
  by code_simp

theorem ticks_drain_queue_witness:
  "\<exists>q1 q2. engine_run workflow_engine_new backlog_ops (ring_new 3) =
       Return ([sample_at 1, sample_at 2, sample_at 3, sample_at 4], [sample_at 1], backlog) \<and>
    workflow_tick (with_budget 2 workflow_engine_new) (\<lambda>_. False) backlog = Return ([sample_at 2, sample_at 3], q1) \<and>
    ring_list q1 = [sample_at 4] \<and>
    workflow_ticks 3 (with_budget 2 workflow_engine_new) (\<lambda>_. False) backlog =
      Return ([sample_at 2, sample_at 3, sample_at 4], q2) \<and>
    ring_list q2 = []"
proof -
  have new: "event_queue_new 3 = Return (ring_new 3)" by (simp add: event_queue_new_def)
  have size: "length [sample_at 2, sample_at 3, sample_at 4] = 3" by simp
  from ticks_drain_queue[OF new backlog_run, of "\<lambda>_. False" 2 workflow_engine_new] show ?thesis
    using backlog_run unfolding backlog_list size by (auto simp: take_Cons' drop_Cons' simp del: workflow_ticks.simps)
qed

section \<open>The synchronizer\<close>

lemma sync_tick_world: "snd (sync_tick ms w) = fold (\<lambda>m w. snd (sync_gateway_to_db m w)) ms w"
proof (induction ms arbitrary: w)
  case (Cons m ms)
  obtain res w1 where run: "sync_gateway_to_db m w = (res, w1)" by fastforce
  obtain ws w2 where rest: "sync_tick ms w1 = (ws, w2)" by fastforce
  from Cons.IH[of w1] show ?case by (simp add: run rest split: sum.splits)
qed simp

text \<open>
  A mapping that fails does not disturb the others: \<open>Synchronizer::tick\<close> runs each mapping
  exactly once, in registration order, on the state its predecessors left, and its warnings are
  those of the mappings before, then the mapping's own under its name if it failed, then those of
  the mappings after.
\<close>

theorem sync_tick_isolates:
  assumes "sync_tick ms w = (before, w1)" and "sync_gateway_to_db m w1 = (res, w2)"
    and "sync_tick ms' w2 = (after, w3)"
  shows "sync_tick (ms @ m # ms') w =
    (before @ (case res of Inl e \<Rightarrow> [(map_name m, e)] | Inr _ \<Rightarrow> []) @ after, w3)
    \<and> w3 = fold (\<lambda>m w. snd (sync_gateway_to_db m w)) (ms @ m # ms') w"
proof -
  have "sync_tick (ms @ m # ms') w =
    (before @ (case res of Inl e \<Rightarrow> [(map_name m, e)] | Inr _ \<Rightarrow> []) @ after, w3)"
    using assms by (auto simp: sync_tick_append split: sum.splits)
  then show ?thesis using sync_tick_world[of "ms @ m # ms'" w] by simp
qed

definition failing_mapping :: "string \<Rightarrow> nat mapping" where
  "failing_mapping n = \<lparr>map_name = n, sync_gateway_to_db = \<lambda>w. (Err (Mapping ''down''), w + 1)\<rparr>"

theorem sync_tick_isolates_witness:
  "sync_tick [failing_mapping ''a'', failing_mapping ''b'', failing_mapping ''c''] 0 =
    ([(''a'', Mapping ''down''), (''b'', Mapping ''down''), (''c'', Mapping ''down'')], 3)"
  using sync_tick_isolates[where ms = "[failing_mapping ''a'']" and m = "failing_mapping ''b''"
      and ms' = "[failing_mapping ''c'']" and w = 0 and before = "[(''a'', Mapping ''down'')]" and ?w1.0 = 1
      and res = "Err (Mapping ''down'')" and ?w2.0 = 2 and after = "[(''c'', Mapping ''down'')]" and ?w3.0 = 3]
  by (simp add: failing_mapping_def)

section \<open>The engine of mainold.rs\<close>

text \<open>
  C32. The engine of \<open>mainold.rs\<close> never panics, and the database only ever holds a position the
  machine has really been at: for every interleaving of the producer's moves and pushes with engine
  turns from the start, whatever locks were taken. An engine turn that finds the database free then
  stores the position the machine is at when it is read; the machine may have moved on before the write.
\<close>

theorem engine_stores_visited_positions:
  assumes "engine_start capacity = Return w0"
  shows "\<exists>w. engine_turns ts w0 = Return w \<and>
    (\<forall>p. db_stored w = Some p \<longrightarrow> p \<in> set (visited w)) \<and>
    (\<exists>w'. engine_turn moves False busy w = Return w' \<and> db_stored w' = Some (gw_pos w) \<and>
      gw_pos w' = gw_pos ((simulate_move ^^ moves) w))"
proof -
  have inv0: "engine_inv w0"
    using assms
    by (auto simp: engine_start_def engine_inv_def Let_def split: exec.splits dest: event_queue_new_inv)
  then obtain w where w: "engine_turns ts w0 = Return w" "engine_inv w"
    using engine_turns_inv by blast
  obtain w' where w': "engine_turn moves False busy w = Return w'" "gw_pos w' = gw_pos ((simulate_move ^^ moves) w)"
    using engine_turn_spec[OF w(2)] by blast
  have "db_stored w' = Some (gw_pos w)"
    using w'(1) by (auto simp: engine_turn_def mock_mappings_def position_mapping_def position_sync_def
        mock_get_position_def mock_try_set_position_def split: exec.splits)
  with w w' show ?thesis by (auto simp: engine_inv_def)
qed

definition engine_at_start :: engine_state where
  "engine_at_start =
     (let p = \<lparr>px = f64_zero False, py = f64_zero False, pz = f64_zero False\<rparr>
      in \<lparr>gw_pos = p, db_stored = None, db_busy = False, moves_meanwhile = 0, eng_queue = ring_new 1024, visited = [p]\<rparr>)"

theorem engine_stores_visited_positions_witness:
  "\<exists>w. engine_turns [Move, Push False 7 1, Loop 0 False (\<lambda>_. False), Loop 2 True (\<lambda>_. True)] engine_at_start = Return w \<and>
    (\<forall>p. db_stored w = Some p \<longrightarrow> p \<in> set (visited w)) \<and>
    (\<exists>w'. engine_turn 1 False (\<lambda>_. False) w = Return w' \<and> db_stored w' = Some (gw_pos w) \<and>
      gw_pos w' = gw_pos ((simulate_move ^^ 1) w))"
  by (rule engine_stores_visited_positions[where capacity = 1024])
    (simp add: engine_start_def engine_at_start_def event_queue_new_def Let_def)

end
