(* ===== verification/Rust_Str.thy ===== *)
theory Rust_Str
  imports Prelude
begin

text \<open>
  The string operations of the Rust standard library that the sources use. A \<open>String\<close> is its
  UTF-8 byte sequence, a \<open>char list\<close>; every operation here treats bytes above 127 as Rust treats
  the characters they encode: the ASCII tests and case maps leave them alone, and \<open>trim\<close>
  recognises the encodings of all Unicode white space.
\<close>

section \<open>ASCII classes and case\<close>

definition code :: "char \<Rightarrow> nat" where
  "code c = of_char c"

definition is_ascii_upper :: "char \<Rightarrow> bool" where
  "is_ascii_upper c \<longleftrightarrow> 65 \<le> code c \<and> code c \<le> 90"

definition is_ascii_lower :: "char \<Rightarrow> bool" where
  "is_ascii_lower c \<longleftrightarrow> 97 \<le> code c \<and> code c \<le> 122"

definition is_ascii_digit :: "char \<Rightarrow> bool" where
  "is_ascii_digit c \<longleftrightarrow> 48 \<le> code c \<and> code c \<le> 57"

definition is_ascii_alphabetic :: "char \<Rightarrow> bool" where
  "is_ascii_alphabetic c \<longleftrightarrow> is_ascii_upper c \<or> is_ascii_lower c"

definition is_ascii_alphanumeric :: "char \<Rightarrow> bool" where
  "is_ascii_alphanumeric c \<longleftrightarrow> is_ascii_alphabetic c \<or> is_ascii_digit c"

definition char_lower :: "char \<Rightarrow> char" where
  "char_lower c = (if is_ascii_upper c then char_of (code c + 32) else c)"

definition char_upper :: "char \<Rightarrow> char" where
  "char_upper c = (if is_ascii_lower c then char_of (code c - 32) else c)"

definition to_ascii_lowercase :: "string \<Rightarrow> string" where
  "to_ascii_lowercase s = map char_lower s"

definition to_ascii_uppercase :: "string \<Rightarrow> string" where
  "to_ascii_uppercase s = map char_upper s"

lemmas ascii_defs = code_def is_ascii_upper_def is_ascii_lower_def is_ascii_digit_def
  is_ascii_alphabetic_def is_ascii_alphanumeric_def char_lower_def char_upper_def
  to_ascii_lowercase_def to_ascii_uppercase_def

section \<open>Decimal numbers, joining and splitting\<close>

fun nat_str :: "nat \<Rightarrow> string" where
  "nat_str n = (if n < 10 then [char_of (48 + n)] else nat_str (n div 10) @ [char_of (48 + n mod 10)])"

declare nat_str.simps [simp del]

lemma nat_str_digits: "\<forall>c \<in> set (nat_str n). is_ascii_digit c"
proof (induction n rule: nat_str.induct)
  case (1 n)
  have "n mod 10 < 10" by simp
  then have digit: "is_ascii_digit (char_of (48 + n mod 10))"
    by (simp add: is_ascii_digit_def code_def)
  show ?case
  proof (cases "n < 10")
    case True
    then have "is_ascii_digit (char_of (48 + n))"
      by (simp add: is_ascii_digit_def code_def)
    with True show ?thesis by (simp add: nat_str.simps[of n])
  next
    case False
    with 1 digit show ?thesis by (auto simp: nat_str.simps[of n])
  qed
qed

fun join :: "string \<Rightarrow> string list \<Rightarrow> string" where
  "join sep [] = []"
| "join sep [x] = x"
| "join sep (x # y # zs) = x @ sep @ join sep (y # zs)"

lemma set_join: "set (join sep xs) \<subseteq> (\<Union>x \<in> set xs. set x) \<union> set sep"
  by (induction sep xs rule: join.induct) auto

lemma set_join_in: "c \<in> set (join sep xs) \<Longrightarrow> (\<exists>x \<in> set xs. c \<in> set x) \<or> c \<in> set sep"
  using set_join by fastforce

text \<open>\<open>split(c)\<close> for a separator character, and \<open>rsplit_once(c)\<close>.\<close>

fun split_char :: "char \<Rightarrow> string \<Rightarrow> string list" where
  "split_char c [] = [[]]"
| "split_char c (x # xs) =
     (if x = c then [] # split_char c xs
      else (case split_char c xs of [] \<Rightarrow> [[x]] | p # ps \<Rightarrow> (x # p) # ps))"

fun split_once :: "char \<Rightarrow> string \<Rightarrow> (string \<times> string) option" where
  "split_once c [] = None"
| "split_once c (x # xs) =
     (if x = c then Some ([], xs)
      else map_option (\<lambda>(a, b). (x # a, b)) (split_once c xs))"

definition rsplit_once :: "char \<Rightarrow> string \<Rightarrow> (string \<times> string) option" where
  "rsplit_once c s = map_option (\<lambda>(a, b). (rev b, rev a)) (split_once c (rev s))"

lemma split_once_Some:
  "split_once c s = Some (a, b) \<longleftrightarrow> s = a @ c # b \<and> c \<notin> set a"
  by (induction s arbitrary: a b) (auto simp: Cons_eq_append_conv)

lemma split_once_None: "split_once c s = None \<longleftrightarrow> c \<notin> set s"
  by (induction s) auto

lemma rsplit_once_Some:
  "rsplit_once c s = Some (a, b) \<longleftrightarrow> s = a @ c # b \<and> c \<notin> set b"
proof -
  have "rsplit_once c s = Some (a, b) \<longleftrightarrow> split_once c (rev s) = Some (rev b, rev a)"
    by (force simp: rsplit_once_def)
  also have "\<dots> \<longleftrightarrow> s = a @ c # b \<and> c \<notin> set b"
    by (metis (no_types, lifting) append.assoc append_Cons append_Nil rev.simps(2) rev_append rev_rev_ident
        set_rev split_once_Some)
  finally show ?thesis .
qed

lemma rsplit_once_None: "rsplit_once c s = None \<longleftrightarrow> c \<notin> set s"
  by (simp add: rsplit_once_def split_once_None)

lemma split_char_not_Nil [simp]: "split_char c s \<noteq> []"
  by (cases s) (auto split: list.splits)

lemma split_char_plain: "c \<notin> set s \<Longrightarrow> split_char c s = [s]"
  by (induction s) auto

lemma split_char_app: "c \<notin> set a \<Longrightarrow> split_char c (a @ c # b) = a # split_char c b"
  by (induction a) auto

section \<open>White space\<close>

text \<open>
  The length in bytes of the white space character at the front of a string, 0 if there is none.
\<close>

fun ws_front :: "nat list \<Rightarrow> nat" where
  "ws_front (a # b # c # _) =
     (if a \<in> {9, 10, 11, 12, 13, 32} then 1
      else if a = 194 \<and> b \<in> {133, 160} then 2
      else if (a = 225 \<and> b = 154 \<and> c = 128) \<or>
              (a = 226 \<and> b = 128 \<and> (128 \<le> c \<and> c \<le> 138 \<or> c \<in> {168, 169, 175})) \<or>
              (a = 226 \<and> b = 129 \<and> c = 159) \<or> (a = 227 \<and> b = 128 \<and> c = 128) then 3
      else 0)"
| "ws_front [a, b] =
     (if a \<in> {9, 10, 11, 12, 13, 32} then 1 else if a = 194 \<and> b \<in> {133, 160} then 2 else 0)"
| "ws_front [a] = (if a \<in> {9, 10, 11, 12, 13, 32} then 1 else 0)"
| "ws_front [] = 0"

function trim_start :: "string \<Rightarrow> string" where
  "trim_start s =
     (let n = ws_front (map code (take 3 s)) in if n = 0 \<or> s = [] then s else trim_start (drop n s))"
  by pat_completeness auto
termination by (relation "measure length") auto

declare trim_start.simps [simp del]

text \<open>The same at the back: a white space character that ends the string.\<close>

definition ws_back :: "string \<Rightarrow> nat" where
  "ws_back s =
     (if s \<noteq> [] \<and> ws_front (map code (drop (length s - 1) s)) = 1 then 1
      else if 2 \<le> length s \<and> ws_front (map code (drop (length s - 2) s)) = 2 then 2
      else if 3 \<le> length s \<and> ws_front (map code (drop (length s - 3) s)) = 3 then 3
      else 0)"

function trim_end :: "string \<Rightarrow> string" where
  "trim_end s =
     (let n = ws_back s in if n = 0 then s else trim_end (take (length s - n) s))"
  by pat_completeness auto
termination by (relation "measure length") (auto simp: ws_back_def split: if_splits)

declare trim_end.simps [simp del]

definition trim :: "string \<Rightarrow> string" where
  "trim s = trim_end (trim_start s)"

section \<open>Trimming\<close>

text \<open>Strings with a printable ASCII character at both ends are not trimmed, and a space around them is.\<close>

definition printable :: "char \<Rightarrow> bool" where
  "printable c \<longleftrightarrow> 33 \<le> code c \<and> code c \<le> 126"

lemma ws_front_ascii: "33 \<le> a \<Longrightarrow> a \<le> 126 \<Longrightarrow> ws_front (a # xs) = 0"
  by (cases xs; cases "tl xs") auto

lemma ws_front_ends: "33 \<le> b \<Longrightarrow> b \<le> 126 \<Longrightarrow> ws_front [a, b] \<noteq> 2" "33 \<le> c \<Longrightarrow> c \<le> 126 \<Longrightarrow> ws_front [a, b, c] \<noteq> 3"
  by auto

lemma trim_start_printable: "s \<noteq> [] \<Longrightarrow> 33 \<le> code (hd s) \<Longrightarrow> code (hd s) \<le> 126 \<Longrightarrow> trim_start s = s"
  by (cases s) (simp_all add: trim_start.simps ws_front_ascii)

lemma trim_start_space: "trim_start (CHR '' '' # s) = trim_start s"
proof -
  have "ws_front (map code (take 3 (CHR '' '' # s))) = 1"
    by (cases s; cases "tl s") (simp_all add: code_def numeral_3_eq_3)
  then show ?thesis by (subst trim_start.simps) simp
qed

lemma trim_end_printable:
  assumes "s \<noteq> []" "33 \<le> code (last s)" "code (last s) \<le> 126"
  shows "trim_end s = s"
proof -
  obtain t c where s: "s = t @ [c]" using assms(1) by (metis append_butlast_last_id)
  have c: "33 \<le> code c" "code c \<le> 126" using assms s by simp_all
  have "ws_front [code c] \<noteq> 1" using c ws_front_ascii[of "code c" "[]"] by simp
  moreover have "ws_front (map code (drop (length s - 2) s)) \<noteq> 2" if len: "2 \<le> length s"
  proof -
    obtain b where "drop (length s - 2) s = [b, c]"
      using len s by (cases t rule: rev_cases) auto
    then show ?thesis using ws_front_ends(1)[OF c] by simp
  qed
  moreover have "ws_front (map code (drop (length s - 3) s)) \<noteq> 3" if len: "3 \<le> length s"
  proof -
    obtain a b where "drop (length s - 3) s = [a, b, c]"
      using len s by (cases t rule: rev_cases; cases "butlast t" rule: rev_cases) auto
    then show ?thesis using ws_front_ends(2)[OF c] by simp
  qed
  ultimately have "ws_back s = 0" by (auto simp: ws_back_def s)
  then show ?thesis by (simp add: trim_end.simps)
qed

lemma trim_end_space: "trim_end (s @ '' '') = trim_end s"
proof -
  have "ws_back (s @ '' '') = 1" by (simp add: ws_back_def code_def)
  then show ?thesis by (subst trim_end.simps) simp
qed

lemma trim_printable:
  assumes "s \<noteq> []" "printable (hd s)" "printable (last s)"
  shows "trim s = s" "trim (CHR '' '' # s) = s" "trim (CHR '' '' # s @ '' '') = s"
proof -
  have start: "trim_start s = s" "trim_start (s @ '' '') = s @ '' ''"
    using assms by (auto intro!: trim_start_printable simp: printable_def)
  have stop: "trim_end s = s" using assms by (auto intro!: trim_end_printable simp: printable_def)
  show "trim s = s" "trim (CHR '' '' # s) = s" "trim (CHR '' '' # s @ '' '') = s"
    by (simp_all add: trim_def trim_start_space start stop trim_end_space)
qed

end
