(* ===== verification/Pg_Types.thy ===== *)
theory Pg_Types
  imports Rust_Str Float64
begin

text \<open>
  The data model of the Postgres data manager: \<open>databases/postgresdb/src/models/postgrestypes.rs\<close>,
  \<open>models/transformation.rs\<close>, the column lists of \<open>models/properties\<close> and the identifier and
  column checks at the head of \<open>postgresimpl.rs\<close>.
\<close>

section \<open>Column types\<close>

datatype pg_data_type =
    PgBool | Int4 | Int8 | Float8 | Text | Uuid | TimestampTz | Jsonb
  | PgCustom string

fun to_sql :: "pg_data_type \<Rightarrow> string" where
  "to_sql PgBool = ''BOOLEAN''"
| "to_sql Int4 = ''INT4''"
| "to_sql Int8 = ''INT8''"
| "to_sql Float8 = ''FLOAT8''"
| "to_sql Text = ''TEXT''"
| "to_sql Uuid = ''UUID''"
| "to_sql TimestampTz = ''TIMESTAMPTZ''"
| "to_sql Jsonb = ''JSONB''"
| "to_sql (PgCustom s) = s"

definition from_information_schema :: "string \<Rightarrow> string \<Rightarrow> pg_data_type" where
  "from_information_schema data_type udt_name =
     (let dt = to_ascii_lowercase data_type; udt = to_ascii_lowercase udt_name
      in if dt = ''boolean'' then PgBool
         else if dt = ''integer'' then Int4
         else if dt = ''bigint'' then Int8
         else if dt = ''double precision'' then Float8
         else if dt = ''text'' then Text
         else if dt = ''uuid'' then Uuid
         else if dt = ''timestamp with time zone'' then TimestampTz
         else if dt = ''jsonb'' then Jsonb
         else if udt = ''bool'' then PgBool
         else if udt = ''int4'' then Int4
         else if udt = ''int8'' then Int8
         else if udt = ''float8'' then Float8
         else if udt = ''text'' then Text
         else if udt = ''uuid'' then Uuid
         else if udt = ''timestamptz'' then TimestampTz
         else if udt = ''jsonb'' then Jsonb
         else PgCustom udt_name)"

section \<open>Columns, tables, bindings, metadata\<close>

record column_def =
  cd_name :: string
  cd_data_type :: pg_data_type
  cd_nullable :: bool
  cd_primary_key :: bool
  cd_default_sql :: "string option"

definition column_def_new :: "string \<Rightarrow> pg_data_type \<Rightarrow> column_def" where
  "column_def_new name dt =
     \<lparr>cd_name = name, cd_data_type = dt, cd_nullable = True, cd_primary_key = False, cd_default_sql = None\<rparr>"

record column_meta =
  cm_name :: string
  cm_data_type :: pg_data_type
  cm_nullable :: bool
  cm_primary_key :: bool
  cm_default_sql :: "string option"

definition column_meta_from :: "column_def \<Rightarrow> column_meta" where
  "column_meta_from d =
     \<lparr>cm_name = cd_name d, cm_data_type = cd_data_type d, cm_nullable = cd_nullable d,
      cm_primary_key = cd_primary_key d, cm_default_sql = cd_default_sql d\<rparr>"

record table_meta =
  tm_name :: string
  tm_columns :: "string \<rightharpoonup> column_meta"

record data_binding =
  db_data_id :: string
  db_table :: string
  db_column :: "string option"

record db_metadata =
  md_db_name :: string
  md_tables :: "string \<rightharpoonup> table_meta"
  md_bindings :: "string \<rightharpoonup> data_binding"

definition db_metadata_new :: "string \<Rightarrow> db_metadata" where
  "db_metadata_new name = \<lparr>md_db_name = name, md_tables = Map.empty, md_bindings = Map.empty\<rparr>"

text \<open>
  A bound SQL parameter, by the constructors of \<open>SqlParam\<close>. JSON values belong to \<open>serde_json\<close> and
  are the type parameter \<open>'j\<close>.
\<close>

datatype 'j sql_param =
    PI64 i64 | PI32 u32 | PF64 f64 | PBool bool | PText string | PJson 'j | PUuid uuid
  | PTimestamptz timestamp

section \<open>Errors\<close>

datatype db_error =
    QueueFull
  | Postgres string
  | InvalidIdentifier string
  | NotFound string
  | AlreadyExists string
  | WorkerClosed
  | Serde string

section \<open>Identifiers and column lists\<close>

definition metadata_table :: string where
  "metadata_table = ''dt_metadata''"

definition ident_first :: "char \<Rightarrow> bool" where
  "ident_first c \<longleftrightarrow> is_ascii_alphabetic c \<or> c = CHR ''_''"

definition ident_rest :: "char \<Rightarrow> bool" where
  "ident_rest c \<longleftrightarrow> is_ascii_alphanumeric c \<or> c = CHR ''_''"

fun validate_ident :: "string \<Rightarrow> (db_error, unit) result" where
  "validate_ident [] = Err (InvalidIdentifier [])"
| "validate_ident (c # cs) =
     (if ident_first c \<and> list_all ident_rest cs then Ok () else Err (InvalidIdentifier (c # cs)))"

definition column_sql :: "column_def \<Rightarrow> string" where
  "column_sql c =
     cd_name c @ '' '' @ to_sql (cd_data_type c)
     @ (case cd_default_sql c of None \<Rightarrow> [] | Some d \<Rightarrow> '' DEFAULT '' @ d)
     @ (if cd_nullable c then [] else '' NOT NULL'')
     @ (if cd_primary_key c then '' PRIMARY KEY'' else [])"

fun column_parts :: "column_def list \<Rightarrow> (db_error, string list) result" where
  "column_parts [] = Ok []"
| "column_parts (c # cs) =
     (case validate_ident (cd_name c) of
        Inl e \<Rightarrow> Err e
      | Inr _ \<Rightarrow>
          (case column_parts cs of
             Inl e \<Rightarrow> Err e
           | Inr ps \<Rightarrow> Ok (column_sql c # ps)))"

definition join_columns :: "column_def list \<Rightarrow> (db_error, string) result" where
  "join_columns cols =
     (case column_parts cols of Inl e \<Rightarrow> Err e | Inr parts \<Rightarrow> Ok (join '', '' parts))"

text \<open>A valid identifier: the characters that may reach SQL text unquoted.\<close>

definition ident_char :: "char \<Rightarrow> bool" where
  "ident_char c \<longleftrightarrow> is_ascii_alphanumeric c \<or> c = CHR ''_''"

definition valid_ident :: "string \<Rightarrow> bool" where
  "valid_ident s \<longleftrightarrow> s \<noteq> [] \<and> \<not> is_ascii_digit (hd s) \<and> list_all ident_char s"

lemma validate_ident_iff: "validate_ident s = Ok () \<longleftrightarrow> valid_ident s"
  by (cases s)
    (auto simp: valid_ident_def ident_char_def ident_first_def ident_rest_def is_ascii_alphanumeric_def
      is_ascii_alphabetic_def is_ascii_digit_def is_ascii_upper_def is_ascii_lower_def code_def
      list_all_iff)

lemma validate_ident_cases:
  "validate_ident s = (if valid_ident s then Ok () else Err (InvalidIdentifier s))"
  by (cases s) (auto simp flip: validate_ident_iff)

lemma column_parts_cases:
  "column_parts cs =
     (if \<forall>c \<in> set cs. valid_ident (cd_name c) then Ok (map column_sql cs)
      else Err (InvalidIdentifier (cd_name (hd (filter (\<lambda>c. \<not> valid_ident (cd_name c)) cs)))))"
  by (induction cs) (auto simp: validate_ident_cases)

lemma join_columns_cases:
  "join_columns cs =
     (if \<forall>c \<in> set cs. valid_ident (cd_name c) then Ok (join '', '' (map column_sql cs))
      else Err (InvalidIdentifier (cd_name (hd (filter (\<lambda>c. \<not> valid_ident (cd_name c)) cs)))))"
  by (simp add: join_columns_def column_parts_cases)

section \<open>Column lists of the properties\<close>

definition table_position :: string where
  "table_position = ''dt_position''"

definition position_schema :: "column_def list" where
  "position_schema =
     [(column_def_new ''entity_id'' Text)\<lparr>cd_nullable := False, cd_primary_key := True\<rparr>,
      (column_def_new ''ts'' TimestampTz)\<lparr>cd_nullable := False, cd_default_sql := Some ''now()''\<rparr>,
      (column_def_new ''x'' Float8)\<lparr>cd_nullable := False\<rparr>,
      (column_def_new ''y'' Float8)\<lparr>cd_nullable := False\<rparr>,
      (column_def_new ''z'' Float8)\<lparr>cd_nullable := False\<rparr>]"

definition table_speed :: string where
  "table_speed = ''dt_speed''"

definition speed_schema :: "column_def list" where
  "speed_schema =
     [(column_def_new ''entity_id'' Text)\<lparr>cd_nullable := False, cd_primary_key := True\<rparr>,
      (column_def_new ''ts'' TimestampTz)\<lparr>cd_nullable := False, cd_default_sql := Some ''now()''\<rparr>,
      (column_def_new ''value'' Float8)\<lparr>cd_nullable := False\<rparr>]"

definition default_timeseries_columns :: "pg_data_type \<Rightarrow> column_def list" where
  "default_timeseries_columns payload_type =
     [\<lparr>cd_name = ''id'', cd_data_type = Uuid, cd_nullable = False, cd_primary_key = True, cd_default_sql = None\<rparr>,
      \<lparr>cd_name = ''ts'', cd_data_type = TimestampTz, cd_nullable = False, cd_primary_key = False,
       cd_default_sql = Some ''now()''\<rparr>,
      \<lparr>cd_name = ''payload'', cd_data_type = payload_type, cd_nullable = False, cd_primary_key = False,
       cd_default_sql = None\<rparr>]"

end
