(* ===== verification/Pg_Worker.thy ===== *)
theory Pg_Worker
  imports Pg_Types
begin

text \<open>
  The Postgres data manager, \<open>databases/postgresdb/src/postgresimpl.rs\<close>: the statements it sends,
  bootstrap, and the actor that owns the connection and handles one \<open>DbCommand\<close> at a time.

  The driver and \<open>serde_json\<close> are not part of the sources: a \<open>pg_client\<close> is whatever they do, on a
  world \<open>'w\<close>, rows \<open>'r\<close> and JSON values \<open>'j\<close>. \<open>row_text\<close>, \<open>row_text_opt\<close> and \<open>row_json\<close> are the
  typed reads \<open>r.get(..)\<close>. The state of the actor is the set of managed ids and the metadata, both
  written by the actor only. A handler returns what it answers (or logs, for the commands without
  an answer), the new state and the new world.
\<close>

section \<open>The client\<close>

record ('j, 'r, 'w) pg_client =
  pg_execute :: "string \<Rightarrow> 'j sql_param list \<Rightarrow> 'w \<Rightarrow> (db_error, u64) result \<times> 'w"
  pg_query :: "string \<Rightarrow> 'j sql_param list \<Rightarrow> 'w \<Rightarrow> (db_error, 'r list) result \<times> 'w"
  row_text :: "'r \<Rightarrow> string \<Rightarrow> string"
  row_text_opt :: "'r \<Rightarrow> string \<Rightarrow> string option"
  row_json :: "'r \<Rightarrow> nat \<Rightarrow> 'j"
  md_to_value :: "db_metadata \<Rightarrow> (db_error, 'j) result"
  md_from_value :: "'j \<Rightarrow> (db_error, db_metadata) result"

definition sql_lines :: "string list \<Rightarrow> string" where
  "sql_lines ls = join [CHR 0x0A] ls"

section \<open>The metadata table\<close>

definition ensure_metadata_sql :: string where
  "ensure_metadata_sql = sql_lines
     [[],
      ''        CREATE TABLE IF NOT EXISTS '' @ metadata_table @ '' ('',
      ''            db_name    TEXT PRIMARY KEY,'',
      ''            metadata   JSONB NOT NULL,'',
      ''            updated_at TIMESTAMPTZ NOT NULL DEFAULT now()'',
      ''        )'',
      ''        '']"

definition ensure_metadata_table ::
  "('j, 'r, 'w) pg_client \<Rightarrow> 'w \<Rightarrow> (db_error, unit) result \<times> 'w" where
  "ensure_metadata_table c w =
     (case pg_execute c ensure_metadata_sql [] w of
        (Inl e, w') \<Rightarrow> (Err e, w')
      | (Inr _, w') \<Rightarrow> (Ok (), w'))"

definition load_metadata_sql :: string where
  "load_metadata_sql = ''SELECT metadata FROM '' @ metadata_table @ '' WHERE db_name = $1''"

definition load_persisted_metadata ::
  "('j, 'r, 'w) pg_client \<Rightarrow> string \<Rightarrow> 'w \<Rightarrow> (db_error, db_metadata option) result \<times> 'w" where
  "load_persisted_metadata c db_name w =
     (case pg_query c load_metadata_sql [PText db_name] w of
        (Inl e, w') \<Rightarrow> (Err e, w')
      | (Inr [], w') \<Rightarrow> (Ok None, w')
      | (Inr (row # _), w') \<Rightarrow>
          (case md_from_value c (row_json c row 0) of
             Inl e \<Rightarrow> (Err e, w')
           | Inr md \<Rightarrow> (Ok (Some md), w')))"

definition persist_metadata_sql :: string where
  "persist_metadata_sql = sql_lines
     [[],
      ''        INSERT INTO '' @ metadata_table @ '' (db_name, metadata, updated_at)'',
      ''        VALUES ($1, $2, now())'',
      ''        ON CONFLICT (db_name)'',
      ''        DO UPDATE SET metadata = EXCLUDED.metadata, updated_at = now()'',
      ''        '']"

definition persist_metadata ::
  "('j, 'r, 'w) pg_client \<Rightarrow> db_metadata \<Rightarrow> 'w \<Rightarrow> (db_error, unit) result \<times> 'w" where
  "persist_metadata c md w =
     (case md_to_value c md of
        Inl e \<Rightarrow> (Err e, w)
      | Inr v \<Rightarrow>
          (case pg_execute c persist_metadata_sql [PText (md_db_name md), PJson v] w of
             (Inl e, w') \<Rightarrow> (Err e, w')
           | (Inr _, w') \<Rightarrow> (Ok (), w')))"

section \<open>Introspection\<close>

definition tables_sql :: string where
  "tables_sql = sql_lines
     [[],
      ''            SELECT table_name'',
      ''            FROM information_schema.tables'',
      ''            WHERE table_schema = '' @ [CHR 0x27] @ ''public'' @ [CHR 0x27],
      ''              AND table_type = '' @ [CHR 0x27] @ ''BASE TABLE'' @ [CHR 0x27],
      ''            ORDER BY table_name'',
      ''            '']"

definition primary_key_sql :: string where
  "primary_key_sql = sql_lines
     [[],
      ''                SELECT kcu.column_name'',
      ''                FROM information_schema.table_constraints tc'',
      ''                JOIN information_schema.key_column_usage kcu'',
      ''                  ON tc.constraint_name = kcu.constraint_name'',
      ''                 AND tc.table_schema = kcu.table_schema'',
      ''                WHERE tc.table_schema = '' @ [CHR 0x27] @ ''public'' @ [CHR 0x27],
      ''                  AND tc.table_name = $1'',
      ''                  AND tc.constraint_type = '' @ [CHR 0x27] @ ''PRIMARY KEY'' @ [CHR 0x27],
      ''                '']"

definition columns_sql :: string where
  "columns_sql = sql_lines
     [[],
      ''                SELECT column_name, is_nullable, data_type, udt_name, column_default'',
      ''                FROM information_schema.columns'',
      ''                WHERE table_schema = '' @ [CHR 0x27] @ ''public'' @ [CHR 0x27],
      ''                  AND table_name = $1'',
      ''                ORDER BY ordinal_position'',
      ''                '']"

definition column_meta_of_row :: "('j, 'r, 'w) pg_client \<Rightarrow> string set \<Rightarrow> 'r \<Rightarrow> column_meta" where
  "column_meta_of_row c pk_set row =
     (let name = row_text c row ''column_name''
      in \<lparr>cm_name = name,
          cm_data_type = from_information_schema (row_text c row ''data_type'') (row_text c row ''udt_name''),
          cm_nullable = (to_ascii_uppercase (row_text c row ''is_nullable'') = ''YES''),
          cm_primary_key = (name \<in> pk_set),
          cm_default_sql = row_text_opt c row ''column_default''\<rparr>)"

definition columns_of_rows :: "('j, 'r, 'w) pg_client \<Rightarrow> string set \<Rightarrow> 'r list \<Rightarrow> (string \<rightharpoonup> column_meta)" where
  "columns_of_rows c pk_set rows =
     fold (\<lambda>row cols. cols(row_text c row ''column_name'' \<mapsto> column_meta_of_row c pk_set row)) rows Map.empty"

fun introspect_tables ::
  "('j, 'r, 'w) pg_client \<Rightarrow> 'r list \<Rightarrow> (string \<rightharpoonup> table_meta) \<Rightarrow> 'w
   \<Rightarrow> (db_error, string \<rightharpoonup> table_meta) result \<times> 'w" where
  "introspect_tables c [] tables w = (Ok tables, w)"
| "introspect_tables c (r # rs) tables w =
     (let table_name = row_text c r ''table_name''
      in if table_name = metadata_table then introspect_tables c rs tables w
         else
           (case pg_query c primary_key_sql [PText table_name] w of
              (Inl e, w1) \<Rightarrow> (Err e, w1)
            | (Inr pk_rows, w1) \<Rightarrow>
                (let pk_set = (\<lambda>p. row_text c p ''column_name'') ` set pk_rows
                 in case pg_query c columns_sql [PText table_name] w1 of
                      (Inl e, w2) \<Rightarrow> (Err e, w2)
                    | (Inr col_rows, w2) \<Rightarrow>
                        introspect_tables c rs
                          (tables(table_name \<mapsto>
                             \<lparr>tm_name = table_name, tm_columns = columns_of_rows c pk_set col_rows\<rparr>)) w2)))"

definition introspect_schema ::
  "('j, 'r, 'w) pg_client \<Rightarrow> 'w \<Rightarrow> (db_error, string \<rightharpoonup> table_meta) result \<times> 'w" where
  "introspect_schema c w =
     (case pg_query c tables_sql [] w of
        (Inl e, w1) \<Rightarrow> (Err e, w1)
      | (Inr table_rows, w1) \<Rightarrow> introspect_tables c table_rows Map.empty w1)"

section \<open>Bindings against the schema\<close>

definition binding_ok :: "(string \<rightharpoonup> table_meta) \<Rightarrow> data_binding \<Rightarrow> bool" where
  "binding_ok tables b =
     (case tables (db_table b) of
        None \<Rightarrow> False
      | Some t \<Rightarrow>
          (case db_column b of
             Some col \<Rightarrow> tm_columns t col \<noteq> None
           | None \<Rightarrow> True))"

definition prune_bindings :: "db_metadata \<Rightarrow> db_metadata" where
  "prune_bindings md = md\<lparr>md_bindings := map_retain (\<lambda>_ b. binding_ok (md_tables md) b) (md_bindings md)\<rparr>"

section \<open>The state of the actor and its bootstrap\<close>

record worker_state =
  managed_ids :: "string set"
  metadata :: db_metadata

definition worker_init :: "string \<Rightarrow> worker_state" where
  "worker_init name = \<lparr>managed_ids = {}, metadata = db_metadata_new name\<rparr>"

definition managed_follow :: "db_metadata \<Rightarrow> worker_state" where
  "managed_follow md = \<lparr>managed_ids = dom (md_bindings md), metadata = md\<rparr>"

definition bootstrap ::
  "('j, 'r, 'w) pg_client \<Rightarrow> string \<Rightarrow> worker_state \<Rightarrow> 'w \<Rightarrow> (db_error, unit) result \<times> worker_state \<times> 'w" where
  "bootstrap c name s w =
     (case ensure_metadata_table c w of
        (Inl e, w1) \<Rightarrow> (Err e, s, w1)
      | (Inr _, w1) \<Rightarrow>
          (case load_persisted_metadata c name w1 of
             (Inl e, w2) \<Rightarrow> (Err e, s, w2)
           | (Inr persisted, w2) \<Rightarrow>
               (case introspect_schema c w2 of
                  (Inl e, w3) \<Rightarrow> (Err e, s, w3)
                | (Inr schema_tables, w3) \<Rightarrow>
                    (let md = (db_metadata_new name)\<lparr>md_tables := schema_tables\<rparr>;
                         md = (case persisted of None \<Rightarrow> md | Some p \<Rightarrow> md\<lparr>md_bindings := md_bindings p\<rparr>);
                         md = prune_bindings md
                     in case persist_metadata c md w3 of (res, w4) \<Rightarrow> (res, managed_follow md, w4)))))"

end
