(* ===== verification/Pg_Handlers.thy ===== *)
theory Pg_Handlers
  imports Pg_Worker
begin

text \<open>
  The commands of the actor in \<open>postgresimpl.rs\<close>, one handler per arm of its loop, and the loop
  itself. Every handler keeps the order of the source:
  checks, then the statement, then the metadata in memory, then the persisted copy.
\<close>

section \<open>Commands\<close>

datatype 'j db_command =
    ExecuteNoAck string "'j sql_param list"
  | Execute string "'j sql_param list"
  | InsertRowNoAck string "(string \<times> 'j sql_param) list"
  | AddManagedId string
  | RemoveManagedId string
  | RegisterBinding data_binding
  | UnregisterBinding string
  | CreateTable string "column_def list"
  | DropTable string
  | AddColumn string column_def
  | DropColumn string string
  | InsertRow string "(string \<times> 'j sql_param) list"
  | Query string "'j sql_param list"
  | GetMetadata
  | RefreshSchema

text \<open>What is answered on the reply channel, or logged by the commands that have none.\<close>

datatype 'r reply =
    RUnit "(db_error, unit) result"
  | RCount "(db_error, u64) result"
  | RRows "(db_error, 'r list) result"
  | RMetadata "(db_error, db_metadata) result"
  | Logged "(db_error, unit) result"

section \<open>Handlers\<close>

definition handle_remove_managed_id ::
  "('j, 'r, 'w) pg_client \<Rightarrow> string \<Rightarrow> worker_state \<Rightarrow> 'w \<Rightarrow> (db_error, unit) result \<times> worker_state \<times> 'w" where
  "handle_remove_managed_id c i s w =
     (let md = (metadata s)\<lparr>md_bindings := (md_bindings (metadata s))(i := None)\<rparr>;
          s' = \<lparr>managed_ids = managed_ids s - {i}, metadata = md\<rparr>
      in case persist_metadata c md w of (res, w') \<Rightarrow> (res, s', w'))"

definition handle_register_binding ::
  "('j, 'r, 'w) pg_client \<Rightarrow> data_binding \<Rightarrow> worker_state \<Rightarrow> 'w \<Rightarrow> (db_error, unit) result \<times> worker_state \<times> 'w" where
  "handle_register_binding c b s w =
     (case validate_ident (db_table b) of
        Inl e \<Rightarrow> (Err e, s, w)
      | Inr _ \<Rightarrow>
          (case (case db_column b of None \<Rightarrow> Ok () | Some col \<Rightarrow> validate_ident col) of
             Inl e \<Rightarrow> (Err e, s, w)
           | Inr _ \<Rightarrow>
               (let m = metadata s;
                    md = prune_bindings (m\<lparr>md_bindings := (md_bindings m)(db_data_id b \<mapsto> b)\<rparr>)
                in case persist_metadata c md w of (res, w') \<Rightarrow> (res, managed_follow md, w'))))"

definition handle_unregister_binding ::
  "('j, 'r, 'w) pg_client \<Rightarrow> string \<Rightarrow> worker_state \<Rightarrow> 'w \<Rightarrow> (db_error, unit) result \<times> worker_state \<times> 'w" where
  "handle_unregister_binding c data_id s w =
     (let md = (metadata s)\<lparr>md_bindings := (md_bindings (metadata s))(data_id := None)\<rparr>;
          s' = \<lparr>managed_ids = managed_ids s - {data_id}, metadata = md\<rparr>
      in case persist_metadata c md w of (res, w') \<Rightarrow> (res, s', w'))"

definition create_table_sql :: "string \<Rightarrow> string \<Rightarrow> string" where
  "create_table_sql table cols_sql = ''CREATE TABLE IF NOT EXISTS '' @ table @ '' ('' @ cols_sql @ '')''"

definition columns_of_defs :: "column_def list \<Rightarrow> (string \<rightharpoonup> column_meta)" where
  "columns_of_defs cs = fold (\<lambda>c cols. cols(cd_name c \<mapsto> column_meta_from c)) cs Map.empty"

definition handle_create_table ::
  "('j, 'r, 'w) pg_client \<Rightarrow> string \<Rightarrow> column_def list \<Rightarrow> worker_state \<Rightarrow> 'w
   \<Rightarrow> (db_error, unit) result \<times> worker_state \<times> 'w" where
  "handle_create_table c table columns s w =
     (case validate_ident table of
        Inl e \<Rightarrow> (Err e, s, w)
      | Inr _ \<Rightarrow>
          if table = metadata_table then (Err (InvalidIdentifier table), s, w)
          else
            (case join_columns columns of
               Inl e \<Rightarrow> (Err e, s, w)
             | Inr cols_sql \<Rightarrow>
                 (case pg_execute c (create_table_sql table cols_sql) [] w of
                    (Inl e, w1) \<Rightarrow> (Err e, s, w1)
                  | (Inr _, w1) \<Rightarrow>
                      (let m = metadata s;
                           md = prune_bindings (m\<lparr>md_tables := (md_tables m)(table \<mapsto>
                                  \<lparr>tm_name = table, tm_columns = columns_of_defs columns\<rparr>)\<rparr>)
                       in case persist_metadata c md w1 of
                            (res, w2) \<Rightarrow> (res, s\<lparr>metadata := md\<rparr>, w2)))))"

definition drop_table_sql :: "string \<Rightarrow> string" where
  "drop_table_sql table = ''DROP TABLE IF EXISTS '' @ table @ '' CASCADE''"

definition handle_drop_table ::
  "('j, 'r, 'w) pg_client \<Rightarrow> string \<Rightarrow> worker_state \<Rightarrow> 'w \<Rightarrow> (db_error, unit) result \<times> worker_state \<times> 'w" where
  "handle_drop_table c table s w =
     (case validate_ident table of
        Inl e \<Rightarrow> (Err e, s, w)
      | Inr _ \<Rightarrow>
          if table = metadata_table then (Err (InvalidIdentifier table), s, w)
          else
            (case pg_execute c (drop_table_sql table) [] w of
               (Inl e, w1) \<Rightarrow> (Err e, s, w1)
             | (Inr _, w1) \<Rightarrow>
                 (let m = metadata s;
                      md = m\<lparr>md_tables := (md_tables m)(table := None),
                             md_bindings := map_retain (\<lambda>_ b. db_table b \<noteq> table) (md_bindings m)\<rparr>
                  in case persist_metadata c md w1 of (res, w2) \<Rightarrow> (res, managed_follow md, w2))))"

definition add_column_sql :: "string \<Rightarrow> column_def \<Rightarrow> string" where
  "add_column_sql table column =
     ''ALTER TABLE '' @ table @ '' ADD COLUMN IF NOT EXISTS '' @ cd_name column @ '' '' @ to_sql (cd_data_type column)
     @ (case cd_default_sql column of None \<Rightarrow> [] | Some d \<Rightarrow> '' DEFAULT '' @ d)
     @ (if cd_nullable column then [] else '' NOT NULL'')"

definition handle_add_column ::
  "('j, 'r, 'w) pg_client \<Rightarrow> string \<Rightarrow> column_def \<Rightarrow> worker_state \<Rightarrow> 'w
   \<Rightarrow> (db_error, unit) result \<times> worker_state \<times> 'w" where
  "handle_add_column c table column s w =
     (case validate_ident table of
        Inl e \<Rightarrow> (Err e, s, w)
      | Inr _ \<Rightarrow>
          (case validate_ident (cd_name column) of
             Inl e \<Rightarrow> (Err e, s, w)
           | Inr _ \<Rightarrow>
               if table = metadata_table then (Err (InvalidIdentifier table), s, w)
               else
                 (case pg_execute c (add_column_sql table column) [] w of
                    (Inl e, w1) \<Rightarrow> (Err e, s, w1)
                  | (Inr _, w1) \<Rightarrow>
                      (let m = metadata s;
                           t = (case md_tables m table of
                                  Some t \<Rightarrow> t
                                | None \<Rightarrow> \<lparr>tm_name = table, tm_columns = Map.empty\<rparr>);
                           t' = t\<lparr>tm_columns := (tm_columns t)(cd_name column \<mapsto> column_meta_from column)\<rparr>;
                           md = prune_bindings (m\<lparr>md_tables := (md_tables m)(table \<mapsto> t')\<rparr>)
                       in case persist_metadata c md w1 of
                            (res, w2) \<Rightarrow> (res, s\<lparr>metadata := md\<rparr>, w2)))))"

definition drop_column_sql :: "string \<Rightarrow> string \<Rightarrow> string" where
  "drop_column_sql table column = ''ALTER TABLE '' @ table @ '' DROP COLUMN IF EXISTS '' @ column"

definition handle_drop_column ::
  "('j, 'r, 'w) pg_client \<Rightarrow> string \<Rightarrow> string \<Rightarrow> worker_state \<Rightarrow> 'w
   \<Rightarrow> (db_error, unit) result \<times> worker_state \<times> 'w" where
  "handle_drop_column c table column s w =
     (case validate_ident table of
        Inl e \<Rightarrow> (Err e, s, w)
      | Inr _ \<Rightarrow>
          (case validate_ident column of
             Inl e \<Rightarrow> (Err e, s, w)
           | Inr _ \<Rightarrow>
               if table = metadata_table then (Err (InvalidIdentifier table), s, w)
               else
                 (case pg_execute c (drop_column_sql table column) [] w of
                    (Inl e, w1) \<Rightarrow> (Err e, s, w1)
                  | (Inr _, w1) \<Rightarrow>
                      (let m = metadata s;
                           tables = (case md_tables m table of
                                       Some t \<Rightarrow> (md_tables m)(table \<mapsto>
                                         t\<lparr>tm_columns := (tm_columns t)(column := None)\<rparr>)
                                     | None \<Rightarrow> md_tables m);
                           md = m\<lparr>md_tables := tables,
                                  md_bindings := map_retain
                                    (\<lambda>_ b. if db_table b \<noteq> table then True
                                           else (case db_column b of Some col \<Rightarrow> col \<noteq> column | None \<Rightarrow> True))
                                    (md_bindings m)\<rparr>
                       in case persist_metadata c md w1 of (res, w2) \<Rightarrow> (res, managed_follow md, w2)))))"

text \<open>
  The columns, placeholders and parameters of an \<open>INSERT\<close>; the counter is the \<open>i\<close> of \<open>enumerate\<close>.
\<close>

fun insert_parts ::
  "nat \<Rightarrow> (string \<times> 'j sql_param) list \<Rightarrow> (db_error, (string \<times> string \<times> 'j sql_param) list) result" where
  "insert_parts i [] = Ok []"
| "insert_parts i ((col, v) # values) =
     (case validate_ident col of
        Inl e \<Rightarrow> Err e
      | Inr _ \<Rightarrow>
          (case insert_parts (Suc i) values of
             Inl e \<Rightarrow> Err e
           | Inr ps \<Rightarrow> Ok ((col, CHR ''$'' # nat_str (i + 1), v) # ps)))"

definition insert_sql :: "string \<Rightarrow> (string \<times> string \<times> 'j sql_param) list \<Rightarrow> string" where
  "insert_sql table ps =
     ''INSERT INTO '' @ table @ '' ('' @ join '', '' (map fst ps) @ '') VALUES ('' @ join '', '' (map (fst \<circ> snd) ps) @ '')''"

definition handle_insert_row ::
  "('j, 'r, 'w) pg_client \<Rightarrow> string \<Rightarrow> (string \<times> 'j sql_param) list \<Rightarrow> 'w \<Rightarrow> (db_error, u64) result \<times> 'w" where
  "handle_insert_row c table values w =
     (case validate_ident table of
        Inl e \<Rightarrow> (Err e, w)
      | Inr _ \<Rightarrow>
          if values = [] then (Err (NotFound ''no values to insert''), w)
          else
            (case insert_parts 0 values of
               Inl e \<Rightarrow> (Err e, w)
             | Inr ps \<Rightarrow> pg_execute c (insert_sql table ps) (map (snd \<circ> snd) ps) w))"

definition handle_insert_row_no_ack ::
  "('j, 'r, 'w) pg_client \<Rightarrow> string \<Rightarrow> (string \<times> 'j sql_param) list \<Rightarrow> 'w \<Rightarrow> (db_error, unit) result \<times> 'w" where
  "handle_insert_row_no_ack c table values w =
     (case validate_ident table of
        Inl e \<Rightarrow> (Err e, w)
      | Inr _ \<Rightarrow>
          if values = [] then (Ok (), w)
          else
            (case insert_parts 0 values of
               Inl e \<Rightarrow> (Err e, w)
             | Inr ps \<Rightarrow>
                 (case pg_execute c (insert_sql table ps) (map (snd \<circ> snd) ps) w of
                    (Inl e, w') \<Rightarrow> (Err e, w')
                  | (Inr _, w') \<Rightarrow> (Ok (), w'))))"

definition handle_refresh_schema ::
  "('j, 'r, 'w) pg_client \<Rightarrow> worker_state \<Rightarrow> 'w \<Rightarrow> (db_error, unit) result \<times> worker_state \<times> 'w" where
  "handle_refresh_schema c s w =
     (case introspect_schema c w of
        (Inl e, w1) \<Rightarrow> (Err e, s, w1)
      | (Inr schema_tables, w1) \<Rightarrow>
          (let md = prune_bindings ((metadata s)\<lparr>md_tables := schema_tables\<rparr>)
           in case persist_metadata c md w1 of (res, w2) \<Rightarrow> (res, managed_follow md, w2)))"

section \<open>The loop of the actor\<close>

fun handle_command ::
  "('j, 'r, 'w) pg_client \<Rightarrow> 'j db_command \<Rightarrow> worker_state \<Rightarrow> 'w \<Rightarrow> 'r reply \<times> worker_state \<times> 'w" where
  "handle_command c (ExecuteNoAck sql params) s w =
     (case pg_execute c sql params w of
        (Inl e, w') \<Rightarrow> (Logged (Err e), s, w')
      | (Inr _, w') \<Rightarrow> (Logged (Ok ()), s, w'))"
| "handle_command c (Execute sql params) s w =
     (case pg_execute c sql params w of (res, w') \<Rightarrow> (RCount res, s, w'))"
| "handle_command c (AddManagedId i) s w =
     (RUnit (Ok ()), s\<lparr>managed_ids := insert i (managed_ids s)\<rparr>, w)"
| "handle_command c (RemoveManagedId i) s w =
     (case handle_remove_managed_id c i s w of (res, s', w') \<Rightarrow> (RUnit res, s', w'))"
| "handle_command c (RegisterBinding b) s w =
     (case handle_register_binding c b s w of (res, s', w') \<Rightarrow> (RUnit res, s', w'))"
| "handle_command c (UnregisterBinding i) s w =
     (case handle_unregister_binding c i s w of (res, s', w') \<Rightarrow> (RUnit res, s', w'))"
| "handle_command c (CreateTable t cs) s w =
     (case handle_create_table c t cs s w of (res, s', w') \<Rightarrow> (RUnit res, s', w'))"
| "handle_command c (DropTable t) s w =
     (case handle_drop_table c t s w of (res, s', w') \<Rightarrow> (RUnit res, s', w'))"
| "handle_command c (AddColumn t col) s w =
     (case handle_add_column c t col s w of (res, s', w') \<Rightarrow> (RUnit res, s', w'))"
| "handle_command c (DropColumn t col) s w =
     (case handle_drop_column c t col s w of (res, s', w') \<Rightarrow> (RUnit res, s', w'))"
| "handle_command c (InsertRowNoAck t vs) s w =
     (case handle_insert_row_no_ack c t vs w of (res, w') \<Rightarrow> (Logged res, s, w'))"
| "handle_command c (InsertRow t vs) s w =
     (case handle_insert_row c t vs w of (res, w') \<Rightarrow> (RCount res, s, w'))"
| "handle_command c (Query sql params) s w =
     (case pg_query c sql params w of (res, w') \<Rightarrow> (RRows res, s, w'))"
| "handle_command c GetMetadata s w = (RMetadata (Ok (metadata s)), s, w)"
| "handle_command c RefreshSchema s w =
     (case handle_refresh_schema c s w of (res, s', w') \<Rightarrow> (RUnit res, s', w'))"

fun worker_run ::
  "('j, 'r, 'w) pg_client \<Rightarrow> 'j db_command list \<Rightarrow> worker_state \<Rightarrow> 'w \<Rightarrow> 'r reply list \<times> worker_state \<times> 'w" where
  "worker_run c [] s w = ([], s, w)"
| "worker_run c (cmd # cmds) s w =
     (case handle_command c cmd s w of
        (r, s1, w1) \<Rightarrow> (case worker_run c cmds s1 w1 of (rs, s2, w2) \<Rightarrow> (r # rs, s2, w2)))"

text \<open>The spawned task: bootstrap, whose failure is only logged, then the commands received.\<close>

definition worker_task ::
  "('j, 'r, 'w) pg_client \<Rightarrow> string \<Rightarrow> 'j db_command list \<Rightarrow> 'w \<Rightarrow> 'r reply list \<times> worker_state \<times> 'w" where
  "worker_task c name cmds w =
     (case bootstrap c name (worker_init name) w of (_, s1, w1) \<Rightarrow> worker_run c cmds s1 w1)"

end
