(* ===== verification/Pg_Invariants.thy ===== *)
theory Pg_Invariants
  imports Pg_Handlers
begin

text \<open>
  What the Postgres actor keeps true, whatever commands arrive and whatever the database answers:
  every binding points to a table and a column of the schema it holds, the schema is keyed by its
  own names and never contains the metadata table, and every bound id is managed.
\<close>

section \<open>The invariant\<close>

definition schema_ok :: "(string \<rightharpoonup> table_meta) \<Rightarrow> bool" where
  "schema_ok tables \<longleftrightarrow>
     tables metadata_table = None \<and>
     (\<forall>k t. tables k = Some t \<longrightarrow>
        tm_name t = k \<and> (\<forall>col cm. tm_columns t col = Some cm \<longrightarrow> cm_name cm = col))"

definition bindings_ok :: "db_metadata \<Rightarrow> bool" where
  "bindings_ok md \<longleftrightarrow> (\<forall>k b. md_bindings md k = Some b \<longrightarrow> binding_ok (md_tables md) b)"

definition worker_inv :: "worker_state \<Rightarrow> bool" where
  "worker_inv s \<longleftrightarrow>
     schema_ok (md_tables (metadata s)) \<and> bindings_ok (metadata s) \<and>
     dom (md_bindings (metadata s)) \<subseteq> managed_ids s"

text \<open>The stronger fact that the managed ids are exactly the bound ones.\<close>

definition managed_exact :: "worker_state \<Rightarrow> bool" where
  "managed_exact s \<longleftrightarrow> managed_ids s = dom (md_bindings (metadata s))"

lemma schema_ok_empty [simp]: "schema_ok Map.empty"
  by (simp add: schema_ok_def)

lemma schema_ok_upd:
  assumes "schema_ok tables" "k \<noteq> metadata_table" "tm_name t = k"
    and "\<And>col cm. tm_columns t col = Some cm \<Longrightarrow> cm_name cm = col"
  shows "schema_ok (tables(k \<mapsto> t))"
  using assms by (auto simp: schema_ok_def)

lemma schema_ok_del: "schema_ok tables \<Longrightarrow> schema_ok (tables(k := None))"
  by (auto simp: schema_ok_def)

lemma schema_ok_name: "schema_ok tables \<Longrightarrow> tables k = Some t \<Longrightarrow> tm_name t = k"
  by (simp add: schema_ok_def)

lemma schema_ok_column:
  "schema_ok tables \<Longrightarrow> tables k = Some t \<Longrightarrow> tm_columns t col = Some cm \<Longrightarrow> cm_name cm = col"
  by (simp add: schema_ok_def)

lemma prune_simps [simp]:
  "md_tables (prune_bindings md) = md_tables md"
  "md_db_name (prune_bindings md) = md_db_name md"
  "md_bindings (prune_bindings md) k = Some b \<longleftrightarrow> md_bindings md k = Some b \<and> binding_ok (md_tables md) b"
  by (simp_all add: prune_bindings_def)

lemma dom_prune: "dom (md_bindings (prune_bindings md)) \<subseteq> dom (md_bindings md)"
  by (auto simp: dom_def)

lemma bindings_ok_prune [simp]: "bindings_ok (prune_bindings md)"
  by (simp add: bindings_ok_def)

lemma prune_id: "bindings_ok md \<Longrightarrow> prune_bindings md = md"
  by (simp add: prune_bindings_def bindings_ok_def map_retain_id)

lemma managed_follow_simps [simp]:
  "metadata (managed_follow md) = md" "managed_ids (managed_follow md) = dom (md_bindings md)"
  by (simp_all add: managed_follow_def)

lemma worker_inv_follow: "schema_ok (md_tables md) \<Longrightarrow> bindings_ok md \<Longrightarrow> worker_inv (managed_follow md)"
  by (simp add: worker_inv_def)

lemma managed_exact_follow [simp]: "managed_exact (managed_follow md)"
  by (simp add: managed_exact_def)

lemma worker_inv_init [simp]: "worker_inv (worker_init name)"
  by (simp add: worker_inv_def worker_init_def db_metadata_new_def bindings_ok_def)

section \<open>Introspection builds a good schema\<close>

lemma columns_of_rows_name: "columns_of_rows c pks rows col = Some cm \<Longrightarrow> cm_name cm = col"
  unfolding columns_of_rows_def
  by (drule fold_upd_Some) (auto simp: column_meta_of_row_def Let_def)

lemma columns_of_defs_name: "columns_of_defs cs col = Some cm \<Longrightarrow> cm_name cm = col"
  unfolding columns_of_defs_def by (drule fold_upd_Some) (auto simp: column_meta_from_def)

lemma introspect_tables_ok:
  "schema_ok tables \<Longrightarrow> introspect_tables c rows tables w = (Ok tables', w') \<Longrightarrow> schema_ok tables'"
proof (induction c rows tables w rule: introspect_tables.induct)
  case (1 c tables w)
  then show ?case by simp
next
  case (2 c r rs tables w)
  let ?t = "row_text c r ''table_name''"
  show ?case
  proof (cases "?t = metadata_table")
    case True
    with 2 show ?thesis by (simp add: Let_def)
  next
    case False
    then obtain pks w1 cols w2 where
      q: "pg_query c primary_key_sql [PText ?t] w = (Ok pks, w1)"
         "pg_query c columns_sql [PText ?t] w1 = (Ok cols, w2)"
      using 2(4) by (auto simp: Let_def split: prod.splits sum.splits)
    let ?pk = "(\<lambda>p. row_text c p ''column_name'') ` set pks"
    have ok: "schema_ok (tables(?t \<mapsto> \<lparr>tm_name = ?t, tm_columns = columns_of_rows c ?pk cols\<rparr>))"
      using 2(3) False by (intro schema_ok_upd) (auto dest: columns_of_rows_name)
    have run: "introspect_tables c rs
        (tables(?t \<mapsto> \<lparr>tm_name = ?t, tm_columns = columns_of_rows c ?pk cols\<rparr>)) w2 = (Ok tables', w')"
      using 2(4) q False by (simp add: Let_def)
    show ?thesis
      by (rule 2(2)[OF refl False q(1)[symmetric] refl refl q(2)[symmetric] refl ok run])
  qed
qed

lemma introspect_schema_ok: "introspect_schema c w = (Ok tables, w') \<Longrightarrow> schema_ok tables"
  by (auto simp: introspect_schema_def split: prod.splits sum.splits dest: introspect_tables_ok[rotated])

section \<open>Every handler keeps the invariant\<close>

lemma bootstrap_inv [inv_intros]:
  "bootstrap c name s w = (res, s', w') \<Longrightarrow> worker_inv s \<Longrightarrow> worker_inv s'"
  by (auto simp: bootstrap_def Let_def db_metadata_new_def split: prod.splits sum.splits option.splits
      dest: introspect_schema_ok intro!: worker_inv_follow)

lemma binding_ok_upd_table:
  assumes "binding_ok tables b"
    and "\<And>t0 col. tables k = Some t0 \<Longrightarrow> tm_columns t0 col \<noteq> None \<Longrightarrow> tm_columns t col \<noteq> None"
  shows "binding_ok (tables(k \<mapsto> t)) b"
  using assms by (auto simp: binding_ok_def split: option.splits)

lemma remove_binding_inv:
  assumes "worker_inv s"
  shows "worker_inv \<lparr>managed_ids = managed_ids s - {i},
    metadata = (metadata s)\<lparr>md_bindings := (md_bindings (metadata s))(i := None)\<rparr>\<rparr>"
  using assms by (auto simp: worker_inv_def bindings_ok_def)

lemma remove_managed_id_inv [inv_intros]:
  "handle_remove_managed_id c i s w = (res, s', w') \<Longrightarrow> worker_inv s \<Longrightarrow> worker_inv s'"
  by (auto simp: handle_remove_managed_id_def Let_def split: prod.splits intro: remove_binding_inv)

lemma unregister_binding_inv [inv_intros]:
  "handle_unregister_binding c i s w = (res, s', w') \<Longrightarrow> worker_inv s \<Longrightarrow> worker_inv s'"
  by (auto simp: handle_unregister_binding_def Let_def split: prod.splits intro: remove_binding_inv)

lemma register_binding_inv [inv_intros]:
  "handle_register_binding c b s w = (res, s', w') \<Longrightarrow> worker_inv s \<Longrightarrow> worker_inv s'"
  by (auto simp: handle_register_binding_def Let_def worker_inv_def split: prod.splits sum.splits)

lemma create_table_inv [inv_intros]:
  assumes "handle_create_table c t cs s w = (res, s', w')" and "worker_inv s"
  shows "worker_inv s'"
proof -
  let ?m = "metadata s" and ?t = "\<lparr>tm_name = t, tm_columns = columns_of_defs cs\<rparr>"
  let ?md = "prune_bindings (?m\<lparr>md_tables := (md_tables ?m)(t \<mapsto> ?t)\<rparr>)"
  have "s' = s \<or> t \<noteq> metadata_table \<and> s' = s\<lparr>metadata := ?md\<rparr>"
    using assms(1) by (auto simp: handle_create_table_def Let_def split: prod.splits sum.splits if_splits)
  moreover have "worker_inv (s\<lparr>metadata := ?md\<rparr>)" if "t \<noteq> metadata_table"
    using assms(2) dom_prune that
    by (fastforce simp: worker_inv_def intro: schema_ok_upd dest: columns_of_defs_name)
  ultimately show ?thesis using assms(2) by auto
qed

lemma drop_table_bindings_ok:
  assumes "bindings_ok m"
  shows "bindings_ok (m\<lparr>md_tables := (md_tables m)(t := None),
    md_bindings := map_retain (\<lambda>_ b. db_table b \<noteq> t) (md_bindings m)\<rparr>)"
  unfolding bindings_ok_def
proof (intro allI impI)
  fix k b
  assume "md_bindings (m\<lparr>md_tables := (md_tables m)(t := None),
    md_bindings := map_retain (\<lambda>_ b. db_table b \<noteq> t) (md_bindings m)\<rparr>) k = Some b"
  then have b: "md_bindings m k = Some b" "db_table b \<noteq> t" by simp_all
  then have "binding_ok (md_tables m) b" using assms by (auto simp: bindings_ok_def)
  with b(2) show "binding_ok (md_tables (m\<lparr>md_tables := (md_tables m)(t := None),
    md_bindings := map_retain (\<lambda>_ b. db_table b \<noteq> t) (md_bindings m)\<rparr>)) b"
    by (simp add: binding_ok_def)
qed

lemma drop_table_inv [inv_intros]:
  "handle_drop_table c t s w = (res, s', w') \<Longrightarrow> worker_inv s \<Longrightarrow> worker_inv s'"
  by (auto simp: handle_drop_table_def Let_def worker_inv_def
      split: prod.splits sum.splits if_splits intro: schema_ok_del drop_table_bindings_ok)

lemma add_column_inv [inv_intros]:
  assumes "handle_add_column c t col s w = (res, s', w')" and "worker_inv s"
  shows "worker_inv s'"
proof -
  let ?m = "metadata s"
  define t0 where "t0 = (case md_tables ?m t of Some t0 \<Rightarrow> t0 | None \<Rightarrow> \<lparr>tm_name = t, tm_columns = Map.empty\<rparr>)"
  define t1 where "t1 = t0\<lparr>tm_columns := (tm_columns t0)(cd_name col \<mapsto> column_meta_from col)\<rparr>"
  let ?md = "prune_bindings (?m\<lparr>md_tables := (md_tables ?m)(t \<mapsto> t1)\<rparr>)"
  have schema: "schema_ok (md_tables ?m)" using assms(2) by (simp add: worker_inv_def)
  have "s' = s \<or> t \<noteq> metadata_table \<and> s' = s\<lparr>metadata := ?md\<rparr>"
    using assms(1)
    by (auto simp: handle_add_column_def Let_def t0_def t1_def split: prod.splits sum.splits if_splits)
  moreover have "worker_inv (s\<lparr>metadata := ?md\<rparr>)" if "t \<noteq> metadata_table"
  proof -
    have "tm_name t1 = t"
      using schema by (auto simp: t1_def t0_def split: option.splits dest: schema_ok_name)
    moreover have "cm_name cm = k" if "tm_columns t1 k = Some cm" for k cm
      using that schema
      by (auto simp: t1_def t0_def column_meta_from_def split: option.splits if_splits dest: schema_ok_column)
    ultimately show ?thesis
      using assms(2) dom_prune \<open>t \<noteq> metadata_table\<close>
      by (fastforce simp: worker_inv_def intro: schema_ok_upd)
  qed
  ultimately show ?thesis using assms(2) by auto
qed

lemma drop_column_inv [inv_intros]:
  assumes "handle_drop_column c t col s w = (res, s', w')" and "worker_inv s"
  shows "worker_inv s'"
proof -
  let ?m = "metadata s"
  define tables where "tables = (case md_tables ?m t of
      Some t0 \<Rightarrow> (md_tables ?m)(t \<mapsto> t0\<lparr>tm_columns := (tm_columns t0)(col := None)\<rparr>)
    | None \<Rightarrow> md_tables ?m)"
  define keep where "keep = (\<lambda>(_::string) (b::data_binding). if db_table b \<noteq> t then True
      else (case db_column b of Some k \<Rightarrow> k \<noteq> col | None \<Rightarrow> True))"
  let ?md = "?m\<lparr>md_tables := tables, md_bindings := map_retain keep (md_bindings ?m)\<rparr>"
  have inv: "schema_ok (md_tables ?m)" "bindings_ok ?m" using assms(2) by (simp_all add: worker_inv_def)
  have "s' = s \<or> t \<noteq> metadata_table \<and> s' = managed_follow ?md"
    using assms(1)
    by (auto simp: handle_drop_column_def Let_def tables_def keep_def split: prod.splits sum.splits if_splits)
  moreover have "schema_ok tables"
    using inv(1) unfolding schema_ok_def tables_def by (auto split: option.splits if_splits)
  moreover have "bindings_ok ?md"
    unfolding bindings_ok_def
  proof (intro allI impI)
    fix k b
    assume "md_bindings ?md k = Some b"
    then have b: "md_bindings ?m k = Some b" "keep k b" by simp_all
    then have "binding_ok (md_tables ?m) b" using inv(2) by (auto simp: bindings_ok_def)
    with b(2) show "binding_ok (md_tables ?md) b"
      by (auto simp: binding_ok_def tables_def keep_def split: option.splits if_splits)
  qed
  ultimately show ?thesis using assms(2) worker_inv_follow[of ?md] by auto
qed

lemma refresh_schema_inv [inv_intros]:
  "handle_refresh_schema c s w = (res, s', w') \<Longrightarrow> worker_inv s \<Longrightarrow> worker_inv s'"
  by (auto simp: handle_refresh_schema_def Let_def split: prod.splits sum.splits
      dest: introspect_schema_ok intro!: worker_inv_follow)

lemma add_managed_inv: "worker_inv s \<Longrightarrow> worker_inv (s\<lparr>managed_ids := insert i (managed_ids s)\<rparr>)"
  by (simp add: worker_inv_def subset_insertI2)

lemma handle_command_inv [inv_intros]:
  assumes "handle_command c cmd s w = (r, s', w')" and "worker_inv s"
  shows "worker_inv s'"
proof (cases cmd)
  case (AddManagedId i)
  with assms show ?thesis using add_managed_inv by auto
qed (use assms in \<open>auto split: prod.splits sum.splits dest: inv_intros\<close>)

lemma worker_run_inv:
  "worker_run c cmds s w = (rs, s', w') \<Longrightarrow> worker_inv s \<Longrightarrow> worker_inv s'"
proof (induction cmds arbitrary: s w rs)
  case (Cons cmd cmds)
  then show ?case by (fastforce split: prod.splits dest: handle_command_inv)
qed simp

section \<open>Which commands keep the managed ids exact\<close>

text \<open>
  A \<open>CREATE TABLE\<close> over a name the metadata already has replaces the known columns and may prune
  bindings; its handler does not recompute the managed ids. Every other command does, or changes
  both sides alike; \<open>AddManagedId\<close> is the request to manage an id without a binding.
\<close>

fun keeps_exact :: "worker_state \<Rightarrow> 'j db_command \<Rightarrow> bool" where
  "keeps_exact s (AddManagedId i) \<longleftrightarrow> md_bindings (metadata s) i \<noteq> None"
| "keeps_exact s (CreateTable t cs) \<longleftrightarrow> md_tables (metadata s) t = None"
| "keeps_exact s cmd \<longleftrightarrow> True"

lemma handle_command_exact:
  assumes run: "handle_command c cmd s w = (r, s', w')" and inv: "worker_inv s"
    and exact: "managed_exact s" and keeps: "keeps_exact s cmd"
  shows "managed_exact s'"
proof (cases cmd)
  case (AddManagedId i)
  with assms show ?thesis by (auto simp: managed_exact_def)
next
  case (RemoveManagedId i)
  with assms show ?thesis
    by (auto simp: managed_exact_def handle_remove_managed_id_def Let_def
        split: prod.splits if_splits)
next
  case (UnregisterBinding i)
  with assms show ?thesis
    by (auto simp: managed_exact_def handle_unregister_binding_def Let_def
        split: prod.splits if_splits)
next
  case (CreateTable t cs)
  let ?m = "metadata s"
  have "bindings_ok (?m\<lparr>md_tables := (md_tables ?m)(t \<mapsto> t0)\<rparr>)" for t0
    using inv keeps CreateTable
    by (auto simp: worker_inv_def bindings_ok_def intro!: binding_ok_upd_table)
  then show ?thesis
    using run exact CreateTable
    by (auto simp: handle_create_table_def Let_def managed_exact_def prune_id
        split: prod.splits sum.splits if_splits)
next
  case (AddColumn t col)
  let ?m = "metadata s"
  have "bindings_ok (?m\<lparr>md_tables := (md_tables ?m)(t \<mapsto>
      (case md_tables ?m t of Some t0 \<Rightarrow> t0 | None \<Rightarrow> \<lparr>tm_name = t, tm_columns = Map.empty\<rparr>)
        \<lparr>tm_columns := (tm_columns (case md_tables ?m t of Some t0 \<Rightarrow> t0
          | None \<Rightarrow> \<lparr>tm_name = t, tm_columns = Map.empty\<rparr>))(cd_name col \<mapsto> column_meta_from col)\<rparr>)\<rparr>)"
    using inv by (auto simp: worker_inv_def bindings_ok_def intro!: binding_ok_upd_table)
  then show ?thesis
    using run exact AddColumn
    by (auto simp: handle_add_column_def Let_def managed_exact_def prune_id
        split: prod.splits sum.splits if_splits)
qed (use run exact in \<open>auto simp: handle_register_binding_def handle_drop_table_def handle_drop_column_def
  handle_refresh_schema_def Let_def split: prod.splits sum.splits if_splits\<close>)

end
