(* ===== verification/Pg_Properties.thy ===== *)
theory Pg_Properties
  imports Pg_Invariants
begin

text \<open>
  The properties of the Postgres data manager, from the task the constructor spawns: its invariant,
  what reaches the database as SQL text, what an acknowledged command has made durable and what a
  restart recovers.
\<close>

section \<open>Names and runs\<close>

lemma persist_metadata_world:
  "persist_metadata c md w = (Ok u, w') \<Longrightarrow> \<exists>v n. md_to_value c md = Ok v \<and>
     pg_execute c persist_metadata_sql [PText (md_db_name md), PJson v] w = (Ok n, w')"
  by (auto simp: persist_metadata_def split: sum.splits prod.splits)

lemmas handler_defs =
  handle_remove_managed_id_def handle_unregister_binding_def handle_register_binding_def
  handle_create_table_def handle_drop_table_def handle_add_column_def handle_drop_column_def
  handle_refresh_schema_def

lemma handle_command_name:
  "handle_command c cmd s w = (r, s', w') \<Longrightarrow> md_db_name (metadata s') = md_db_name (metadata s)"
  by (cases cmd) (auto simp: handler_defs Let_def split: prod.splits sum.splits if_splits)

lemma worker_run_name:
  "worker_run c cmds s w = (rs, s', w') \<Longrightarrow> md_db_name (metadata s') = md_db_name (metadata s)"
proof (induction cmds arbitrary: s w rs)
  case (Cons cmd cmds)
  then show ?case by (fastforce split: prod.splits dest: handle_command_name)
qed simp

lemma bootstrap_name:
  "bootstrap c name (worker_init name) w = (res, s', w') \<Longrightarrow> md_db_name (metadata s') = name"
  by (auto simp: bootstrap_def worker_init_def db_metadata_new_def Let_def
      split: prod.splits sum.splits option.splits)

lemma worker_task_facts:
  assumes "worker_task c name cmds w = (rs, s, w')"
  shows "worker_inv s" "md_db_name (metadata s) = name"
proof -
  obtain res s1 w1 where boot: "bootstrap c name (worker_init name) w = (res, s1, w1)"
    by (cases "bootstrap c name (worker_init name) w")
  with assms have run: "worker_run c cmds s1 w1 = (rs, s, w')" by (simp add: worker_task_def)
  show "worker_inv s" by (rule worker_run_inv[OF run bootstrap_inv[OF boot worker_inv_init]])
  show "md_db_name (metadata s) = name" using worker_run_name[OF run] bootstrap_name[OF boot] by simp
qed

section \<open>The invariant of the actor\<close>

text \<open>
  C2. Whatever commands arrive and whatever the database answers, in the state the actor reaches
  every binding names a table of its schema and, if it names a column, a column of that table, every
  bound id is managed, each table and column is filed under its own name, and the metadata table
  itself is never part of the schema.
\<close>

theorem worker_bindings_resolve:
  assumes "worker_task c name cmds w = (rs, s, w')"
  shows "(\<forall>i b. md_bindings (metadata s) i = Some b \<longrightarrow>
      i \<in> managed_ids s \<and>
      (\<exists>t. md_tables (metadata s) (db_table b) = Some t \<and> tm_name t = db_table b \<and>
        (\<forall>col. db_column b = Some col \<longrightarrow> (\<exists>m. tm_columns t col = Some m \<and> cm_name m = col))))
    \<and> md_tables (metadata s) metadata_table = None"
proof (intro conjI allI impI)
  have inv: "worker_inv s" by (rule worker_task_facts(1)[OF assms])
  then show "md_tables (metadata s) metadata_table = None"
    by (simp add: worker_inv_def schema_ok_def)
  fix i b
  assume b: "md_bindings (metadata s) i = Some b"
  then show "i \<in> managed_ids s" using inv by (auto simp: worker_inv_def)
  have "binding_ok (md_tables (metadata s)) b" using b inv by (auto simp: worker_inv_def bindings_ok_def)
  then obtain t where t: "md_tables (metadata s) (db_table b) = Some t"
    "\<And>col. db_column b = Some col \<Longrightarrow> tm_columns t col \<noteq> None"
    by (auto simp: binding_ok_def split: option.splits)
  moreover have "schema_ok (md_tables (metadata s))" using inv by (simp add: worker_inv_def)
  ultimately show "\<exists>t. md_tables (metadata s) (db_table b) = Some t \<and> tm_name t = db_table b \<and>
        (\<forall>col. db_column b = Some col \<longrightarrow> (\<exists>m. tm_columns t col = Some m \<and> cm_name m = col))"
    by (fastforce dest: schema_ok_name schema_ok_column)
qed

text \<open>
  A database in memory, for the instances below: it stores the metadata rows, logs the statements
  and has one table \<open>t\<close> with one column \<open>x\<close>. Its JSON values are the metadata themselves.
\<close>

datatype mem_row = MetaRow db_metadata | InfoRow "(string \<times> string) list"

fun mem_row_text :: "mem_row \<Rightarrow> string \<Rightarrow> string" where
  "mem_row_text (InfoRow kv) k = (case map_of kv k of None \<Rightarrow> [] | Some v \<Rightarrow> v)"
| "mem_row_text (MetaRow _) k = []"

fun mem_row_json :: "mem_row \<Rightarrow> nat \<Rightarrow> db_metadata" where
  "mem_row_json (MetaRow v) _ = v"
| "mem_row_json (InfoRow _) _ = db_metadata_new []"

record mem_db =
  mem_rows :: "string \<rightharpoonup> db_metadata"
  mem_log :: "string list"

fun mem_execute :: "string \<Rightarrow> db_metadata sql_param list \<Rightarrow> mem_db \<Rightarrow> (db_error, u64) result \<times> mem_db" where
  "mem_execute sql [PText name, PJson v] w =
     (if sql = persist_metadata_sql
      then (Ok 1, w\<lparr>mem_rows := (mem_rows w)(name \<mapsto> v), mem_log := sql # mem_log w\<rparr>)
      else (Ok 0, w\<lparr>mem_log := sql # mem_log w\<rparr>))"
| "mem_execute sql params w = (Ok 0, w\<lparr>mem_log := sql # mem_log w\<rparr>)"

definition mem_column_x :: mem_row where
  "mem_column_x = InfoRow [(''column_name'', ''x''), (''is_nullable'', ''YES''), (''data_type'', ''double precision'')]"

fun mem_query :: "string \<Rightarrow> db_metadata sql_param list \<Rightarrow> mem_db \<Rightarrow> (db_error, mem_row list) result \<times> mem_db" where
  "mem_query sql [] w = (Ok (if sql = tables_sql then [InfoRow [(''table_name'', ''t'')]] else []), w)"
| "mem_query sql [PText name] w =
     (Ok (if sql = load_metadata_sql then (case mem_rows w name of None \<Rightarrow> [] | Some v \<Rightarrow> [MetaRow v])
          else if sql = columns_sql \<and> name = ''t'' then [mem_column_x] else []), w)"
| "mem_query sql params w = (Ok [], w)"

definition mem_client :: "(db_metadata, mem_row, mem_db) pg_client" where
  "mem_client =
     \<lparr>pg_execute = mem_execute, pg_query = mem_query, row_text = mem_row_text, row_text_opt = \<lambda>_ _. None,
      row_json = mem_row_json, md_to_value = Ok, md_from_value = Ok\<rparr>"

definition mem_empty :: mem_db where
  "mem_empty = \<lparr>mem_rows = Map.empty, mem_log = []\<rparr>"

definition demo_binding :: data_binding where
  "demo_binding = \<lparr>db_data_id = ''p'', db_table = ''t'', db_column = Some ''x''\<rparr>"

definition demo_table :: table_meta where
  "demo_table = \<lparr>tm_name = ''t'', tm_columns = [''x'' \<mapsto> column_meta_from (column_def_new ''x'' Float8)]\<rparr>"

definition demo_schema :: db_metadata where
  "demo_schema = \<lparr>md_db_name = ''d'', md_tables = [''t'' \<mapsto> demo_table], md_bindings = Map.empty\<rparr>"

definition demo_metadata :: db_metadata where
  "demo_metadata = demo_schema\<lparr>md_bindings := [''p'' \<mapsto> demo_binding]\<rparr>"

lemma mem_client_simps [simp]:
  "pg_execute mem_client = mem_execute" "pg_query mem_client = mem_query"
  "md_to_value mem_client = Ok" "md_from_value mem_client = Ok" "row_json mem_client = mem_row_json"
  "row_text mem_client = mem_row_text" "row_text_opt mem_client = (\<lambda>_ _. None)"
  by (simp_all add: mem_client_def)

lemma mem_persist [simp]:
  "persist_metadata mem_client md w = (Ok (), w\<lparr>mem_rows := (mem_rows w)(md_db_name md \<mapsto> md),
     mem_log := persist_metadata_sql # mem_log w\<rparr>)"
  by (simp add: persist_metadata_def)

lemma sql_distinct [simp]:
  "primary_key_sql \<noteq> load_metadata_sql" "columns_sql \<noteq> load_metadata_sql" "primary_key_sql \<noteq> columns_sql"
  by (simp_all add: primary_key_sql_def load_metadata_sql_def columns_sql_def sql_lines_def)

lemma mem_introspect: "introspect_schema mem_client w = (Ok [''t'' \<mapsto> demo_table], w)"
  by (simp add: introspect_schema_def mem_column_x_def metadata_table_def columns_of_rows_def
      column_meta_of_row_def from_information_schema_def demo_table_def column_meta_from_def
      column_def_new_def Let_def to_ascii_lowercase_def to_ascii_uppercase_def ascii_defs fun_eq_iff)

lemma mem_bootstrap:
  assumes "case mem_rows w ''d'' of None \<Rightarrow> md = demo_schema | Some p \<Rightarrow> md = demo_schema\<lparr>md_bindings := md_bindings p\<rparr>"
    and "bindings_ok md"
  shows "\<exists>w'. bootstrap mem_client ''d'' (worker_init ''d'') w = (Ok (), managed_follow md, w')"
proof -
  have eq: "(case mem_rows w ''d'' of None \<Rightarrow> (db_metadata_new ''d'')\<lparr>md_tables := [''t'' \<mapsto> demo_table]\<rparr>
      | Some p \<Rightarrow> (db_metadata_new ''d'')\<lparr>md_tables := [''t'' \<mapsto> demo_table], md_bindings := md_bindings p\<rparr>) = md"
    using assms(1) by (simp add: demo_schema_def db_metadata_new_def split: option.splits)
  show ?thesis
    using eq prune_id[OF assms(2)]
    by (auto simp: bootstrap_def ensure_metadata_table_def load_persisted_metadata_def mem_introspect Let_def
        split: option.splits)
qed

lemma valid_ident_code [simp]:
  "valid_ident ''t''" "valid_ident ''x''" "valid_ident ''y''"
  by (simp_all add: valid_ident_def ident_char_def is_ascii_alphanumeric_def is_ascii_alphabetic_def
      ascii_defs)

lemma demo_bindings_ok [simp]: "bindings_ok demo_schema" "bindings_ok demo_metadata"
  by (simp_all add: bindings_ok_def demo_metadata_def demo_schema_def binding_ok_def demo_binding_def
      demo_table_def)

lemma demo_register:
  "\<exists>w'. handle_register_binding mem_client demo_binding (managed_follow demo_schema) w =
    (Ok (), managed_follow demo_metadata, w')"
proof -
  have "demo_schema\<lparr>md_bindings := [''p'' \<mapsto> demo_binding]\<rparr> = demo_metadata" "md_bindings demo_schema = Map.empty"
    by (simp_all add: demo_metadata_def demo_schema_def)
  then show ?thesis
    using prune_id[OF demo_bindings_ok(2)]
    by (simp add: handle_register_binding_def demo_binding_def validate_ident_cases Let_def
        del: validate_ident.simps)
qed

lemma demo_boot: "\<exists>w'. bootstrap mem_client ''d'' (worker_init ''d'') mem_empty = (Ok (), managed_follow demo_schema, w')"
  by (rule mem_bootstrap) (simp_all add: mem_empty_def)

lemma demo_run:
  "\<exists>w'. worker_task mem_client ''d'' [RegisterBinding demo_binding] mem_empty =
    ([RUnit (Ok ())], managed_follow demo_metadata, w')"
proof -
  obtain w1 where boot: "bootstrap mem_client ''d'' (worker_init ''d'') mem_empty =
      (Ok (), managed_follow demo_schema, w1)"
    using demo_boot by blast
  obtain w2 where "handle_register_binding mem_client demo_binding (managed_follow demo_schema) w1 =
      (Ok (), managed_follow demo_metadata, w2)"
    using demo_register by blast
  with boot show ?thesis by (simp add: worker_task_def)
qed

theorem worker_bindings_resolve_witness:
  "\<exists>w'. worker_task mem_client ''d'' [RegisterBinding demo_binding] mem_empty =
      ([RUnit (Ok ())], managed_follow demo_metadata, w') \<and>
    md_bindings demo_metadata ''p'' = Some demo_binding \<and> ''p'' \<in> managed_ids (managed_follow demo_metadata) \<and>
    md_tables demo_metadata metadata_table = None"
proof -
  obtain w' where run: "worker_task mem_client ''d'' [RegisterBinding demo_binding] mem_empty =
      ([RUnit (Ok ())], managed_follow demo_metadata, w')"
    using demo_run by blast
  have "md_bindings demo_metadata ''p'' = Some demo_binding" by (simp add: demo_metadata_def)
  with worker_bindings_resolve[OF run] run show ?thesis by simp
qed

section \<open>Managed ids\<close>

fun run_keeps_exact :: "('j, 'r, 'w) pg_client \<Rightarrow> 'j db_command list \<Rightarrow> worker_state \<Rightarrow> 'w \<Rightarrow> bool" where
  "run_keeps_exact c [] s w \<longleftrightarrow> True"
| "run_keeps_exact c (cmd # cmds) s w \<longleftrightarrow>
     keeps_exact s cmd \<and> (case handle_command c cmd s w of (_, s1, w1) \<Rightarrow> run_keeps_exact c cmds s1 w1)"

lemma worker_run_exact:
  "worker_run c cmds s w = (rs, s', w') \<Longrightarrow> worker_inv s \<Longrightarrow> managed_exact s \<Longrightarrow>
     run_keeps_exact c cmds s w \<Longrightarrow> managed_exact s'"
proof (induction cmds arbitrary: s w rs)
  case (Cons cmd cmds)
  obtain r s1 w1 where step: "handle_command c cmd s w = (r, s1, w1)" by (cases "handle_command c cmd s w")
  obtain rs2 s2 w2 where rest: "worker_run c cmds s1 w1 = (rs2, s2, w2)" by (cases "worker_run c cmds s1 w1")
  have "managed_exact s1" using Cons.prems step by (auto intro: handle_command_exact)
  then show ?case
    using Cons.IH[of s1 w1 rs2] Cons.prems step rest handle_command_inv[OF step] by simp
qed simp

lemma bootstrap_exact:
  "bootstrap c name s w = (res, s', w') \<Longrightarrow> managed_exact s \<Longrightarrow> managed_exact s'"
  by (auto simp: bootstrap_def Let_def split: prod.splits sum.splits option.splits)

text \<open>
  C33. As long as no id is added without a binding and no table is created over a name the metadata
  already has, the managed ids are exactly the bound ids, after bootstrap and after every command.
\<close>

theorem managed_ids_are_bound_ids:
  assumes "bootstrap c name (worker_init name) w = (res, s1, w1)"
    and "worker_run c cmds s1 w1 = (rs, s, w')" and "run_keeps_exact c cmds s1 w1"
  shows "managed_ids s = dom (md_bindings (metadata s))"
proof -
  have "managed_exact (worker_init name)"
    by (simp add: managed_exact_def worker_init_def db_metadata_new_def)
  then have "managed_exact s1" by (rule bootstrap_exact[OF assms(1)])
  then have "managed_exact s"
    using worker_run_exact[OF assms(2)] bootstrap_inv[OF assms(1)] assms(3) by simp
  then show ?thesis by (simp add: managed_exact_def)
qed

theorem managed_ids_are_bound_ids_witness:
  "\<exists>w1 rs s w'. bootstrap mem_client ''d'' (worker_init ''d'') mem_empty = (Ok (), managed_follow demo_schema, w1) \<and>
    worker_run mem_client [RegisterBinding demo_binding, CreateTable ''y'' [column_def_new ''x'' Float8]]
      (managed_follow demo_schema) w1 = (rs, s, w') \<and> managed_ids s = dom (md_bindings (metadata s))"
proof -
  obtain w1 where boot: "bootstrap mem_client ''d'' (worker_init ''d'') mem_empty =
      (Ok (), managed_follow demo_schema, w1)"
    using demo_boot by blast
  obtain w2 where reg: "handle_register_binding mem_client demo_binding (managed_follow demo_schema) w1 =
      (Ok (), managed_follow demo_metadata, w2)"
    using demo_register by blast
  let ?cmds = "[RegisterBinding demo_binding, CreateTable ''y'' [column_def_new ''x'' Float8]]"
  obtain rs s w' where run: "worker_run mem_client ?cmds (managed_follow demo_schema) w1 = (rs, s, w')"
    by (cases "worker_run mem_client ?cmds (managed_follow demo_schema) w1")
  have "run_keeps_exact mem_client ?cmds (managed_follow demo_schema) w1"
    using reg by (simp add: demo_metadata_def demo_schema_def split: prod.splits)
  then have "managed_ids s = dom (md_bindings (metadata s))"
    by (rule managed_ids_are_bound_ids[OF boot run])
  with boot run show ?thesis by blast
qed

text \<open>
  Creating a table over a name the metadata already has leaves a managed id behind whose binding
  it pruned: from a state whose managed ids are exactly the bound ones, \<open>CreateTable\<close> answers \<open>Ok\<close>
  and the id \<open>p\<close> is managed without a binding.
\<close>

theorem create_table_leaves_stale_id:
  "\<exists>s' w'. managed_exact (managed_follow demo_metadata) \<and> worker_inv (managed_follow demo_metadata) \<and>
    handle_command mem_client (CreateTable ''t'' [column_def_new ''y'' Float8]) (managed_follow demo_metadata) mem_empty
      = (RUnit (Ok ()), s', w') \<and>
    ''p'' \<in> managed_ids s' \<and> md_bindings (metadata s') ''p'' = None"
proof -
  obtain w1 where run: "worker_task mem_client ''d'' [RegisterBinding demo_binding] mem_empty =
      ([RUnit (Ok ())], managed_follow demo_metadata, w1)"
    using demo_run by blast
  have "worker_inv (managed_follow demo_metadata)" by (rule worker_task_facts(1)[OF run])
  moreover have "\<exists>s' w'. handle_create_table mem_client ''t'' [column_def_new ''y'' Float8]
      (managed_follow demo_metadata) mem_empty = (Ok (), s', w') \<and>
      ''p'' \<in> managed_ids s' \<and> md_bindings (metadata s') ''p'' = None"
    by (auto simp: handle_create_table_def validate_ident_cases join_columns_cases column_def_new_def Let_def
        metadata_table_def managed_follow_def columns_of_defs_def prune_bindings_def binding_ok_def
        demo_metadata_def demo_binding_def)
  ultimately show ?thesis by auto
qed

text \<open>
  A binding to a table or a column the schema does not have is answered as the write of the
  metadata was, \<open>Ok\<close> included, but it is pruned at once: afterwards its id is neither bound nor
  managed, and an earlier binding of that id is gone.
\<close>

theorem unresolved_binding_is_dropped:
  assumes "handle_command c (RegisterBinding b) s w = (RUnit res, s', w')"
    and "valid_ident (db_table b)" "\<And>col. db_column b = Some col \<Longrightarrow> valid_ident col"
    and "\<not> binding_ok (md_tables (metadata s)) b"
  shows "res = fst (persist_metadata c (metadata s') w) \<and>
    md_bindings (metadata s') (db_data_id b) = None \<and> db_data_id b \<notin> managed_ids s'"
proof -
  let ?md = "prune_bindings ((metadata s)\<lparr>md_bindings := (md_bindings (metadata s))(db_data_id b \<mapsto> b)\<rparr>)"
  have col: "(case db_column b of None \<Rightarrow> Ok () | Some col \<Rightarrow> validate_ident col) = Ok ()"
    using assms(3) by (simp add: validate_ident_cases split: option.splits)
  have "res = fst (persist_metadata c ?md w)" "s' = managed_follow ?md"
    using assms(1,2) col
    by (auto simp: handle_register_binding_def validate_ident_cases Let_def simp del: validate_ident.simps
        split: prod.splits)
  moreover have "md_bindings ?md (db_data_id b) = None"
    using assms(4) by (simp add: prune_bindings_def)
  ultimately show ?thesis by (simp add: domIff)
qed

definition lost_binding :: data_binding where
  "lost_binding = \<lparr>db_data_id = ''p'', db_table = ''y'', db_column = None\<rparr>"

theorem unresolved_binding_is_dropped_witness:
  "\<exists>s' w'. handle_command mem_client (RegisterBinding lost_binding) (managed_follow demo_metadata) mem_empty
      = (RUnit (Ok ()), s', w') \<and>
    md_bindings demo_metadata ''p'' = Some demo_binding \<and> md_bindings (metadata s') ''p'' = None \<and>
    ''p'' \<notin> managed_ids s'"
proof -
  obtain res s' w' where run: "handle_command mem_client (RegisterBinding lost_binding)
      (managed_follow demo_metadata) mem_empty = (RUnit res, s', w')"
    by (cases "handle_register_binding mem_client lost_binding (managed_follow demo_metadata) mem_empty") simp
  have "res = fst (persist_metadata mem_client (metadata s') mem_empty) \<and>
    md_bindings (metadata s') (db_data_id lost_binding) = None \<and> db_data_id lost_binding \<notin> managed_ids s'"
    by (rule unresolved_binding_is_dropped[OF run])
      (simp_all add: lost_binding_def binding_ok_def demo_metadata_def demo_schema_def)
  with run show ?thesis by (simp add: lost_binding_def demo_metadata_def)
qed

section \<open>Durability and restart\<close>

text \<open>
  What is relied on of the database and of \<open>serde\<close>: \<open>stored w name\<close> is the metadata row of \<open>name\<close>;
  the upsert writes it, the \<open>CREATE TABLE IF NOT EXISTS\<close> keeps it, the select returns it, and a
  serialised metadata value deserialises to itself.
\<close>

definition upsert_stores :: "('j, 'r, 'w) pg_client \<Rightarrow> ('w \<Rightarrow> string \<Rightarrow> 'j option) \<Rightarrow> bool" where
  "upsert_stores c stored \<longleftrightarrow>
     (\<forall>name v w n w'. pg_execute c persist_metadata_sql [PText name, PJson v] w = (Ok n, w') \<longrightarrow>
        stored w' name = Some v)"

definition select_returns :: "('j, 'r, 'w) pg_client \<Rightarrow> ('w \<Rightarrow> string \<Rightarrow> 'j option) \<Rightarrow> bool" where
  "select_returns c stored \<longleftrightarrow>
     (\<forall>w n w'. pg_execute c ensure_metadata_sql [] w = (Ok n, w') \<longrightarrow> stored w' = stored w) \<and>
     (\<forall>name w rows w'. pg_query c load_metadata_sql [PText name] w = (Ok rows, w') \<longrightarrow>
        map (\<lambda>r. row_json c r 0) rows = (case stored w name of None \<Rightarrow> [] | Some v \<Rightarrow> [v])) \<and>
     (\<forall>md v. md_to_value c md = Ok v \<longrightarrow> md_from_value c v = Ok md)"

lemma load_after_upsert:
  assumes "select_returns c stored" and "stored w name = Some v" and "md_to_value c md = Ok v"
    and "ensure_metadata_table c w = (Ok (), w1)" and "load_persisted_metadata c name w1 = (Ok p, w2)"
  shows "p = Some md"
proof -
  have st: "stored w1 name = Some v"
    using assms(1,2,4) by (auto simp: select_returns_def ensure_metadata_table_def split: prod.splits sum.splits)
  have js: "md_from_value c v = Ok md" using assms(1,3) by (simp add: select_returns_def)
  obtain rows where q: "pg_query c load_metadata_sql [PText name] w1 = (Ok rows, w2)"
    using assms(5) by (auto simp: load_persisted_metadata_def split: prod.splits sum.splits list.splits)
  then have "map (\<lambda>r. row_json c r 0) rows = [v]" using assms(1) st by (fastforce simp: select_returns_def)
  then show ?thesis
    using assms(5) q js
    by (auto simp: load_persisted_metadata_def split: list.splits)
qed

lemma persisted_after:
  assumes "worker_task c name cmds w0 = (rs, s, w)"
    and "handle_command c cmd s w = (RUnit (Ok ()), s', w')" and "\<And>i. cmd \<noteq> AddManagedId i"
    and "upsert_stores c stored"
  shows "\<exists>v. md_to_value c (metadata s') = Ok v \<and> stored w' name = Some v"
proof -
  have name: "md_db_name (metadata s') = name"
    using handle_command_name[OF assms(2)] worker_task_facts(2)[OF assms(1)] by simp
  have "\<exists>w1. persist_metadata c (metadata s') w1 = (Ok (), w')"
    using assms(2,3)
    by (cases cmd) (auto simp: handler_defs Let_def split: prod.splits sum.splits if_splits)
  then obtain w1 where "persist_metadata c (metadata s') w1 = (Ok (), w')" by blast
  from persist_metadata_world[OF this] obtain v n where "md_to_value c (metadata s') = Ok v"
    "pg_execute c persist_metadata_sql [PText (md_db_name (metadata s')), PJson v] w1 = (Ok n, w')"
    by blast
  with assms(4) name show ?thesis by (auto simp: upsert_stores_def)
qed

text \<open>
  C11. A command that changes the metadata and is answered \<open>Ok\<close> is durable: the database then holds
  exactly the metadata the actor has in memory.
\<close>

theorem acknowledged_command_is_durable:
  assumes "worker_task c name cmds w0 = (rs, s, w)"
    and "handle_command c cmd s w = (RUnit (Ok ()), s', w')" and "\<And>i. cmd \<noteq> AddManagedId i"
    and "upsert_stores c stored"
  shows "\<exists>v. md_to_value c (metadata s') = Ok v \<and> stored w' name = Some v"
  using assms by (rule persisted_after)

definition mem_stored :: "mem_db \<Rightarrow> string \<Rightarrow> db_metadata option" where
  "mem_stored w = mem_rows w"

lemma mem_upsert_stores: "upsert_stores mem_client mem_stored"
  by (auto simp: upsert_stores_def mem_stored_def)

lemma mem_select_returns: "select_returns mem_client mem_stored"
  by (auto simp: select_returns_def mem_stored_def split: option.splits)

lemma demo_start: "\<exists>w. worker_task mem_client ''d'' [] mem_empty = ([], managed_follow demo_schema, w)"
  using demo_boot by (auto simp: worker_task_def)

lemma demo_step:
  "\<exists>w'. handle_command mem_client (RegisterBinding demo_binding) (managed_follow demo_schema) w =
    (RUnit (Ok ()), managed_follow demo_metadata, w')"
  using demo_register[of w] by auto

theorem acknowledged_command_is_durable_witness:
  "\<exists>w w'. handle_command mem_client (RegisterBinding demo_binding) (managed_follow demo_schema) w =
      (RUnit (Ok ()), managed_follow demo_metadata, w') \<and> mem_stored w' ''d'' = Some demo_metadata"
proof -
  obtain w where start: "worker_task mem_client ''d'' [] mem_empty = ([], managed_follow demo_schema, w)"
    using demo_start by blast
  obtain w' where step: "handle_command mem_client (RegisterBinding demo_binding) (managed_follow demo_schema) w =
    (RUnit (Ok ()), managed_follow demo_metadata, w')"
    using demo_step by blast
  from acknowledged_command_is_durable[OF start step _ mem_upsert_stores] step
  show ?thesis by auto
qed

text \<open>
  C6. A restart recovers an acknowledged change: a new actor that bootstraps on the database an
  acknowledged command left holds the same bindings, less those the introspected schema no longer
  resolves, and manages exactly them; if the schema is unchanged its state is the old metadata.
\<close>

theorem restart_restores_bindings:
  assumes task: "worker_task c name cmds w0 = (rs, s, w)"
    and step: "handle_command c cmd s w = (RUnit (Ok ()), s', w')" "\<And>i. cmd \<noteq> AddManagedId i"
    and client: "upsert_stores c stored" "select_returns c stored"
    and boot: "bootstrap c name (worker_init name) w' = (Ok (), s2, w2)"
  shows "md_bindings (metadata s2) = map_retain (\<lambda>_. binding_ok (md_tables (metadata s2))) (md_bindings (metadata s'))
    \<and> managed_ids s2 = dom (md_bindings (metadata s2))
    \<and> (md_tables (metadata s2) = md_tables (metadata s') \<longrightarrow> metadata s2 = metadata s')"
proof -
  obtain v where v: "md_to_value c (metadata s') = Ok v" "stored w' name = Some v"
    using persisted_after[OF task step client(1)] by blast
  obtain w1 p w3 tables w4 where b: "ensure_metadata_table c w' = (Ok (), w1)"
    "load_persisted_metadata c name w1 = (Ok p, w3)" "introspect_schema c w3 = (Ok tables, w4)"
    using boot by (auto simp: bootstrap_def Let_def split: prod.splits sum.splits)
  have p: "p = Some (metadata s')"
    by (rule load_after_upsert[OF client(2) v(2,1) b(1,2)])
  have s2: "s2 = managed_follow (prune_bindings \<lparr>md_db_name = name, md_tables = tables, md_bindings = md_bindings (metadata s')\<rparr>)"
    using boot b p by (auto simp: bootstrap_def Let_def db_metadata_new_def split: prod.splits)
  have name: "md_db_name (metadata s') = name" and inv: "worker_inv s'"
    using handle_command_name[OF step(1)] worker_task_facts[OF task] handle_command_inv[OF step(1)] by auto
  have "metadata s2 = metadata s'" if "md_tables (metadata s2) = md_tables (metadata s')"
  proof -
    have "tables = md_tables (metadata s')" using that s2 by simp
    then have "\<lparr>md_db_name = name, md_tables = tables, md_bindings = md_bindings (metadata s')\<rparr> = metadata s'"
      using name by simp
    then show ?thesis using s2 inv prune_id by (simp add: worker_inv_def)
  qed
  then show ?thesis using s2 by (simp add: prune_bindings_def)
qed

theorem restart_restores_bindings_witness:
  "\<exists>w' s2 w2. bootstrap mem_client ''d'' (worker_init ''d'') w' = (Ok (), s2, w2) \<and>
    mem_stored w' ''d'' = Some demo_metadata \<and> md_tables (metadata s2) = md_tables demo_metadata \<and>
    metadata s2 = demo_metadata"
proof -
  obtain w where start: "worker_task mem_client ''d'' [] mem_empty = ([], managed_follow demo_schema, w)"
    using demo_start by blast
  obtain w' where step: "handle_command mem_client (RegisterBinding demo_binding) (managed_follow demo_schema) w =
    (RUnit (Ok ()), managed_follow demo_metadata, w')"
    using demo_step by blast
  have row: "mem_stored w' ''d'' = Some demo_metadata"
    using persisted_after[OF start step _ mem_upsert_stores] by auto
  then have "\<exists>w2. bootstrap mem_client ''d'' (worker_init ''d'') w' = (Ok (), managed_follow demo_metadata, w2)"
    using demo_bindings_ok(2) by (intro mem_bootstrap) (simp_all add: mem_stored_def demo_metadata_def)
  then obtain s2 w2 where boot: "bootstrap mem_client ''d'' (worker_init ''d'') w' = (Ok (), s2, w2)"
    and tables: "md_tables (metadata s2) = md_tables (metadata (managed_follow demo_metadata))"
    by auto
  have "metadata s2 = demo_metadata"
    using restart_restores_bindings[OF start step _ mem_upsert_stores mem_select_returns boot] tables by simp
  with boot row tables show ?thesis
    by (intro exI[of _ w'] exI[of _ s2] exI[of _ w2]) simp
qed

section \<open>What reaches the database as SQL text\<close>

text \<open>
  The first name a command would put into SQL text or into the schema that its handler refuses, in
  the order the handler checks them; the metadata table is refused by its exact name.
\<close>

definition first_invalid :: "string list \<Rightarrow> string option" where
  "first_invalid names = List.find (\<lambda>n. \<not> valid_ident n) names"

definition or_metadata :: "string option \<Rightarrow> string \<Rightarrow> string option" where
  "or_metadata bad table =
     (case bad of Some x \<Rightarrow> Some x | None \<Rightarrow> if table = metadata_table then Some table else None)"

fun refused_name :: "'j db_command \<Rightarrow> string option" where
  "refused_name (RegisterBinding b) =
     first_invalid (db_table b # (case db_column b of None \<Rightarrow> [] | Some col \<Rightarrow> [col]))"
| "refused_name (CreateTable t cs) =
     (case or_metadata (first_invalid [t]) t of Some x \<Rightarrow> Some x | None \<Rightarrow> first_invalid (map cd_name cs))"
| "refused_name (DropTable t) = or_metadata (first_invalid [t]) t"
| "refused_name (AddColumn t col) = or_metadata (first_invalid [t, cd_name col]) t"
| "refused_name (DropColumn t col) = or_metadata (first_invalid [t, col]) t"
| "refused_name (InsertRow t vs) = first_invalid (t # map fst vs)"
| "refused_name (InsertRowNoAck t vs) = first_invalid (t # map fst vs)"
| "refused_name _ = None"

fun refusal :: "'j db_command \<Rightarrow> db_error \<Rightarrow> 'r reply" where
  "refusal (InsertRow t vs) e = RCount (Err e)"
| "refusal (InsertRowNoAck t vs) e = Logged (Err e)"
| "refusal _ e = RUnit (Err e)"

lemma first_invalid_simps [simp]:
  "first_invalid [] = None"
  "first_invalid (n # ns) = (if valid_ident n then first_invalid ns else Some n)"
  by (simp_all add: first_invalid_def)

lemma first_invalid_hd:
  "first_invalid (map f xs) =
     (if \<forall>x \<in> set xs. valid_ident (f x) then None else Some (f (hd (filter (\<lambda>x. \<not> valid_ident (f x)) xs))))"
  by (induction xs) auto

definition insert_part :: "nat \<Rightarrow> string \<times> 'j sql_param \<Rightarrow> string \<times> string \<times> 'j sql_param" where
  "insert_part k p = (fst p, CHR ''$'' # nat_str (k + 1), snd p)"

lemma insert_parts_cases:
  "insert_parts i vals =
     (if \<forall>v \<in> set vals. valid_ident (fst v) then Ok (map2 insert_part [i..<i + length vals] vals)
      else Err (InvalidIdentifier (fst (hd (filter (\<lambda>v. \<not> valid_ident (fst v)) vals)))))"
proof (induction vals arbitrary: i)
  case (Cons p vals)
  obtain col v where p: "p = (col, v)" by fastforce
  have "[i..<i + length (p # vals)] = i # [Suc i..<Suc i + length vals]" by (simp add: upt_rec)
  then show ?case
    using Cons.IH[of "Suc i"]
    by (auto simp: p insert_part_def validate_ident_cases simp del: validate_ident.simps upt_Suc)
qed simp

text \<open>
  C30. A command with a name that is not a plain identifier, or with the metadata table by its exact
  name where that is guarded, changes nothing: the answer names the first offending name, no
  statement is sent and the state is the old one.
\<close>

theorem bad_names_are_refused:
  assumes "refused_name cmd = Some x"
  shows "handle_command c cmd s w = (refusal cmd (InvalidIdentifier x), s, w)"
  using assms
  by (cases cmd)
    (auto simp: handler_defs handle_insert_row_def handle_insert_row_no_ack_def validate_ident_cases
      join_columns_cases insert_parts_cases or_metadata_def first_invalid_hd Let_def
      simp del: validate_ident.simps split: option.splits if_splits)

theorem bad_names_are_refused_witness:
  "handle_command mem_client (DropTable ''t; DROP'') (worker_init ''d'') mem_empty =
     (RUnit (Err (InvalidIdentifier ''t; DROP'')), worker_init ''d'', mem_empty)"
  using bad_names_are_refused[of "DropTable ''t; DROP''" "''t; DROP''" mem_client "worker_init ''d''" mem_empty]
  by (simp add: or_metadata_def valid_ident_def ident_char_def is_ascii_alphanumeric_def is_ascii_alphabetic_def
      ascii_defs)

definition insert_text :: "string \<Rightarrow> string list \<Rightarrow> string" where
  "insert_text table cols =
     ''INSERT INTO '' @ table @ '' ('' @ join '', '' cols @ '') VALUES (''
     @ join '', '' (map (\<lambda>k. CHR ''$'' # nat_str (k + 1)) [0..<length cols]) @ '')''"

lemma insert_part_lists:
  assumes "length ks = length vals"
  shows "map fst (map2 insert_part ks vals) = map fst vals"
    "map (fst \<circ> snd) (map2 insert_part ks vals) = map (\<lambda>k. CHR ''$'' # nat_str (k + 1)) ks"
    "map (snd \<circ> snd) (map2 insert_part ks vals) = map snd vals"
  using assms by (induction ks vals rule: list_induct2) (auto simp: insert_part_def)

lemma insert_sql_text: "insert_sql t (map2 insert_part [0..<length vals] vals) = insert_text t (map fst vals)"
  by (simp only: insert_sql_def insert_text_def insert_part_lists length_upt length_map minus_nat.diff_0)

lemma insert_text_chars:
  assumes "valid_ident t" and "\<And>col. col \<in> set cols \<Longrightarrow> valid_ident col"
  shows "set (insert_text t cols) \<subseteq> Collect ident_char \<union> set '' (),$''"
proof -
  have ident: "set n \<subseteq> Collect ident_char" if "valid_ident n" for n
    using that by (auto simp: valid_ident_def list_all_iff)
  have digit: "set (nat_str n) \<subseteq> Collect ident_char" for n
    using nat_str_digits[of n] by (auto simp: ident_char_def is_ascii_alphanumeric_def)
  have "set (join '', '' cols) \<subseteq> Collect ident_char \<union> set '' (),$''"
    using set_join[of "'', ''" cols] ident[OF assms(2)] by fastforce
  moreover have "set (join '', '' (map (\<lambda>k. CHR ''$'' # nat_str (k + 1)) [0..<length cols]))
      \<subseteq> Collect ident_char \<union> set '' (),$''"
    using set_join[of "'', ''" "map (\<lambda>k. CHR ''$'' # nat_str (k + 1)) [0..<length cols]"] digit by fastforce
  moreover have "set ''INSERT INTO '' \<subseteq> Collect ident_char \<union> set '' (),$''"
    "set '') VALUES ('' \<subseteq> Collect ident_char \<union> set '' (),$''"
    by (simp_all add: ident_char_def is_ascii_alphanumeric_def is_ascii_alphabetic_def ascii_defs)
  ultimately show ?thesis using ident[OF assms(1)] unfolding insert_text_def by auto
qed

text \<open>
  C29. An insert with plain identifiers sends one statement whose text is fixed by the table and
  column names alone: the values only travel as parameters, the \<open>i\<close>-th placeholder is \<open>$i\<close> and
  stands for the \<open>i\<close>-th value, and the text has no character beyond those of identifiers and the
  punctuation of the statement.
\<close>

theorem insert_sends_parameters:
  assumes "valid_ident t" and "vals \<noteq> []" and "list_all (\<lambda>v. valid_ident (fst v)) vals"
  shows "handle_insert_row c t vals w = pg_execute c (insert_text t (map fst vals)) (map snd vals) w
    \<and> handle_insert_row_no_ack c t vals w =
        (case pg_execute c (insert_text t (map fst vals)) (map snd vals) w of
           (res, w') \<Rightarrow> (case res of Inl e \<Rightarrow> (Err e, w') | Inr _ \<Rightarrow> (Ok (), w')))
    \<and> set (insert_text t (map fst vals)) \<subseteq> Collect ident_char \<union> set '' (),$''"
proof (intro conjI)
  have parts: "insert_parts 0 vals = Ok (map2 insert_part [0..<length vals] vals)"
    using assms(3) by (simp add: insert_parts_cases list_all_iff)
  have params: "map (snd \<circ> snd) (map2 insert_part [0..<length vals] vals) = map snd vals"
    by (rule insert_part_lists(3)) simp
  have run: "validate_ident t = Ok ()" using assms(1) by (simp add: validate_ident_cases del: validate_ident.simps)
  show "handle_insert_row c t vals w = pg_execute c (insert_text t (map fst vals)) (map snd vals) w"
    using assms(2) by (simp only: handle_insert_row_def run parts params insert_sql_text sum.case if_False)
  show "handle_insert_row_no_ack c t vals w =
        (case pg_execute c (insert_text t (map fst vals)) (map snd vals) w of
           (res, w') \<Rightarrow> (case res of Inl e \<Rightarrow> (Err e, w') | Inr _ \<Rightarrow> (Ok (), w')))"
    using assms(2)
    by (simp only: handle_insert_row_no_ack_def run parts params insert_sql_text sum.case if_False
        split: prod.splits)
  show "set (insert_text t (map fst vals)) \<subseteq> Collect ident_char \<union> set '' (),$''"
    using assms by (intro insert_text_chars) (auto simp: list_all_iff)
qed

theorem insert_sends_parameters_witness:
  "handle_insert_row mem_client ''t'' [(''x'', PText ''1); --''), (''y'', PBool True)] mem_empty =
    mem_execute ''INSERT INTO t (x, y) VALUES ($1, $2)'' [PText ''1); --'', PBool True] mem_empty"
proof -
  have "insert_text ''t'' [''x'', ''y''] = ''INSERT INTO t (x, y) VALUES ($1, $2)''"
    by (simp add: insert_text_def nat_str.simps char_of_def upt_rec bit_0)
  then show ?thesis
    using insert_sends_parameters[of "''t''" "[(''x'', PText ''1); --''), (''y'', PBool True)]" mem_client mem_empty]
    by (simp del: mem_execute.simps)
qed

text \<open>
  The guard of the metadata table compares the exact name: \<open>dt_metadata\<close> is refused, but
  \<open>DT_METADATA\<close>, which Postgres folds to the same table, is not, and the statement that drops it is
  sent as it stands.
\<close>

theorem metadata_guard_is_case_sensitive:
  "handle_command c (DropTable ''dt_metadata'') s w = (RUnit (Err (InvalidIdentifier ''dt_metadata'')), s, w)
   \<and> (\<exists>r s'. handle_command mem_client (DropTable ''DT_METADATA'') (worker_init ''d'') mem_empty =
        (r, s', \<lparr>mem_rows = [''d'' \<mapsto> metadata s'],
                 mem_log = [persist_metadata_sql, ''DROP TABLE IF EXISTS DT_METADATA CASCADE'']\<rparr>))"
proof -
  have valid: "valid_ident ''dt_metadata''" "valid_ident ''DT_METADATA''"
    by (simp_all add: valid_ident_def ident_char_def is_ascii_alphanumeric_def is_ascii_alphabetic_def ascii_defs)
  show ?thesis
    by (simp add: handle_drop_table_def validate_ident_cases valid metadata_table_def drop_table_sql_def Let_def
        mem_empty_def worker_init_def db_metadata_new_def managed_follow_def del: validate_ident.simps)
qed

end
