(* ===== verification/Name_Map.thy ===== *)
theory Name_Map
  imports Prelude
begin

text \<open>
  The contract of the registries of the program: objects filed under names, where registering
  under a taken name either replaces the object or is refused. What a client may conclude from a
  whole history of operations is proved once, from the laws of one operation.
\<close>

section \<open>Registries that replace\<close>

datatype ('k, 'v) map_op = Put 'k 'v | Del 'k

text \<open>What a history leaves under a name: its last operation on that name.\<close>

fun last_write :: "'k \<Rightarrow> ('k, 'v) map_op list \<Rightarrow> 'v option \<Rightarrow> 'v option" where
  "last_write k [] old = old"
| "last_write k (Put k' v # ops) old = last_write k ops (if k' = k then Some v else old)"
| "last_write k (Del k' # ops) old = last_write k ops (if k' = k then None else old)"

locale name_map =
  fixes put :: "'k \<Rightarrow> 'v \<Rightarrow> 's \<Rightarrow> 's"
    and del :: "'k \<Rightarrow> 's \<Rightarrow> 's"
    and get :: "'s \<Rightarrow> 'k \<Rightarrow> 'v option"
    and invar :: "'s \<Rightarrow> bool"
  assumes invar_put: "invar s \<Longrightarrow> invar (put k v s)"
    and invar_del: "invar s \<Longrightarrow> invar (del k s)"
    and get_put: "invar s \<Longrightarrow> get (put k v s) k' = (if k' = k then Some v else get s k')"
    and get_del: "invar s \<Longrightarrow> get (del k s) k' = (if k' = k then None else get s k')"
begin

fun apply_op :: "('k, 'v) map_op \<Rightarrow> 's \<Rightarrow> 's" where
  "apply_op (Put k v) s = put k v s"
| "apply_op (Del k) s = del k s"

lemma get_history: "invar s \<Longrightarrow> get (fold apply_op ops s) k = last_write k ops (get s k) \<and> invar (fold apply_op ops s)"
proof (induction ops arbitrary: s)
  case (Cons op ops)
  have "invar (apply_op op s)" using Cons.prems by (cases op) (simp_all add: invar_put invar_del)
  from Cons.IH[OF this] show ?case
    using Cons.prems by (cases op) (auto simp: get_put get_del)
qed simp

end

section \<open>Registries that refuse a taken name\<close>

locale unique_name_map =
  fixes add :: "'k \<Rightarrow> 'v \<Rightarrow> 's \<Rightarrow> bool \<times> 's"
    and del :: "'k \<Rightarrow> 's \<Rightarrow> 's"
    and get :: "'s \<Rightarrow> 'k \<Rightarrow> 'v option"
  assumes add_ok: "fst (add k v s) \<longleftrightarrow> get s k = None"
    and get_add: "get (snd (add k v s)) k' = (if k' = k \<and> get s k = None then Some v else get s k')"
    and get_del: "get (del k s) k' = (if k' = k then None else get s k')"
begin

text \<open>The first object registered under a name stays until the name is freed.\<close>

fun first_write :: "'k \<Rightarrow> ('k, 'v) map_op list \<Rightarrow> 'v option \<Rightarrow> 'v option" where
  "first_write k [] old = old"
| "first_write k (Put k' v # ops) old = first_write k ops (if k' = k \<and> old = None then Some v else old)"
| "first_write k (Del k' # ops) old = first_write k ops (if k' = k then None else old)"

fun apply_op :: "('k, 'v) map_op \<Rightarrow> 's \<Rightarrow> 's" where
  "apply_op (Put k v) s = snd (add k v s)"
| "apply_op (Del k) s = del k s"

lemma get_history: "get (fold apply_op ops s) k = first_write k ops (get s k)"
proof (induction ops arbitrary: s)
  case (Cons op ops)
  then show ?case by (cases op) (auto simp: get_add get_del)
qed simp

lemma first_write_kept: "\<forall>op \<in> set ops. op \<noteq> Del k \<Longrightarrow> first_write k ops (Some v) = Some v"
proof (induction ops)
  case (Cons op ops)
  then show ?case by (cases op) auto
qed simp

lemma kept: "get s k = Some v \<Longrightarrow> \<forall>op \<in> set ops. op \<noteq> Del k \<Longrightarrow> get (fold apply_op ops s) k = Some v"
  by (simp add: get_history first_write_kept)

end

end
