(* ===== verification/Pg_Client.thy ===== *)
theory Pg_Client
  imports Pg_Handlers Name_Map
begin

text \<open>
  The methods of \<open>PostgresDatabase\<close> that submit commands to its actor (\<open>postgresimpl.rs\<close>), the
  position and speed properties on top of them (\<open>models/properties\<close>) and the \<open>DatabaseManager\<close>
  (\<open>databasemanager.rs\<close>).

  The command channel belongs to \<open>tokio\<close>. \<open>try_send\<close> is a function on the channel state \<open>'ch\<close>; an
  awaiting method is a \<open>call\<close>, whose answer is \<open>None\<close> when the send failed and \<open>Some None\<close> when the
  reply channel was dropped. The reply channels are typed, so a reply of another kind than the
  command's cannot occur and is read like a dropped channel.
\<close>

section \<open>Submitting without waiting\<close>

definition try_submit ::
  "('j db_command \<Rightarrow> 'ch \<Rightarrow> 'j db_command try_send_outcome \<times> 'ch) \<Rightarrow> 'j db_command \<Rightarrow> 'ch
   \<Rightarrow> (db_error, unit) result \<times> 'ch" where
  "try_submit try_send cmd ch =
     (case try_send cmd ch of
        (Sent, ch') \<Rightarrow> (Ok (), ch')
      | (SendFull _, ch') \<Rightarrow> (Err QueueFull, ch')
      | (SendClosed _, ch') \<Rightarrow> (Err WorkerClosed, ch'))"

definition try_submit_execute ::
  "('j db_command \<Rightarrow> 'ch \<Rightarrow> 'j db_command try_send_outcome \<times> 'ch) \<Rightarrow> string \<Rightarrow> 'j sql_param list \<Rightarrow> 'ch
   \<Rightarrow> (db_error, unit) result \<times> 'ch" where
  "try_submit_execute try_send sql params ch = try_submit try_send (ExecuteNoAck sql params) ch"

definition try_submit_insert_row ::
  "('j db_command \<Rightarrow> 'ch \<Rightarrow> 'j db_command try_send_outcome \<times> 'ch) \<Rightarrow> string \<Rightarrow> (string \<times> 'j sql_param) list
   \<Rightarrow> 'ch \<Rightarrow> (db_error, unit) result \<times> 'ch" where
  "try_submit_insert_row try_send table vals ch = try_submit try_send (InsertRowNoAck table vals) ch"

text \<open>The command handed to a spawned task that waits for room, if the channel was full.\<close>

definition submit_insert_row_best_effort ::
  "('j db_command \<Rightarrow> 'ch \<Rightarrow> 'j db_command try_send_outcome \<times> 'ch) \<Rightarrow> string \<Rightarrow> (string \<times> 'j sql_param) list
   \<Rightarrow> 'ch \<Rightarrow> 'j db_command option \<times> 'ch" where
  "submit_insert_row_best_effort try_send table vals ch =
     (case try_send (InsertRowNoAck table vals) ch of
        (Sent, ch') \<Rightarrow> (None, ch')
      | (SendFull cmd, ch') \<Rightarrow> (Some cmd, ch')
      | (SendClosed _, ch') \<Rightarrow> (None, ch'))"

section \<open>Calls that wait for the answer\<close>

type_synonym ('j, 'r, 'ch) db_call = "'j db_command \<Rightarrow> 'ch \<Rightarrow> 'r reply option option \<times> 'ch"

definition rpc ::
  "('r reply \<Rightarrow> (db_error, 'a) result option) \<Rightarrow> ('j, 'r, 'ch) db_call \<Rightarrow> 'j db_command \<Rightarrow> 'ch
   \<Rightarrow> (db_error, 'a) result \<times> 'ch" where
  "rpc read call cmd ch =
     (case call cmd ch of
        (None, ch') \<Rightarrow> (Err WorkerClosed, ch')
      | (Some None, ch') \<Rightarrow> (Err WorkerClosed, ch')
      | (Some (Some r), ch') \<Rightarrow> ((case read r of None \<Rightarrow> Err WorkerClosed | Some res \<Rightarrow> res), ch'))"

fun reply_unit :: "'r reply \<Rightarrow> (db_error, unit) result option" where
  "reply_unit (RUnit r) = Some r"
| "reply_unit _ = None"

fun reply_count :: "'r reply \<Rightarrow> (db_error, u64) result option" where
  "reply_count (RCount r) = Some r"
| "reply_count _ = None"

fun reply_rows :: "'r reply \<Rightarrow> (db_error, 'r list) result option" where
  "reply_rows (RRows r) = Some r"
| "reply_rows _ = None"

fun reply_metadata :: "'r reply \<Rightarrow> (db_error, db_metadata) result option" where
  "reply_metadata (RMetadata r) = Some r"
| "reply_metadata _ = None"

definition pg_db_execute ::
  "('j, 'r, 'ch) db_call \<Rightarrow> string \<Rightarrow> 'j sql_param list \<Rightarrow> 'ch \<Rightarrow> (db_error, u64) result \<times> 'ch" where
  "pg_db_execute call sql params ch = rpc reply_count call (Execute sql params) ch"

definition metadata_snapshot :: "('j, 'r, 'ch) db_call \<Rightarrow> 'ch \<Rightarrow> (db_error, db_metadata) result \<times> 'ch" where
  "metadata_snapshot call ch = rpc reply_metadata call GetMetadata ch"

definition refresh_schema_from_db :: "('j, 'r, 'ch) db_call \<Rightarrow> 'ch \<Rightarrow> (db_error, unit) result \<times> 'ch" where
  "refresh_schema_from_db call ch = rpc reply_unit call RefreshSchema ch"

definition register_binding ::
  "('j, 'r, 'ch) db_call \<Rightarrow> string \<Rightarrow> string \<Rightarrow> string option \<Rightarrow> 'ch \<Rightarrow> (db_error, unit) result \<times> 'ch" where
  "register_binding call data_id table column ch =
     rpc reply_unit call (RegisterBinding \<lparr>db_data_id = data_id, db_table = table, db_column = column\<rparr>) ch"

definition unregister_binding ::
  "('j, 'r, 'ch) db_call \<Rightarrow> string \<Rightarrow> 'ch \<Rightarrow> (db_error, unit) result \<times> 'ch" where
  "unregister_binding call data_id ch = rpc reply_unit call (UnregisterBinding data_id) ch"

definition create_table ::
  "('j, 'r, 'ch) db_call \<Rightarrow> string \<Rightarrow> column_def list \<Rightarrow> 'ch \<Rightarrow> (db_error, unit) result \<times> 'ch" where
  "create_table call table columns ch = rpc reply_unit call (CreateTable table columns) ch"

definition drop_table :: "('j, 'r, 'ch) db_call \<Rightarrow> string \<Rightarrow> 'ch \<Rightarrow> (db_error, unit) result \<times> 'ch" where
  "drop_table call table ch = rpc reply_unit call (DropTable table) ch"

definition add_column ::
  "('j, 'r, 'ch) db_call \<Rightarrow> string \<Rightarrow> column_def \<Rightarrow> 'ch \<Rightarrow> (db_error, unit) result \<times> 'ch" where
  "add_column call table column ch = rpc reply_unit call (AddColumn table column) ch"

definition drop_column ::
  "('j, 'r, 'ch) db_call \<Rightarrow> string \<Rightarrow> string \<Rightarrow> 'ch \<Rightarrow> (db_error, unit) result \<times> 'ch" where
  "drop_column call table column ch = rpc reply_unit call (DropColumn table column) ch"

definition insert_row ::
  "('j, 'r, 'ch) db_call \<Rightarrow> string \<Rightarrow> (string \<times> 'j sql_param) list \<Rightarrow> 'ch \<Rightarrow> (db_error, u64) result \<times> 'ch" where
  "insert_row call table vals ch = rpc reply_count call (InsertRow table vals) ch"

definition query_raw ::
  "('j, 'r, 'ch) db_call \<Rightarrow> string \<Rightarrow> 'j sql_param list \<Rightarrow> 'ch \<Rightarrow> (db_error, 'r list) result \<times> 'ch" where
  "query_raw call sql params ch = rpc reply_rows call (Query sql params) ch"

text \<open>The managed ids in the order the iterator of the hash set produced.\<close>

definition list_managed_ids :: "string list \<Rightarrow> worker_state \<Rightarrow> string list" where
  "list_managed_ids order s = filter (\<lambda>i. i \<in> managed_ids s) order"

section \<open>The position property\<close>

record pg_position =
  pos_x :: f64
  pos_y :: f64
  pos_z :: f64

definition ensure_position_schema :: "('j, 'r, 'ch) db_call \<Rightarrow> 'ch \<Rightarrow> (db_error, unit) result \<times> 'ch" where
  "ensure_position_schema call ch = create_table call table_position position_schema ch"

definition set_position_sql :: string where
  "set_position_sql = sql_lines
     [[],
      ''            INSERT INTO '' @ table_position @ '' (entity_id, ts, x, y, z)'',
      ''            VALUES ($1, now(), $2, $3, $4)'',
      ''            ON CONFLICT (entity_id)'',
      ''            DO UPDATE SET ts = EXCLUDED.ts, x = EXCLUDED.x, y = EXCLUDED.y, z = EXCLUDED.z'',
      ''            '']"

definition try_set_position ::
  "('j db_command \<Rightarrow> 'ch \<Rightarrow> 'j db_command try_send_outcome \<times> 'ch) \<Rightarrow> string \<Rightarrow> pg_position \<Rightarrow> 'ch
   \<Rightarrow> (db_error, unit) result \<times> 'ch" where
  "try_set_position try_send entity_id pos ch =
     try_submit_execute try_send set_position_sql
       [PText entity_id, PF64 (pos_x pos), PF64 (pos_y pos), PF64 (pos_z pos)] ch"

text \<open>\<open>row_f64\<close> and \<open>row_ts\<close> are the typed reads \<open>r.get(..)\<close> of the driver.\<close>

definition position_of_row :: "('r \<Rightarrow> string \<Rightarrow> f64) \<Rightarrow> 'r \<Rightarrow> pg_position" where
  "position_of_row row_f64 r = \<lparr>pos_x = row_f64 r ''x'', pos_y = row_f64 r ''y'', pos_z = row_f64 r ''z''\<rparr>"

definition get_position ::
  "('r \<Rightarrow> string \<Rightarrow> f64) \<Rightarrow> ('j, 'r, 'ch) db_call \<Rightarrow> string \<Rightarrow> 'ch
   \<Rightarrow> (db_error, pg_position option) result \<times> 'ch" where
  "get_position row_f64 call entity_id ch =
     (case query_raw call (''SELECT x, y, z FROM '' @ table_position @ '' WHERE entity_id = $1'') [PText entity_id] ch of
        (Inl e, ch') \<Rightarrow> (Err e, ch')
      | (Inr [], ch') \<Rightarrow> (Ok None, ch')
      | (Inr (r # _), ch') \<Rightarrow> (Ok (Some (position_of_row row_f64 r)), ch'))"

definition get_position_with_ts ::
  "('r \<Rightarrow> string \<Rightarrow> f64) \<Rightarrow> ('r \<Rightarrow> string \<Rightarrow> timestamp) \<Rightarrow> ('j, 'r, 'ch) db_call \<Rightarrow> string \<Rightarrow> 'ch
   \<Rightarrow> (db_error, (pg_position \<times> timestamp) option) result \<times> 'ch" where
  "get_position_with_ts row_f64 row_ts call entity_id ch =
     (case query_raw call (''SELECT x, y, z, ts FROM '' @ table_position @ '' WHERE entity_id = $1'') [PText entity_id] ch of
        (Inl e, ch') \<Rightarrow> (Err e, ch')
      | (Inr [], ch') \<Rightarrow> (Ok None, ch')
      | (Inr (r # _), ch') \<Rightarrow> (Ok (Some (position_of_row row_f64 r, row_ts r ''ts'')), ch'))"

section \<open>The speed property\<close>

definition ensure_speed_schema :: "('j, 'r, 'ch) db_call \<Rightarrow> 'ch \<Rightarrow> (db_error, unit) result \<times> 'ch" where
  "ensure_speed_schema call ch = create_table call table_speed speed_schema ch"

definition set_speed_sql :: string where
  "set_speed_sql = sql_lines
     [[],
      ''            INSERT INTO '' @ table_speed @ '' (entity_id, ts, value)'',
      ''            VALUES ($1, now(), $2)'',
      ''            ON CONFLICT (entity_id)'',
      ''            DO UPDATE SET ts = EXCLUDED.ts, value = EXCLUDED.value'',
      ''            '']"

definition try_set_speed ::
  "('j db_command \<Rightarrow> 'ch \<Rightarrow> 'j db_command try_send_outcome \<times> 'ch) \<Rightarrow> string \<Rightarrow> f64 \<Rightarrow> 'ch
   \<Rightarrow> (db_error, unit) result \<times> 'ch" where
  "try_set_speed try_send entity_id v ch =
     try_submit_execute try_send set_speed_sql [PText entity_id, PF64 v] ch"

definition pg_get_speed ::
  "('r \<Rightarrow> string \<Rightarrow> f64) \<Rightarrow> ('j, 'r, 'ch) db_call \<Rightarrow> string \<Rightarrow> 'ch \<Rightarrow> (db_error, f64 option) result \<times> 'ch" where
  "pg_get_speed row_f64 call entity_id ch =
     (case query_raw call (''SELECT value FROM '' @ table_speed @ '' WHERE entity_id = $1'') [PText entity_id] ch of
        (Inl e, ch') \<Rightarrow> (Err e, ch')
      | (Inr [], ch') \<Rightarrow> (Ok None, ch')
      | (Inr (r # _), ch') \<Rightarrow> (Ok (Some (row_f64 r ''value'')), ch'))"

definition get_speed_with_ts ::
  "('r \<Rightarrow> string \<Rightarrow> f64) \<Rightarrow> ('r \<Rightarrow> string \<Rightarrow> timestamp) \<Rightarrow> ('j, 'r, 'ch) db_call \<Rightarrow> string \<Rightarrow> 'ch
   \<Rightarrow> (db_error, (f64 \<times> timestamp) option) result \<times> 'ch" where
  "get_speed_with_ts row_f64 row_ts call entity_id ch =
     (case query_raw call (''SELECT value, ts FROM '' @ table_speed @ '' WHERE entity_id = $1'') [PText entity_id] ch of
        (Inl e, ch') \<Rightarrow> (Err e, ch')
      | (Inr [], ch') \<Rightarrow> (Ok None, ch')
      | (Inr (r # _), ch') \<Rightarrow> (Ok (Some (row_f64 r ''value'', row_ts r ''ts'')), ch'))"

section \<open>A call that reaches the actor\<close>

text \<open>
  The channel is a queue in front of one actor. When the actor is alive and the queue before the
  command has been worked off, a call is the handler of the command on the actor's state.
\<close>

definition actor_call ::
  "('j, 'r, 'w) pg_client \<Rightarrow> ('j, 'r, worker_state \<times> 'w) db_call" where
  "actor_call c cmd sw =
     (case sw of (s, w) \<Rightarrow> (case handle_command c cmd s w of (r, s', w') \<Rightarrow> (Some (Some r), s', w')))"

lemma actor_call_simps [model_simps]:
  "create_table (actor_call c) t cs (s, w) = (case handle_create_table c t cs s w of (r, s', w') \<Rightarrow> (r, s', w'))"
  "drop_table (actor_call c) t (s, w) = (case handle_drop_table c t s w of (r, s', w') \<Rightarrow> (r, s', w'))"
  "register_binding (actor_call c) i t col (s, w) =
     (case handle_register_binding c \<lparr>db_data_id = i, db_table = t, db_column = col\<rparr> s w of (r, s', w') \<Rightarrow> (r, s', w'))"
  "unregister_binding (actor_call c) i (s, w) =
     (case handle_unregister_binding c i s w of (r, s', w') \<Rightarrow> (r, s', w'))"
  "metadata_snapshot (actor_call c) (s, w) = (Ok (metadata s), s, w)"
  by (simp_all add: create_table_def drop_table_def register_binding_def unregister_binding_def
      metadata_snapshot_def rpc_def actor_call_def split: prod.splits)

section \<open>The database manager\<close>

text \<open>
  The databases registered under their names. \<open>'d\<close> is a database object and \<open>name_of\<close> its
  \<open>name()\<close>; \<open>order\<close> is the order the iterator of the hash map produced.
\<close>

type_synonym 'd database_manager = "string \<rightharpoonup> 'd"

definition database_manager_new :: "'d database_manager" where
  "database_manager_new = Map.empty"

definition add_db :: "('d \<Rightarrow> string) \<Rightarrow> 'd \<Rightarrow> 'd database_manager \<Rightarrow> (db_error, unit) result \<times> 'd database_manager" where
  "add_db name_of db m =
     (if m (name_of db) \<noteq> None
      then (Err (AlreadyExists (''DB '' @ [CHR 0x27] @ name_of db @ [CHR 0x27] @ '' already registered'')), m)
      else (Ok (), m(name_of db \<mapsto> db)))"

definition remove_db :: "string \<Rightarrow> 'd database_manager \<Rightarrow> 'd option \<times> 'd database_manager" where
  "remove_db name m = (m name, m(name := None))"

definition get_db :: "'d database_manager \<Rightarrow> string \<Rightarrow> 'd option" where
  "get_db m name = m name"

definition list_db_names :: "string list \<Rightarrow> 'd database_manager \<Rightarrow> string list" where
  "list_db_names order m = filter (\<lambda>n. m n \<noteq> None) order"

text \<open>
  The manager keeps the contract of a registry that refuses a taken name. A database object is here
  its name with the rest of it.
\<close>

interpretation database_names: unique_name_map
  "\<lambda>name d m. map_prod is_ok id (add_db fst (name, d) m)" "\<lambda>name m. snd (remove_db name m)" "\<lambda>m name. map_option snd (get_db m name)"
  by unfold_locales (auto simp: add_db_def remove_db_def get_db_def, metis option.exhaust surj_pair)

lemma first_database_stays:
  "map_option snd (get_db m name) = Some d \<Longrightarrow> \<forall>op \<in> set ops. op \<noteq> Del name \<Longrightarrow>
   map_option snd (get_db (fold database_names.apply_op ops m) name) = Some d"
  by (rule database_names.kept)

end
