(* ===== verification/Rt_Guard.thy ===== *)
theory Rt_Guard
  imports Rust_Str Float64
begin

text \<open>
  The real-time services' contract and bookkeeping: \<open>RtConfig\<close> and the \<open>RtService\<close> trait
  (\<open>services/rtservices/src/traits.rs\<close>), the shared \<open>Properties\<close> (\<open>properties.rs\<close>), engine events
  (\<open>engine_event.rs\<close>), the context of a tick (\<open>context.rs\<close>), and the overrun statistics with their
  guard (\<open>rt_guard.rs\<close>).

  An \<open>RtService\<close> is a trait object: a record of its methods on its own state \<open>'s\<close>. The event channel
  belongs to \<open>crossbeam\<close>; it is the state \<open>'ch\<close>, and JSON values are \<open>'j\<close>.
\<close>

section \<open>Errors and configuration\<close>

datatype rt_error =
    CpuPinning string
  | SchedFifo string
  | MemoryLock string
  | CheckFailed string
  | PlatformNotSupported

record rt_config =
  cfg_period :: duration
  cfg_deadline :: duration
  cfg_wcet :: duration
  cfg_cpu_core :: "nat option"
  cfg_fifo_priority :: "int option"

definition rt_config_new :: "u64 \<Rightarrow> u64 \<Rightarrow> u64 \<Rightarrow> rt_config" where
  "rt_config_new period_us deadline_us wcet_us =
     \<lparr>cfg_period = from_micros (unat period_us), cfg_deadline = from_micros (unat deadline_us),
      cfg_wcet = from_micros (unat wcet_us), cfg_cpu_core = None, cfg_fifo_priority = None\<rparr>"

definition with_cpu_core :: "nat \<Rightarrow> rt_config \<Rightarrow> rt_config" where
  "with_cpu_core core c = c\<lparr>cfg_cpu_core := Some core\<rparr>"

definition with_fifo_priority :: "int \<Rightarrow> rt_config \<Rightarrow> rt_config" where
  "with_fifo_priority p c = c\<lparr>cfg_fifo_priority := Some p\<rparr>"

definition rt_config_default :: rt_config where
  "rt_config_default =
     \<lparr>cfg_period = from_millis 10, cfg_deadline = from_millis 10, cfg_wcet = from_millis 5,
      cfg_cpu_core = None, cfg_fifo_priority = None\<rparr>"

section \<open>Properties, events and the context\<close>

text \<open>\<open>Properties\<close> keeps the speed as the bits of an \<open>f64\<close> in an atomic \<open>u64\<close>.\<close>

record properties =
  prop_speed :: u64

definition properties_new :: properties where
  "properties_new = \<lparr>prop_speed = to_bits (f64_zero False)\<rparr>"

definition get_speed :: "properties \<Rightarrow> f64" where
  "get_speed p = from_bits (prop_speed p)"

definition set_speed :: "f64 \<Rightarrow> properties \<Rightarrow> properties" where
  "set_speed v p = p\<lparr>prop_speed := to_bits v\<rparr>"

lemma get_set_speed [simp]: "get_speed (set_speed v p) = v"
  by (simp add: get_speed_def set_speed_def)

datatype 'j engine_event = SetSpeed f64 | EngineCustom string 'j

text \<open>What a tick sees and may change: the atomic properties and the event channel.\<close>

record 'ch rt_context =
  ctx_props :: properties
  ctx_events :: 'ch

section \<open>The trait\<close>

record ('s, 'ch) rt_service =
  svc_name :: "'s \<Rightarrow> string"
  svc_config :: "'s \<Rightarrow> rt_config"
  svc_init :: "'s \<Rightarrow> (rt_error, unit) result \<times> 's"
  svc_tick :: "'ch rt_context \<Rightarrow> 's \<Rightarrow> ((rt_error, unit) result \<times> 's \<times> 'ch rt_context) exec"
  svc_shutdown :: "'s \<Rightarrow> (rt_error, unit) result \<times> 's"

text \<open>The default methods: \<open>init\<close> and \<open>shutdown\<close> do nothing, and the timing accessors.\<close>

definition default_init :: "'s \<Rightarrow> (rt_error, unit) result \<times> 's" where
  "default_init s = (Ok (), s)"

definition default_shutdown :: "'s \<Rightarrow> (rt_error, unit) result \<times> 's" where
  "default_shutdown s = (Ok (), s)"

definition period_us :: "('s, 'ch) rt_service \<Rightarrow> 's \<Rightarrow> u64" where
  "period_us v s = word_of_nat (as_micros (cfg_period (svc_config v s)))"

definition deadline_us :: "('s, 'ch) rt_service \<Rightarrow> 's \<Rightarrow> u64" where
  "deadline_us v s = word_of_nat (as_micros (cfg_deadline (svc_config v s)))"

definition wcet_us :: "('s, 'ch) rt_service \<Rightarrow> 's \<Rightarrow> u64" where
  "wcet_us v s = word_of_nat (as_micros (cfg_wcet (svc_config v s)))"

section \<open>Overrun statistics\<close>

record rt_service_stats =
  st_calls :: u64
  st_overruns :: u32
  st_last_elapsed :: duration
  st_max_elapsed :: duration
  st_disabled :: bool

definition rt_service_stats_default :: rt_service_stats where
  "rt_service_stats_default =
     \<lparr>st_calls = 0, st_overruns = 0, st_last_elapsed = from_nanos 0, st_max_elapsed = from_nanos 0,
      st_disabled = False\<rparr>"

record rt_check_config =
  disable_after_overruns :: u32

definition rt_check_config_default :: rt_check_config where
  "rt_check_config_default = \<lparr>disable_after_overruns = 3\<rparr>"

definition update_stats ::
  "duration \<Rightarrow> duration \<Rightarrow> rt_check_config \<Rightarrow> rt_service_stats \<Rightarrow> (bool \<times> rt_service_stats) exec" where
  "update_stats elapsed budget cfg stats =
     exec_bind (incr (st_calls stats)) (\<lambda>calls.
       let s1 = stats\<lparr>st_calls := calls, st_last_elapsed := elapsed\<rparr>;
           s2 = (if st_max_elapsed s1 < elapsed then s1\<lparr>st_max_elapsed := elapsed\<rparr> else s1)
       in if budget < elapsed then
            exec_bind (incr (st_overruns s2)) (\<lambda>overruns.
              let s3 = s2\<lparr>st_overruns := overruns\<rparr>;
                  s4 = (if disable_after_overruns cfg \<le> overruns then s3\<lparr>st_disabled := True\<rparr> else s3)
              in Return (st_disabled s4, s4))
          else Return (st_disabled s2, s2))"

text \<open>
  The measurements of a service over its ticks: the manager skips a service once it is disabled.
\<close>

fun stats_run ::
  "duration \<Rightarrow> rt_check_config \<Rightarrow> duration list \<Rightarrow> rt_service_stats \<Rightarrow> rt_service_stats exec" where
  "stats_run budget cfg [] stats = Return stats"
| "stats_run budget cfg (e # es) stats =
     (if st_disabled stats then Return stats
      else exec_bind (update_stats e budget cfg stats) (\<lambda>(_, s). stats_run budget cfg es s))"

section \<open>What the guard guarantees\<close>

definition overrun_limit :: "rt_check_config \<Rightarrow> nat" where
  "overrun_limit cfg = max 1 (unat (disable_after_overruns cfg))"

definition stats_inv :: "rt_check_config \<Rightarrow> rt_service_stats \<Rightarrow> bool" where
  "stats_inv cfg s \<longleftrightarrow>
     unat (st_overruns s) \<le> overrun_limit cfg \<and>
     (st_disabled s \<longleftrightarrow> unat (st_overruns s) = overrun_limit cfg) \<and>
     unat (st_overruns s) \<le> unat (st_calls s) \<and> st_last_elapsed s \<le> st_max_elapsed s"

lemma stats_inv_default: "stats_inv cfg rt_service_stats_default"
  by (auto simp: stats_inv_def rt_service_stats_default_def overrun_limit_def from_nanos_def)

lemma overrun_limit_less: "overrun_limit cfg < 2 ^ 32"
  using unsigned_less[of "disable_after_overruns cfg"] by (simp add: overrun_limit_def)

text \<open>One measurement of an enabled service.\<close>

lemma update_stats_spec:
  assumes inv: "stats_inv cfg s" and enabled: "\<not> st_disabled s" and calls: "unat (st_calls s) < 2 ^ 64 - 1"
  shows "\<exists>s'. update_stats e budget cfg s = Return (st_disabled s', s') \<and> stats_inv cfg s' \<and>
    unat (st_calls s') = Suc (unat (st_calls s)) \<and>
    unat (st_overruns s') = unat (st_overruns s) + (if budget < e then 1 else 0) \<and>
    st_last_elapsed s' = e \<and> st_max_elapsed s' = max (st_max_elapsed s) e"
proof -
  have c: "incr (st_calls s) = Return (st_calls s + 1)" "unat (st_calls s + 1) = Suc (unat (st_calls s))"
    using incr_below[of "st_calls s" "2 ^ 64 - 1"] calls by simp_all
  have below: "unat (st_overruns s) < overrun_limit cfg"
    using inv enabled by (auto simp: stats_inv_def)
  then have o: "incr (st_overruns s) = Return (st_overruns s + 1)"
    "unat (st_overruns s + 1) = Suc (unat (st_overruns s))"
    using incr_below[of "st_overruns s" "overrun_limit cfg"] overrun_limit_less[of cfg] by simp_all
  have lim: "disable_after_overruns cfg \<le> st_overruns s + 1 \<longleftrightarrow> Suc (unat (st_overruns s)) = overrun_limit cfg"
    using below o(2) by (auto simp: word_le_nat_alt overrun_limit_def max_def split: if_splits)
  show ?thesis
    using inv enabled below c o lim
    by (cases "budget < e"; cases "st_max_elapsed s < e")
      (auto simp: update_stats_def stats_inv_def Let_def max_def not_less)
qed

text \<open>
  The measurements a service takes part in: up to the overrun that exhausts the limit \<open>n\<close>.
\<close>

fun served :: "duration \<Rightarrow> nat \<Rightarrow> duration list \<Rightarrow> duration list" where
  "served budget 0 es = []"
| "served budget (Suc n) [] = []"
| "served budget (Suc n) (e # es) = e # served budget (if budget < e then n else Suc n) es"

definition overruns :: "duration \<Rightarrow> duration list \<Rightarrow> nat" where
  "overruns budget es = length (filter (\<lambda>e. budget < e) es)"

lemma overruns_simps [simp]:
  "overruns budget [] = 0"
  "overruns budget (e # es) = (if budget < e then Suc (overruns budget es) else overruns budget es)"
  by (simp_all add: overruns_def)

lemma overruns_served: "overruns budget (served budget n es) = min n (overruns budget es)"
  by (induction budget n es rule: served.induct) auto

lemma length_served: "length (served budget n es) \<le> length es"
  by (induction budget n es rule: served.induct) auto

lemma served_all: "overruns budget es < n \<Longrightarrow> served budget n es = es"
  by (induction budget n es rule: served.induct) (auto split: if_splits)

lemma stats_run_spec:
  "stats_inv cfg s \<Longrightarrow> unat (st_calls s) + length es < 2 ^ 64 \<Longrightarrow>
   \<exists>s'. stats_run budget cfg es s = Return s' \<and> stats_inv cfg s' \<and>
     (let es' = served budget (overrun_limit cfg - unat (st_overruns s)) es
      in unat (st_calls s') = unat (st_calls s) + length es' \<and>
         unat (st_overruns s') = unat (st_overruns s) + overruns budget es' \<and>
         st_max_elapsed s' = fold max es' (st_max_elapsed s))"
proof (induction es arbitrary: s)
  case Nil
  then show ?case by (cases "overrun_limit cfg - unat (st_overruns s)") auto
next
  case (Cons e es)
  show ?case
  proof (cases "st_disabled s")
    case True
    then have "overrun_limit cfg - unat (st_overruns s) = 0" using Cons.prems(1) by (simp add: stats_inv_def)
    then show ?thesis using True Cons.prems(1) by simp
  next
    case False
    then obtain n where n: "overrun_limit cfg - unat (st_overruns s) = Suc n"
      using Cons.prems(1) by (cases "overrun_limit cfg - unat (st_overruns s)") (auto simp: stats_inv_def)
    obtain s1 where s1: "update_stats e budget cfg s = Return (st_disabled s1, s1)" "stats_inv cfg s1"
      "unat (st_calls s1) = Suc (unat (st_calls s))"
      "unat (st_overruns s1) = unat (st_overruns s) + (if budget < e then 1 else 0)"
      "st_max_elapsed s1 = max (st_max_elapsed s) e"
      using update_stats_spec[OF Cons.prems(1) False, of e budget] Cons.prems(2) by auto
    have n1: "overrun_limit cfg - unat (st_overruns s1) = (if budget < e then n else Suc n)"
      using n s1(4) by auto
    obtain s2 where "stats_run budget cfg es s1 = Return s2" "stats_inv cfg s2"
      "unat (st_calls s2) = unat (st_calls s1) + length (served budget (if budget < e then n else Suc n) es)"
      "unat (st_overruns s2) = unat (st_overruns s1) + overruns budget (served budget (if budget < e then n else Suc n) es)"
      "st_max_elapsed s2 = fold max (served budget (if budget < e then n else Suc n) es) (st_max_elapsed s1)"
      using Cons.IH[OF s1(2)] Cons.prems(2) s1(3) n1 by (auto simp: Let_def)
    then show ?thesis using False n s1 by (simp add: Let_def max.commute)
  qed
qed

text \<open>The statistics of a service that starts fresh, in closed form.\<close>

lemma stats_run_default:
  assumes "length es < 2 ^ 64" and "stats_run budget cfg es rt_service_stats_default = Return s"
  shows "st_disabled s \<longleftrightarrow> overrun_limit cfg \<le> overruns budget es"
    "unat (st_overruns s) = min (overrun_limit cfg) (overruns budget es)"
    "unat (st_calls s) = length (served budget (overrun_limit cfg) es)"
    "st_max_elapsed s = fold max (served budget (overrun_limit cfg) es) (from_nanos 0)"
proof -
  have s: "stats_inv cfg s"
    "unat (st_calls s) = length (served budget (overrun_limit cfg) es)"
    "unat (st_overruns s) = overruns budget (served budget (overrun_limit cfg) es)"
    "st_max_elapsed s = fold max (served budget (overrun_limit cfg) es) (from_nanos 0)"
    using stats_run_spec[OF stats_inv_default, where es = es and cfg = cfg and budget = budget] assms
    by (auto simp: Let_def rt_service_stats_default_def)
  have "st_disabled s \<longleftrightarrow> unat (st_overruns s) = overrun_limit cfg"
    using s(1) by (simp add: stats_inv_def)
  then show "st_disabled s \<longleftrightarrow> overrun_limit cfg \<le> overruns budget es"
    "unat (st_overruns s) = min (overrun_limit cfg) (overruns budget es)"
    "unat (st_calls s) = length (served budget (overrun_limit cfg) es)"
    "st_max_elapsed s = fold max (served budget (overrun_limit cfg) es) (from_nanos 0)"
    using s by (auto simp: overruns_served min_def)
qed

end
