(* ===== verification/Rt_Checker.thy ===== *)
theory Rt_Checker
  imports Rt_Guard "HOL-Library.Signed_Division"
begin

text \<open>
  \<open>services/rtservices/src/rt_checker.rs\<close>: jitter statistics, the checker that records the outcome
  of the operating-system calls, and the monitor thread with its \<open>timespec\<close> arithmetic.

  The calls to the operating system are arguments: what \<open>sched_setaffinity\<close>, \<open>sched_setscheduler\<close>
  and \<open>mlockall\<close> answered, and the clock readings. An \<open>Instant\<close> is its number of nanoseconds.
\<close>

section \<open>Jitter statistics\<close>

record jitter_stats =
  js_min_us :: u64
  js_max_us :: u64
  js_avg_us :: f64
  js_samples :: u64
  js_histogram :: "u64 list"

definition jitter_stats_new :: jitter_stats where
  "jitter_stats_new =
     \<lparr>js_min_us = - 1, js_max_us = 0, js_avg_us = f64_zero False, js_samples = 0,
      js_histogram = replicate 10 0\<rparr>"

definition jitter_record :: "u64 \<Rightarrow> jitter_stats \<Rightarrow> jitter_stats exec" where
  "jitter_record jitter_us s =
     (let s1 = s\<lparr>js_min_us := min (js_min_us s) jitter_us, js_max_us := max (js_max_us s) jitter_us\<rparr>
      in exec_bind (incr (js_samples s1)) (\<lambda>samples.
           let avg = f64_add (js_avg_us s1)
                       (f64_div (f64_sub (f64_of_u64 jitter_us) (js_avg_us s1)) (f64_of_u64 samples));
               s2 = s1\<lparr>js_samples := samples, js_avg_us := avg\<rparr>;
               bucket = unat (min (jitter_us div 10) 9)
           in if bucket < length (js_histogram s2) then
                exec_bind (incr (js_histogram s2 ! bucket)) (\<lambda>n.
                  Return (s2\<lparr>js_histogram := (js_histogram s2)[bucket := n]\<rparr>))
              else Panic))"

definition jitter_reset :: "jitter_stats \<Rightarrow> jitter_stats" where
  "jitter_reset s = jitter_stats_new"

fun jitter_run :: "u64 list \<Rightarrow> jitter_stats \<Rightarrow> jitter_stats exec" where
  "jitter_run [] s = Return s"
| "jitter_run (j # js) s = exec_bind (jitter_record j s) (jitter_run js)"

text \<open>The bucket of a sample, and the statistics of the samples recorded so far.\<close>

definition jitter_bucket :: "u64 \<Rightarrow> nat" where
  "jitter_bucket j = min (unat j div 10) 9"

definition jitter_of :: "u64 list \<Rightarrow> jitter_stats \<Rightarrow> bool" where
  "jitter_of js s \<longleftrightarrow>
     length (js_histogram s) = 10 \<and> unat (js_samples s) = length js \<and>
     (\<forall>b < 10. unat (js_histogram s ! b) = length (filter (\<lambda>j. jitter_bucket j = b) js)) \<and>
     js_min_us s = fold min js (- 1) \<and> js_max_us s = fold max js 0"

lemma jitter_bucket_code: "unat (min (j div 10) 9) = jitter_bucket j"
  by (simp add: jitter_bucket_def min_def word_le_nat_alt unat_div)

lemma jitter_of_new: "jitter_of [] jitter_stats_new"
  by (simp add: jitter_of_def jitter_stats_new_def)

lemma jitter_record_spec:
  assumes "jitter_of js s" and "length js < 2 ^ 64 - 1"
  shows "\<exists>s'. jitter_record j s = Return s' \<and> jitter_of (js @ [j]) s'"
proof -
  have b: "jitter_bucket j < 10" by (simp add: jitter_bucket_def)
  have samples: "incr (js_samples s) = Return (js_samples s + 1)"
    "unat (js_samples s + 1) = Suc (length js)"
    using incr_below[of "js_samples s" "2 ^ 64 - 1"] assms by (simp_all add: jitter_of_def)
  have count: "unat (js_histogram s ! jitter_bucket j) \<le> length js"
    using assms(1) b by (simp add: jitter_of_def)
  then have hist: "incr (js_histogram s ! jitter_bucket j) = Return (js_histogram s ! jitter_bucket j + 1)"
    "unat (js_histogram s ! jitter_bucket j + 1) = Suc (unat (js_histogram s ! jitter_bucket j))"
    using incr_below[of "js_histogram s ! jitter_bucket j" "2 ^ 64 - 1"] assms(2) by simp_all
  define avg where "avg = f64_add (js_avg_us s)
    (f64_div (f64_sub (f64_of_u64 j) (js_avg_us s)) (f64_of_u64 (js_samples s + 1)))"
  define s' where "s' = \<lparr>js_min_us = min (js_min_us s) j, js_max_us = max (js_max_us s) j, js_avg_us = avg,
    js_samples = js_samples s + 1,
    js_histogram = (js_histogram s)[jitter_bucket j := js_histogram s ! jitter_bucket j + 1]\<rparr>"
  have "jitter_record j s = Return s'"
    using assms(1) b samples(1) hist(1)
    by (simp add: jitter_record_def jitter_bucket_code Let_def s'_def avg_def jitter_of_def)
  moreover have "jitter_of (js @ [j]) s'"
    using assms(1) b samples(2) hist(2)
    by (auto simp: jitter_of_def s'_def nth_list_update min.commute[of j] max.commute[of j])
  ultimately show ?thesis by blast
qed

lemma jitter_run_spec:
  "jitter_of js s \<Longrightarrow> length js + length js' < 2 ^ 64 \<Longrightarrow> \<exists>s'. jitter_run js' s = Return s' \<and> jitter_of (js @ js') s'"
proof (induction js' arbitrary: js s)
  case Nil
  then show ?case by simp
next
  case (Cons j js')
  obtain s1 where s1: "jitter_record j s = Return s1" "jitter_of (js @ [j]) s1"
    using jitter_record_spec[OF Cons.prems(1), of j] Cons.prems(2) by auto
  from Cons.IH[OF s1(2)] Cons.prems(2) s1(1) show ?case by auto
qed

section \<open>The checker\<close>

record rt_monitor_stats =
  rm_samples :: u64
  rm_misses :: u64
  rm_max_late_ns :: u64

definition rt_monitor_stats_default :: rt_monitor_stats where
  "rt_monitor_stats_default = \<lparr>rm_samples = 0, rm_misses = 0, rm_max_late_ns = 0\<rparr>"

text \<open>The monitor is its shared counters; the handle and the stop flag exist while it runs.\<close>

record rt_checker =
  pinned_core :: "nat option"
  fifo_priority :: "int option"
  memory_locked :: bool
  chk_jitter :: jitter_stats
  last_tick :: "nat option"
  expected_period :: "duration option"
  chk_monitor :: "rt_monitor_stats option"

definition rt_checker_new :: rt_checker where
  "rt_checker_new =
     \<lparr>pinned_core = None, fifo_priority = None, memory_locked = False, chk_jitter = jitter_stats_new,
      last_tick = None, expected_period = None, chk_monitor = None\<rparr>"

definition with_period :: "duration \<Rightarrow> rt_checker \<Rightarrow> rt_checker" where
  "with_period p c = c\<lparr>expected_period := Some p\<rparr>"

text \<open>\<open>cpu_set\<close> and \<open>aff\<close> are what \<open>CpuSet::set\<close> and \<open>sched_setaffinity\<close> answered.\<close>

definition pin_to_cpu ::
  "nat \<Rightarrow> (string, unit) result \<Rightarrow> (string, unit) result \<Rightarrow> rt_checker \<Rightarrow> (rt_error, unit) result \<times> rt_checker" where
  "pin_to_cpu core_id cpu_set aff c =
     (case cpu_set of
        Inl e \<Rightarrow> (Err (CpuPinning e), c)
      | Inr _ \<Rightarrow>
          (case aff of
             Inl e \<Rightarrow> (Err (CpuPinning e), c)
           | Inr _ \<Rightarrow> (Ok (), c\<lparr>pinned_core := Some core_id\<rparr>)))"

definition clamp_prio :: "int \<Rightarrow> int" where
  "clamp_prio p = max 1 (min 99 p)"

definition set_fifo_priority ::
  "int \<Rightarrow> (string, unit) result \<Rightarrow> rt_checker \<Rightarrow> (rt_error, unit) result \<times> rt_checker" where
  "set_fifo_priority priority sched c =
     (let prio = clamp_prio priority
      in case sched of
           Inl e \<Rightarrow> (Err (SchedFifo (''sched_setscheduler failed: '' @ e @ '' (try running as root)'')), c)
         | Inr _ \<Rightarrow> (Ok (), c\<lparr>fifo_priority := Some prio\<rparr>))"

definition lock_memory :: "(string, unit) result \<Rightarrow> rt_checker \<Rightarrow> (rt_error, unit) result \<times> rt_checker" where
  "lock_memory mlock c =
     (case mlock of
        Inl e \<Rightarrow> (Err (MemoryLock (''mlockall failed: '' @ e
                   @ '' (try running as root or increase RLIMIT_MEMLOCK)'')), c)
      | Inr _ \<Rightarrow> (Ok (), c\<lparr>memory_locked := True\<rparr>))"

record os_answers =
  os_cpu_set :: "(string, unit) result"
  os_affinity :: "(string, unit) result"
  os_sched :: "(string, unit) result"
  os_mlock :: "(string, unit) result"

definition apply_rt_settings ::
  "nat \<Rightarrow> int \<Rightarrow> os_answers \<Rightarrow> rt_checker \<Rightarrow> (rt_error, unit) result \<times> rt_checker" where
  "apply_rt_settings core_id priority os c =
     (let (_, c1) = pin_to_cpu core_id (os_cpu_set os) (os_affinity os) c;
          (_, c2) = set_fifo_priority priority (os_sched os) c1;
          (_, c3) = lock_memory (os_mlock os) c2
      in (Ok (), c3))"

definition checker_tick :: "nat \<Rightarrow> rt_checker \<Rightarrow> (u64 option \<times> rt_checker) exec" where
  "checker_tick now c =
     (case (last_tick c, expected_period c) of
        (Some prev, Some expected) \<Rightarrow>
          (let actual = now - prev;
               diff = (if as_nanos expected < actual then actual - as_nanos expected else as_nanos expected - actual);
               jitter_us = word_of_nat (as_micros (from_nanos diff))
           in exec_bind (jitter_record jitter_us (chk_jitter c)) (\<lambda>js.
                Return (Some jitter_us, c\<lparr>chk_jitter := js, last_tick := Some now\<rparr>)))
      | _ \<Rightarrow> Return (None, c\<lparr>last_tick := Some now\<rparr>))"

definition reset_jitter_stats :: "rt_checker \<Rightarrow> rt_checker" where
  "reset_jitter_stats c = c\<lparr>chk_jitter := jitter_reset (chk_jitter c), last_tick := None\<rparr>"

definition is_rt_active :: "rt_checker \<Rightarrow> bool" where
  "is_rt_active c \<longleftrightarrow> pinned_core c \<noteq> None \<or> fifo_priority c \<noteq> None \<or> memory_locked c"

definition start_monitor :: "rt_checker \<Rightarrow> rt_checker" where
  "start_monitor c = c\<lparr>chk_monitor := Some rt_monitor_stats_default\<rparr>"

definition checker_snapshot :: "rt_checker \<Rightarrow> rt_monitor_stats" where
  "checker_snapshot c = (case chk_monitor c of Some m \<Rightarrow> m | None \<Rightarrow> rt_monitor_stats_default)"

definition checker_stop :: "rt_checker \<Rightarrow> rt_checker" where
  "checker_stop c = c\<lparr>chk_monitor := None\<rparr>"

definition int_str :: "int \<Rightarrow> string" where
  "int_str i = (if i < 0 then CHR ''-'' # nat_str (nat (- i)) else nat_str (nat i))"

definition status_report :: "rt_checker \<Rightarrow> string" where
  "status_report c =
     ''RT Status: CPU='' @ (case pinned_core c of None \<Rightarrow> ''none'' | Some k \<Rightarrow> nat_str k)
     @ '', FIFO='' @ (case fifo_priority c of None \<Rightarrow> ''none'' | Some p \<Rightarrow> int_str p)
     @ '', MemLock='' @ (if memory_locked c then ''yes'' else ''no'')"

section \<open>Clock arithmetic\<close>

record timespec =
  tv_sec :: int
  tv_nsec :: int

text \<open>Division and remainder of \<open>i64\<close> truncate towards zero; every sum is checked.\<close>

definition add_ns :: "int \<Rightarrow> timespec \<Rightarrow> timespec exec" where
  "add_ns add ts =
     exec_bind (i64_checked (tv_nsec ts + add)) (\<lambda>nsec.
     exec_bind (i64_checked (tv_sec ts + nsec sdiv 1000000000)) (\<lambda>sec.
       let rem = nsec smod 1000000000
       in if rem < 0 then
            exec_bind (i64_checked (sec - 1)) (\<lambda>sec'. Return \<lparr>tv_sec = sec', tv_nsec = rem + 1000000000\<rparr>)
          else Return \<lparr>tv_sec = sec, tv_nsec = rem\<rparr>))"

definition diff_ns :: "timespec \<Rightarrow> timespec \<Rightarrow> int exec" where
  "diff_ns a b =
     exec_bind (i64_checked (tv_sec a - tv_sec b)) (\<lambda>ds.
     exec_bind (i64_checked (ds * 1000000000)) (\<lambda>ms.
     exec_bind (i64_checked (tv_nsec a - tv_nsec b)) (\<lambda>dn.
       i64_checked (ms + dn))))"

definition ts_ns :: "timespec \<Rightarrow> int" where
  "ts_ns ts = tv_sec ts * 1000000000 + tv_nsec ts"

definition ts_normal :: "timespec \<Rightarrow> bool" where
  "ts_normal ts \<longleftrightarrow> 0 \<le> tv_nsec ts \<and> tv_nsec ts < 1000000000"

section \<open>The monitor thread\<close>

text \<open>
  The update of the maximum by \<open>compare_exchange_weak\<close>: the monitor thread is the only writer, so
  an exchange fails only spuriously, and \<open>n\<close> is how often it did.
\<close>

fun update_max :: "nat \<Rightarrow> u64 \<Rightarrow> u64 \<Rightarrow> u64" where
  "update_max n late cur =
     (if cur < late then (case n of 0 \<Rightarrow> late | Suc k \<Rightarrow> update_max k late cur) else cur)"

text \<open>
  One turn of the loop: \<open>now\<close> is the clock after the sleep until \<open>next\<close>. \<open>fetch_add\<close> wraps.
\<close>

definition monitor_turn ::
  "int \<Rightarrow> timespec \<Rightarrow> nat \<Rightarrow> timespec \<times> rt_monitor_stats \<Rightarrow> (timespec \<times> rt_monitor_stats) exec" where
  "monitor_turn period_ns now fails st =
     (case st of (next, s) \<Rightarrow>
        exec_bind (diff_ns now next) (\<lambda>late_ns.
          let s1 = s\<lparr>rm_samples := rm_samples s + 1\<rparr>;
              s2 = (if period_ns < late_ns then s1\<lparr>rm_misses := rm_misses s1 + 1\<rparr> else s1);
              late = word_of_int (max late_ns 0);
              s3 = s2\<lparr>rm_max_late_ns := update_max fails late (rm_max_late_ns s2)\<rparr>
          in exec_bind (add_ns period_ns next) (\<lambda>next'. Return (next', s3))))"

fun monitor_turns ::
  "int \<Rightarrow> (timespec \<times> nat) list \<Rightarrow> timespec \<times> rt_monitor_stats \<Rightarrow> (timespec \<times> rt_monitor_stats) exec" where
  "monitor_turns p [] st = Return st"
| "monitor_turns p ((now, fails) # rs) st = exec_bind (monitor_turn p now fails st) (monitor_turns p rs)"

text \<open>The thread from its start at the clock reading \<open>start\<close>, for the readings \<open>rs\<close>.\<close>

definition monitor_thread ::
  "duration \<Rightarrow> timespec \<Rightarrow> (timespec \<times> nat) list \<Rightarrow> (timespec \<times> rt_monitor_stats) exec" where
  "monitor_thread period start rs =
     (let period_ns = as_i64 (as_nanos period)
      in exec_bind (add_ns period_ns start) (\<lambda>next.
           monitor_turns period_ns rs (next, rt_monitor_stats_default)))"

section \<open>What the clock arithmetic and the monitor compute\<close>

lemma i64_checked_in: "- (2 ^ 63) \<le> i \<Longrightarrow> i < 2 ^ 63 \<Longrightarrow> i64_checked i = Return i"
  by (simp add: i64_checked_def)

lemma sdiv_smod_bounds:
  fixes n :: int
  shows "n sdiv 1000000000 * 1000000000 + n smod 1000000000 = n"
    "- 1000000000 < n smod 1000000000" "n smod 1000000000 < 1000000000"
  using sdiv_mult_smod_eq[of n 1000000000] smod_int_range[where a = n and b = 1000000000] by auto

lemma add_ns_spec:
  assumes "ts_normal ts" and "\<bar>tv_sec ts\<bar> \<le> 2 ^ 62" and "\<bar>add\<bar> \<le> 2 ^ 62"
  shows "\<exists>ts'. add_ns add ts = Return ts' \<and> ts_normal ts' \<and> ts_ns ts' = ts_ns ts + add"
proof -
  define n where "n = tv_nsec ts + add"
  define q where "q = n sdiv 1000000000"
  define r where "r = n smod 1000000000"
  have qr: "q * 1000000000 + r = n" "- 1000000000 < r" "r < 1000000000"
    using sdiv_smod_bounds[of n] by (simp_all add: q_def r_def)
  have n: "i64_checked n = Return n"
    using assms by (intro i64_checked_in) (auto simp: n_def ts_normal_def abs_le_iff)
  have sec: "i64_checked (tv_sec ts + q) = Return (tv_sec ts + q)"
    "i64_checked (tv_sec ts + q - 1) = Return (tv_sec ts + q - 1)"
    using assms qr by (intro i64_checked_in; auto simp: n_def ts_normal_def abs_le_iff)+
  show ?thesis
    using qr n sec
    by (auto simp: add_ns_def ts_normal_def ts_ns_def Let_def q_def[symmetric] r_def[symmetric] n_def[symmetric])
qed

lemma diff_ns_spec:
  assumes "ts_normal a" "ts_normal b" "\<bar>tv_sec a - tv_sec b\<bar> \<le> 2 ^ 32"
  shows "diff_ns a b = Return (ts_ns a - ts_ns b)"
  using assms by (auto simp: diff_ns_def i64_checked_def ts_normal_def ts_ns_def abs_le_iff)

lemma update_max_eq: "update_max n late cur = max cur late"
  by (induction n late cur rule: update_max.induct) (auto simp: max_def split: nat.splits)

declare update_max.simps [simp del]

text \<open>
  The lateness of each reading against the absolute deadlines \<open>d\<close>, \<open>d + p\<close>, \<open>d + 2 p\<close>, ...
\<close>

fun lateness :: "int \<Rightarrow> int \<Rightarrow> timespec list \<Rightarrow> int list" where
  "lateness p d [] = []"
| "lateness p d (now # rs) = (ts_ns now - d) # lateness p (d + p) rs"

definition clock_ok :: "timespec \<Rightarrow> bool" where
  "clock_ok ts \<longleftrightarrow> ts_normal ts \<and> 0 \<le> tv_sec ts \<and> tv_sec ts \<le> 2 ^ 32"

lemma clock_ok_ns: "ts_normal ts \<Longrightarrow> clock_ok ts \<longleftrightarrow> 0 \<le> ts_ns ts \<and> ts_ns ts < (2 ^ 32 + 1) * 1000000000"
  by (auto simp: clock_ok_def ts_normal_def ts_ns_def)

lemma monitor_turn_spec:
  assumes "clock_ok now" "clock_ok next" "0 \<le> p" "p \<le> 2 ^ 62"
  shows "\<exists>next'. monitor_turn p now fails (next, s) = Return (next',
      \<lparr>rm_samples = rm_samples s + 1,
       rm_misses = (if p < ts_ns now - ts_ns next then rm_misses s + 1 else rm_misses s),
       rm_max_late_ns = max (rm_max_late_ns s) (word_of_int (max (ts_ns now - ts_ns next) 0))\<rparr>) \<and>
    ts_normal next' \<and> ts_ns next' = ts_ns next + p"
proof -
  have d: "diff_ns now next = Return (ts_ns now - ts_ns next)"
    using assms by (intro diff_ns_spec) (auto simp: clock_ok_def)
  obtain next' where "add_ns p next = Return next'" "ts_normal next'" "ts_ns next' = ts_ns next + p"
    using add_ns_spec[of "next" p] assms by (auto simp: clock_ok_def)
  with d show ?thesis by (auto simp: monitor_turn_def update_max_eq Let_def)
qed

definition monitor_of :: "int \<Rightarrow> int list \<Rightarrow> rt_monitor_stats \<Rightarrow> rt_monitor_stats \<Rightarrow> bool" where
  "monitor_of p ls s s' \<longleftrightarrow>
     rm_samples s' = rm_samples s + of_nat (length ls) \<and>
     rm_misses s' = rm_misses s + of_nat (length (filter (\<lambda>l. p < l) ls)) \<and>
     rm_max_late_ns s' = fold (\<lambda>l m. max m (word_of_int (max l 0))) ls (rm_max_late_ns s)"

lemma monitor_turns_spec:
  assumes "0 \<le> p" "p \<le> 2 ^ 62"
  shows "\<forall>r \<in> set rs. clock_ok (fst r) \<Longrightarrow> clock_ok next \<Longrightarrow>
    ts_ns next + int (length rs) * p < (2 ^ 32 + 1) * 1000000000 \<Longrightarrow>
    \<exists>next' s'. monitor_turns p rs (next, s) = Return (next', s') \<and> ts_normal next' \<and>
      ts_ns next' = ts_ns next + int (length rs) * p \<and>
      monitor_of p (lateness p (ts_ns next) (map fst rs)) s s'"
proof (induction rs arbitrary: "next" s)
  case Nil
  then show ?case by (simp add: monitor_of_def clock_ok_def)
next
  case (Cons r rs)
  obtain now fails where r: "r = (now, fails)" by fastforce
  let ?l = "ts_ns now - ts_ns next"
  let ?s1 = "\<lparr>rm_samples = rm_samples s + 1,
       rm_misses = (if p < ?l then rm_misses s + 1 else rm_misses s),
       rm_max_late_ns = max (rm_max_late_ns s) (word_of_int (max ?l 0))\<rparr>"
  obtain next1 where n1: "monitor_turn p now fails (next, s) = Return (next1, ?s1)" "ts_normal next1"
    "ts_ns next1 = ts_ns next + p"
    using monitor_turn_spec[of now "next" p fails s] Cons.prems assms r by auto
  have len: "int (length (r # rs)) * p = p + int (length rs) * p" by (simp add: algebra_simps)
  have bound: "ts_ns next1 + int (length rs) * p < (2 ^ 32 + 1) * 1000000000"
    using Cons.prems(3) n1(3) len by simp
  have "0 \<le> int (length rs) * p" using assms(1) by simp
  then have "ts_ns next1 < (2 ^ 32 + 1) * 1000000000" using bound by linarith
  moreover have "0 \<le> ts_ns next" using Cons.prems(2) by (auto simp: clock_ok_def ts_normal_def ts_ns_def)
  then have "0 \<le> ts_ns next1" using n1(3) assms(1) by linarith
  ultimately have ok: "clock_ok next1" using clock_ok_ns[OF n1(2)] by simp
  have "\<forall>r \<in> set rs. clock_ok (fst r)" using Cons.prems(1) by simp
  from Cons.IH[OF this ok bound, of ?s1] obtain next' s' where
    "monitor_turns p rs (next1, ?s1) = Return (next', s')" "ts_normal next'"
    "ts_ns next' = ts_ns next1 + int (length rs) * p"
    "monitor_of p (lateness p (ts_ns next1) (map fst rs)) ?s1 s'" by blast
  with n1 len show ?case by (auto simp: r monitor_of_def)
qed

end
