(* ===== verification/Rt_Instances.thy ===== *)
theory Rt_Instances
  imports Rt_Guard
begin

text \<open>
  The two real-time services of the sources: \<open>ServiceA\<close> (\<open>services/service_a.rs\<close>) and
  \<open>PositionSyncService\<close> with its \<open>AtomicPosition\<close> (\<open>services/position_sync.rs\<close>).
\<close>

section \<open>ServiceA\<close>

record service_a =
  sa_config :: rt_config
  sa_counter :: u64

definition service_a_new :: service_a where
  "service_a_new = \<lparr>sa_config = rt_config_default, sa_counter = 0\<rparr>"

definition service_a_with_config :: "rt_config \<Rightarrow> service_a \<Rightarrow> service_a" where
  "service_a_with_config c s = s\<lparr>sa_config := c\<rparr>"

text \<open>\<open>try_send\<close> is that of the event channel; its result is ignored.\<close>

definition service_a_tick ::
  "('j engine_event \<Rightarrow> 'ch \<Rightarrow> bool \<times> 'ch) \<Rightarrow> 'ch rt_context \<Rightarrow> service_a
   \<Rightarrow> ((rt_error, unit) result \<times> service_a \<times> 'ch rt_context) exec" where
  "service_a_tick try_send ctx s =
     exec_bind (incr (sa_counter s)) (\<lambda>n.
       let v = get_speed (ctx_props ctx);
           ch = (if n mod 50 = 0 then snd (try_send (SetSpeed (f64_add v (f64_lit 5 1))) (ctx_events ctx))
                 else ctx_events ctx)
       in Return (Ok (), s\<lparr>sa_counter := n\<rparr>, ctx\<lparr>ctx_events := ch\<rparr>))"

definition service_a_service :: "('j engine_event \<Rightarrow> 'ch \<Rightarrow> bool \<times> 'ch) \<Rightarrow> (service_a, 'ch) rt_service" where
  "service_a_service try_send =
     \<lparr>svc_name = \<lambda>_. ''ServiceA'', svc_config = sa_config, svc_init = default_init,
      svc_tick = service_a_tick try_send, svc_shutdown = default_shutdown\<rparr>"

text \<open>Ticks on a sequence of property values.\<close>

fun service_a_run ::
  "('j engine_event \<Rightarrow> 'ch \<Rightarrow> bool \<times> 'ch) \<Rightarrow> properties list \<Rightarrow> service_a \<Rightarrow> 'ch \<Rightarrow> (service_a \<times> 'ch) exec" where
  "service_a_run try_send [] s ch = Return (s, ch)"
| "service_a_run try_send (p # ps) s ch =
     exec_bind (service_a_tick try_send \<lparr>ctx_props = p, ctx_events = ch\<rparr> s)
       (\<lambda>(_, s', ctx). service_a_run try_send ps s' (ctx_events ctx))"

text \<open>The events of the ticks \<open>k + 1\<close>, \<open>k + 2\<close>, ...: one at every fiftieth tick.\<close>

fun service_a_events :: "nat \<Rightarrow> properties list \<Rightarrow> 'j engine_event list" where
  "service_a_events k [] = []"
| "service_a_events k (p # ps) =
     (if 50 dvd Suc k then SetSpeed (f64_add (get_speed p) (f64_lit 5 1)) # service_a_events (Suc k) ps
      else service_a_events (Suc k) ps)"

lemma service_a_events_length: "length (service_a_events k ps) = (k + length ps) div 50 - k div 50"
proof (induction k ps rule: service_a_events.induct)
  case (2 k p ps)
  have "Suc k div 50 = k div 50 + (if 50 dvd Suc k then 1 else 0)"
    by (auto simp: div_Suc dvd_eq_mod_eq_0)
  moreover have "Suc k div 50 \<le> (Suc k + length ps) div 50" by (rule div_le_mono) simp
  ultimately show ?case using 2 by (cases "50 dvd Suc k") (auto simp: Suc_diff_Suc)
qed simp

lemma service_a_run_spec:
  "unat (sa_counter s) + length ps < 2 ^ 64 \<Longrightarrow>
   \<exists>s'. service_a_run try_send ps s ch =
      Return (s', fold (\<lambda>e ch. snd (try_send e ch)) (service_a_events (unat (sa_counter s)) ps) ch) \<and>
     unat (sa_counter s') = unat (sa_counter s) + length ps"
proof (induction ps arbitrary: s ch)
  case Nil
  then show ?case by simp
next
  case (Cons p ps)
  have n: "incr (sa_counter s) = Return (sa_counter s + 1)"
    "unat (sa_counter s + 1) = Suc (unat (sa_counter s))"
    using incr_below[of "sa_counter s" "2 ^ 64 - 1"] Cons.prems by simp_all
  have dvd: "(sa_counter s + 1) mod 50 = 0 \<longleftrightarrow> 50 dvd Suc (unat (sa_counter s))"
    by (simp add: word_eq_iff_unsigned unat_mod n(2) dvd_eq_mod_eq_0 flip: unat_eq_zero)
  let ?s = "s\<lparr>sa_counter := sa_counter s + 1\<rparr>"
  have "unat (sa_counter ?s) + length ps < 2 ^ 64" using Cons.prems n(2) by simp
  from Cons.IH[OF this] show ?case
    using n dvd by (simp add: service_a_tick_def Let_def)
qed

section \<open>The atomic position\<close>

text \<open>Each coordinate is an atomic \<open>u64\<close> of fixed-point thousandths, offset by a million.\<close>

definition to_fixed :: "f64 \<Rightarrow> u64" where
  "to_fixed v = f64_to_u64 (f64_mul (f64_add v (f64_lit 1000000 0)) (f64_lit 1000 0))"

definition from_fixed :: "u64 \<Rightarrow> f64" where
  "from_fixed w = f64_sub (f64_div (f64_of_u64 w) (f64_lit 1000 0)) (f64_lit 1000000 0)"

record atomic_position =
  ap_x :: u64
  ap_y :: u64
  ap_z :: u64

definition atomic_position_new :: "f64 \<Rightarrow> f64 \<Rightarrow> f64 \<Rightarrow> atomic_position" where
  "atomic_position_new x y z = \<lparr>ap_x = to_fixed x, ap_y = to_fixed y, ap_z = to_fixed z\<rparr>"

text \<open>
  \<open>store\<close> writes and \<open>load\<close> reads the three coordinates one after another; each access is atomic,
  the whole is not. \<open>load\<close> on a position nobody writes meanwhile, and the single accesses.
\<close>

definition ap_load :: "atomic_position \<Rightarrow> f64 \<times> f64 \<times> f64" where
  "ap_load a = (from_fixed (ap_x a), from_fixed (ap_y a), from_fixed (ap_z a))"

definition ap_store :: "f64 \<Rightarrow> f64 \<Rightarrow> f64 \<Rightarrow> atomic_position \<Rightarrow> atomic_position" where
  "ap_store x y z a =
     (let a1 = a\<lparr>ap_x := to_fixed x\<rparr>; a2 = a1\<lparr>ap_y := to_fixed y\<rparr> in a2\<lparr>ap_z := to_fixed z\<rparr>)"

datatype ap_access = StoreX f64 | StoreY f64 | StoreZ f64 | LoadX | LoadY | LoadZ

fun ap_run :: "ap_access list \<Rightarrow> atomic_position \<Rightarrow> f64 list \<times> atomic_position" where
  "ap_run [] a = ([], a)"
| "ap_run (StoreX v # as) a = ap_run as (a\<lparr>ap_x := to_fixed v\<rparr>)"
| "ap_run (StoreY v # as) a = ap_run as (a\<lparr>ap_y := to_fixed v\<rparr>)"
| "ap_run (StoreZ v # as) a = ap_run as (a\<lparr>ap_z := to_fixed v\<rparr>)"
| "ap_run (LoadX # as) a = (case ap_run as a of (vs, a') \<Rightarrow> (from_fixed (ap_x a) # vs, a'))"
| "ap_run (LoadY # as) a = (case ap_run as a of (vs, a') \<Rightarrow> (from_fixed (ap_y a) # vs, a'))"
| "ap_run (LoadZ # as) a = (case ap_run as a of (vs, a') \<Rightarrow> (from_fixed (ap_z a) # vs, a'))"

section \<open>PositionSyncService\<close>

record position_sync_service =
  ps_name :: string
  ps_config :: rt_config
  ps_last_synced :: "f64 \<times> f64 \<times> f64"
  ps_threshold :: f64
  ps_sync_count :: u64
  ps_skip_count :: u64

definition position_sync_new :: "string \<Rightarrow> u64 \<Rightarrow> position_sync_service" where
  "position_sync_new name us =
     \<lparr>ps_name = name, ps_config = rt_config_new us us (us div 2),
      ps_last_synced = (f64_zero False, f64_zero False, f64_zero False), ps_threshold = f64_lit 1 3,
      ps_sync_count = 0, ps_skip_count = 0\<rparr>"

definition with_threshold :: "f64 \<Rightarrow> position_sync_service \<Rightarrow> position_sync_service" where
  "with_threshold t s = s\<lparr>ps_threshold := t\<rparr>"

definition position_sync_with_config :: "rt_config \<Rightarrow> position_sync_service \<Rightarrow> position_sync_service" where
  "position_sync_with_config c s = s\<lparr>ps_config := c\<rparr>"

definition position_changed :: "position_sync_service \<Rightarrow> f64 \<times> f64 \<times> f64 \<Rightarrow> bool" where
  "position_changed s new_pos =
     (case (ps_last_synced s, new_pos) of
        ((lx, ly, lz), (nx, ny, nz)) \<Rightarrow>
          (let dx = f64_abs (f64_sub nx lx); dy = f64_abs (f64_sub ny ly); dz = f64_abs (f64_sub nz lz)
           in f64_less (ps_threshold s) dx \<or> f64_less (ps_threshold s) dy \<or> f64_less (ps_threshold s) dz))"

text \<open>One tick, on the position that \<open>load\<close> returned.\<close>

definition position_sync_tick ::
  "f64 \<times> f64 \<times> f64 \<Rightarrow> position_sync_service \<Rightarrow> ((rt_error, unit) result \<times> position_sync_service) exec" where
  "position_sync_tick new_pos s =
     (if \<not> position_changed s new_pos then
        exec_bind (incr (ps_skip_count s)) (\<lambda>n. Return (Ok (), s\<lparr>ps_skip_count := n\<rparr>))
      else
        (let s1 = s\<lparr>ps_last_synced := new_pos\<rparr>
         in exec_bind (incr (ps_sync_count s1)) (\<lambda>n. Return (Ok (), s1\<lparr>ps_sync_count := n\<rparr>))))"

fun position_sync_run :: "(f64 \<times> f64 \<times> f64) list \<Rightarrow> position_sync_service \<Rightarrow> position_sync_service exec" where
  "position_sync_run [] s = Return s"
| "position_sync_run (p # ps) s =
     exec_bind (position_sync_tick p s) (\<lambda>(_, s'). position_sync_run ps s')"

lemma f64_abs_self_sub [simp]:
  "f64_less t (f64_zero False) \<or> \<not> f64_less t (f64_abs (f64_sub a a))"
proof -
  have z: "f64_abs (f64_zero False) = f64_zero False" by (simp add: f64_abs_def f64_zero_def f64_pack_def)
  have n: "f64_is_nan (f64_abs f64_nan)"
    by (simp add: f64_abs_def f64_nan_def f64_pack_def f64_is_nan_def f64_decode_def Let_def)
  show ?thesis using f64_sub_self[of a] z n f64_less_nan(2)[OF n] by auto
qed

lemma position_sync_tick_spec:
  assumes "unat (ps_sync_count s) + unat (ps_skip_count s) < 2 ^ 64 - 1"
    and "\<not> f64_less (ps_threshold s) (f64_zero False)"
  shows "\<exists>s'. position_sync_tick p s = Return (Ok (), s') \<and>
    ps_threshold s' = ps_threshold s \<and> \<not> position_changed s' p \<and>
    (if position_changed s p
     then ps_last_synced s' = p \<and> unat (ps_sync_count s') = Suc (unat (ps_sync_count s)) \<and>
       ps_skip_count s' = ps_skip_count s
     else ps_last_synced s' = ps_last_synced s \<and> ps_sync_count s' = ps_sync_count s \<and>
       unat (ps_skip_count s') = Suc (unat (ps_skip_count s)))"
proof -
  obtain x y z where p: "p = (x, y, z)" by (cases p)
  have c: "incr (ps_sync_count s) = Return (ps_sync_count s + 1)"
    "unat (ps_sync_count s + 1) = Suc (unat (ps_sync_count s))"
    "incr (ps_skip_count s) = Return (ps_skip_count s + 1)"
    "unat (ps_skip_count s + 1) = Suc (unat (ps_skip_count s))"
    using incr_below[of "ps_sync_count s" "2 ^ 64 - 1"] incr_below[of "ps_skip_count s" "2 ^ 64 - 1"]
      assms(1) by simp_all
  have "\<not> f64_less (ps_threshold s) (f64_abs (f64_sub a a))" for a
    using assms(2) f64_abs_self_sub by blast
  then show ?thesis
    using c by (cases "position_changed s p") (auto simp: position_sync_tick_def p position_changed_def Let_def)
qed

text \<open>The number of syncs over the positions \<open>ps\<close>: how often a position moved beyond the threshold.\<close>

lemma position_sync_run_spec:
  "unat (ps_sync_count s) + unat (ps_skip_count s) + length ps < 2 ^ 64 \<Longrightarrow>
   \<not> f64_less (ps_threshold s) (f64_zero False) \<Longrightarrow>
   \<exists>s'. position_sync_run ps s = Return s' \<and> ps_threshold s' = ps_threshold s \<and>
     unat (ps_sync_count s') + unat (ps_skip_count s') =
       unat (ps_sync_count s) + unat (ps_skip_count s) + length ps \<and>
     (ps \<noteq> [] \<longrightarrow> \<not> position_changed s' (last ps)) \<and>
     (ps_last_synced s' = ps_last_synced s \<or> ps_last_synced s' \<in> set ps)"
proof (induction ps arbitrary: s)
  case Nil
  then show ?case by simp
next
  case (Cons p ps)
  obtain s1 where s1: "position_sync_tick p s = Return (Ok (), s1)" "ps_threshold s1 = ps_threshold s"
    "\<not> position_changed s1 p"
    "unat (ps_sync_count s1) + unat (ps_skip_count s1) = Suc (unat (ps_sync_count s) + unat (ps_skip_count s))"
    "ps_last_synced s1 = ps_last_synced s \<or> ps_last_synced s1 = p"
    using position_sync_tick_spec[of s p] Cons.prems by (auto split: if_splits)
  from Cons.IH[of s1] Cons.prems s1 show ?case by (cases ps) auto
qed

end
