(* ===== verification/Rt_Properties.thy ===== *)
theory Rt_Properties
  imports Rt_Checker Rt_Instances
begin

text \<open>
  The properties of the real-time layer: the jitter statistics, the monitor thread's clock, and the
  two services.
\<close>

section \<open>Jitter statistics\<close>

text \<open>
  After recording any fewer than \<open>2^64\<close> samples, the jitter statistics are those of the samples:
  their number, their minimum and maximum, and in each histogram bucket the number of samples of
  that ten-microsecond class, so that the buckets add up to the number of samples.
\<close>

theorem jitter_histogram_counts:
  assumes "length js < 2 ^ 64"
  shows "\<exists>s. jitter_run js jitter_stats_new = Return s \<and>
    unat (js_samples s) = length js \<and> js_min_us s = fold min js (- 1) \<and> js_max_us s = fold max js 0 \<and>
    map unat (js_histogram s) = map (\<lambda>b. length (filter (\<lambda>j. min (unat j div 10) 9 = b) js)) [0..<10] \<and>
    sum_list (map unat (js_histogram s)) = length js"
proof -
  obtain s where s: "jitter_run js jitter_stats_new = Return s" "jitter_of js s"
    using jitter_run_spec[OF jitter_of_new, of js] assms by auto
  let ?count = "\<lambda>b. length (filter (\<lambda>j. min (unat j div 10) 9 = b) js)"
  have hist: "map unat (js_histogram s) = map ?count [0..<10]"
    using s(2) by (intro nth_equalityI) (auto simp: jitter_of_def jitter_bucket_def)
  have "(\<Sum>b < 10. ?count b) = length js"
  proof (induction js)
    case (Cons j js)
    have "(\<Sum>b < 10. length (filter (\<lambda>j. min (unat j div 10) 9 = b) (j # js))) =
      (\<Sum>b < 10. (if b = min (unat j div 10) 9 then 1 else 0) + length (filter (\<lambda>j. min (unat j div 10) 9 = b) js))"
      by (intro sum.cong) auto
    also have "\<dots> = 1 + length js"
      using Cons.IH by (simp add: sum.distrib)
    finally show ?case by simp
  qed simp
  then have "sum_list (map ?count [0..<10]) = length js"
    by (simp add: interv_sum_list_conv_sum_set_nat atLeast0LessThan)
  then show ?thesis using s hist by (auto simp: jitter_of_def)
qed

theorem jitter_histogram_counts_witness:
  "\<exists>s. jitter_run [5, 15, 25, 1000] jitter_stats_new = Return s \<and> unat (js_samples s) = 4 \<and>
    js_min_us s = 5 \<and> js_max_us s = 1000 \<and> map unat (js_histogram s) = [1, 1, 1, 0, 0, 0, 0, 0, 0, 1]"
  using jitter_histogram_counts[of "[5, 15, 25, 1000]"]
  by (auto simp: min_def max_def word_le_nat_alt unsigned_minus_1_eq_mask mask_eq_exp_minus_1 upt_rec)

section \<open>The monitor thread\<close>

text \<open>
  C28. The monitor does not drift: its deadlines are the absolute times start, start plus one period,
  start plus two, ..., whatever the lateness of each wake-up, and \<open>timespec\<close> stays normalised. Its
  counters are the number of wake-ups, the number of those later than a period and the largest
  lateness. This holds for clocks below \<open>2^32\<close> seconds, where no \<open>i64\<close> operation overflows.
\<close>

theorem monitor_does_not_drift:
  assumes "clock_ok start" and "as_nanos period \<le> 2 ^ 62" and "\<forall>r \<in> set rs. clock_ok (fst r)"
    and "ts_ns start + int (Suc (length rs)) * int (as_nanos period) < (2 ^ 32 + 1) * 1000000000"
  shows "\<exists>next s. monitor_thread period start rs = Return (next, s) \<and> ts_normal next \<and>
    ts_ns next = ts_ns start + int (Suc (length rs)) * int (as_nanos period) \<and>
    (let p = int (as_nanos period); ls = lateness p (ts_ns start + p) (map fst rs)
     in rm_samples s = of_nat (length rs) \<and> rm_misses s = of_nat (length (filter (\<lambda>l. p < l) ls)) \<and>
        rm_max_late_ns s = fold (\<lambda>l m. max m (word_of_int (max l 0))) ls 0)"
proof -
  let ?p = "int (as_nanos period)"
  have p: "as_i64 (as_nanos period) = ?p" "0 \<le> ?p" "?p \<le> 2 ^ 62"
    using assms(2) by (auto intro!: as_i64_id)
  obtain n1 where n1: "add_ns ?p start = Return n1" "ts_normal n1" "ts_ns n1 = ts_ns start + ?p"
    using add_ns_spec[of start ?p] assms(1) p by (auto simp: clock_ok_def)
  have all: "ts_ns n1 + int (length rs) * ?p = ts_ns start + int (Suc (length rs)) * ?p"
    using n1(3) by (simp add: algebra_simps)
  have "0 \<le> ts_ns start" using assms(1) by (auto simp: clock_ok_def ts_normal_def ts_ns_def)
  moreover have "0 \<le> int (length rs) * ?p" by simp
  then have "ts_ns n1 < (2 ^ 32 + 1) * 1000000000" using assms(4) all by linarith
  ultimately have "clock_ok n1" using clock_ok_ns[OF n1(2)] n1(3) p(2) by simp
  moreover have "ts_ns n1 + int (length rs) * ?p < (2 ^ 32 + 1) * 1000000000" using all assms(4) by simp
  ultimately obtain n2 s where run: "monitor_turns ?p rs (n1, rt_monitor_stats_default) = Return (n2, s)"
    "ts_normal n2" "ts_ns n2 = ts_ns n1 + int (length rs) * ?p"
    "monitor_of ?p (lateness ?p (ts_ns n1) (map fst rs)) rt_monitor_stats_default s"
    using monitor_turns_spec[OF p(2,3) assms(3)] by blast
  have len: "length (lateness q d ts) = length ts" for q d ts
    by (induction q d ts rule: lateness.induct) simp_all
  have "monitor_thread period start rs = Return (n2, s)"
    using run(1) n1(1) p(1) by (simp add: monitor_thread_def Let_def)
  with run(2,3,4) n1(3) all len show ?thesis
    by (simp add: monitor_of_def rt_monitor_stats_default_def Let_def)
qed

theorem monitor_does_not_drift_witness:
  "\<exists>next s. monitor_thread (from_millis 10) \<lparr>tv_sec = 5, tv_nsec = 995000000\<rparr>
      [(\<lparr>tv_sec = 6, tv_nsec = 20000000\<rparr>, 2), (\<lparr>tv_sec = 6, tv_nsec = 15500000\<rparr>, 0)] = Return (next, s) \<and>
    ts_normal next \<and> ts_ns next = 6025000000 \<and>
    rm_samples s = 2 \<and> rm_misses s = 1 \<and> rm_max_late_ns s = 15000000"
  using monitor_does_not_drift[of "\<lparr>tv_sec = 5, tv_nsec = 995000000\<rparr>" "from_millis 10"
      "[(\<lparr>tv_sec = 6, tv_nsec = 20000000\<rparr>, 2), (\<lparr>tv_sec = 6, tv_nsec = 15500000\<rparr>, 0)]"]
  by (simp add: clock_ok_def ts_normal_def ts_ns_def from_millis_def Let_def max_def word_less_nat_alt
      word_le_nat_alt)

section \<open>The services\<close>

text \<open>
  Over any fewer than \<open>2^64\<close> ticks, \<open>ServiceA\<close> sends exactly one \<open>SetSpeed\<close> event at every fiftieth
  tick, with the speed that tick read plus one half, offers them to the channel in order, and
  counts every tick; on a channel that keeps what it is offered these are all its events.
\<close>

theorem service_a_sends_every_fiftieth:
  assumes "length ps < 2 ^ 64"
  shows "\<exists>s. service_a_run (\<lambda>e ch. (True, ch @ [e])) ps service_a_new [] = Return (s, service_a_events 0 ps :: 'j engine_event list) \<and>
    unat (sa_counter s) = length ps \<and> length (service_a_events 0 ps :: 'j engine_event list) = length ps div 50"
proof -
  have keep: "fold (\<lambda>e ch. snd (True, ch @ [e])) es ch = ch @ es" for es ch :: "'j engine_event list"
    by (induction es arbitrary: ch) simp_all
  obtain s where "service_a_run (\<lambda>e ch. (True, ch @ [e])) ps service_a_new [] =
      Return (s, fold (\<lambda>e ch. snd (True, ch @ [e])) (service_a_events 0 ps :: 'j engine_event list) [])"
    "unat (sa_counter s) = length ps"
    using service_a_run_spec[of service_a_new ps "\<lambda>e ch. (True, ch @ [e :: 'j engine_event])" "[]"] assms
    by (auto simp: service_a_new_def)
  then show ?thesis using service_a_events_length[of 0 ps] unfolding keep by simp
qed

theorem service_a_sends_every_fiftieth_witness:
  "\<exists>s. service_a_run (\<lambda>e ch. (True, ch @ [e])) (replicate 100 properties_new) service_a_new [] =
      Return (s, service_a_events 0 (replicate 100 properties_new) :: unit engine_event list) \<and> unat (sa_counter s) = 100 \<and>
    length (service_a_events 0 (replicate 100 properties_new) :: unit engine_event list) = 2"
  using service_a_sends_every_fiftieth[of "replicate 100 properties_new", where ?'j = unit] by simp

text \<open>
  C35. The position sync keeps its copy close to the source: with a threshold that is not negative,
  after any fewer than \<open>2^64\<close> ticks the synced position is within the threshold of the last position
  read in every coordinate (as \<open>f64\<close> compares them), it is a position that was read or the initial
  one, and every tick was counted once, as a sync or as a skip.
\<close>

theorem position_sync_stays_close:
  assumes "length ps < 2 ^ 64" and "\<not> f64_less t (f64_zero False)"
  shows "\<exists>s. position_sync_run ps (with_threshold t (position_sync_new name us)) = Return s \<and>
    (ps \<noteq> [] \<longrightarrow> \<not> position_changed s (last ps)) \<and>
    (ps_last_synced s \<in> set ps \<or> ps_last_synced s = (f64_zero False, f64_zero False, f64_zero False)) \<and>
    unat (ps_sync_count s) + unat (ps_skip_count s) = length ps"
  using position_sync_run_spec[of "with_threshold t (position_sync_new name us)" ps] assms
  by (auto simp: with_threshold_def position_sync_new_def)

theorem position_sync_stays_close_witness:
  "\<exists>s. position_sync_run [(f64_lit 1 0, f64_lit 2 0, f64_lit 3 0), (f64_lit 1 0, f64_lit 2 0, f64_lit 4 0)]
      (with_threshold (f64_zero False) (position_sync_new ''p'' 10000)) = Return s \<and>
    \<not> position_changed s (f64_lit 1 0, f64_lit 2 0, f64_lit 4 0) \<and>
    unat (ps_sync_count s) + unat (ps_skip_count s) = 2"
  using position_sync_stays_close[of "[(f64_lit 1 0, f64_lit 2 0, f64_lit 3 0), (f64_lit 1 0, f64_lit 2 0, f64_lit 4 0)]"
      "f64_zero False" "''p''" 10000]
  by auto

text \<open>
  C36. A position loaded while it is being stored is torn in every possible way: over the
  interleavings of one \<open>store\<close> with one \<open>load\<close>, the loaded triples are exactly the eight mixtures of
  old and new coordinates. Nothing else is ever read, and the store is complete afterwards.
\<close>

theorem load_during_store_tears:
  "(\<lambda>as. ap_run as a) ` shuffles [StoreX x, StoreY y, StoreZ z] [LoadX, LoadY, LoadZ] =
     {([vx, vy, vz], ap_store x y z a) | vx vy vz.
        vx \<in> {from_fixed (ap_x a), from_fixed (to_fixed x)} \<and>
        vy \<in> {from_fixed (ap_y a), from_fixed (to_fixed y)} \<and>
        vz \<in> {from_fixed (ap_z a), from_fixed (to_fixed z)}}"
  by (auto simp: ap_store_def Let_def)

end
