(* ===== verification/Service_Hierarchy.thy ===== *)
theory Service_Hierarchy
  imports Rust_Str "HOL-Library.Multiset"
begin

text \<open>
  \<open>services/servicemanagement/src/hierarchy.rs\<close>: the tree of service nodes and the service
  hierarchy over it.

  The \<open>Arc<TreeNode>\<close> objects live in an arena, the list of all nodes ever made; a reference is an
  index. \<open>children\<close> and \<open>parent\<close> are the locked fields of a node. The recursive traversals take
  fuel, since the fields alone do not bound their depth; that the size of the arena is enough is
  proved for every tree the hierarchy can build. JSON metadata is \<open>'j\<close>, \<open>None\<close> is \<open>Value::Null\<close>.
\<close>

section \<open>Service nodes\<close>

datatype service_type = RealTime | NonRealTime | Container

record 'j service_node =
  sn_name :: string
  sn_type :: service_type
  sn_priority :: u32
  sn_enabled :: bool
  sn_description :: "string option"
  sn_metadata :: "'j option"

definition service_node_new :: "string \<Rightarrow> service_type \<Rightarrow> 'j service_node" where
  "service_node_new name ty =
     \<lparr>sn_name = name, sn_type = ty, sn_priority = 0, sn_enabled = True, sn_description = None,
      sn_metadata = None\<rparr>"

definition with_priority :: "u32 \<Rightarrow> 'j service_node \<Rightarrow> 'j service_node" where
  "with_priority p n = n\<lparr>sn_priority := p\<rparr>"

definition with_description :: "string \<Rightarrow> 'j service_node \<Rightarrow> 'j service_node" where
  "with_description d n = n\<lparr>sn_description := Some d\<rparr>"

definition container_node :: "string \<Rightarrow> 'j service_node" where
  "container_node name = service_node_new name Container"

definition rt_node :: "string \<Rightarrow> 'j service_node" where
  "rt_node name = service_node_new name RealTime"

definition non_rt_node :: "string \<Rightarrow> 'j service_node" where
  "non_rt_node name = service_node_new name NonRealTime"

section \<open>Tree nodes\<close>

record 'j tree_node =
  tn_data :: "'j service_node"
  tn_children :: "nat list"
  tn_parent :: "nat option"

type_synonym 'j arena = "'j tree_node list"

definition tree_node_new :: "'j service_node \<Rightarrow> 'j arena \<Rightarrow> nat \<times> 'j arena" where
  "tree_node_new data ar = (length ar, ar @ [\<lparr>tn_data = data, tn_children = [], tn_parent = None\<rparr>])"

definition prio :: "'j arena \<Rightarrow> nat \<Rightarrow> u32" where
  "prio ar i = sn_priority (tn_data (ar ! i))"

definition add_child :: "nat \<Rightarrow> nat \<Rightarrow> 'j arena \<Rightarrow> 'j arena" where
  "add_child self child ar =
     (let ar1 = ar[child := (ar ! child)\<lparr>tn_parent := Some self\<rparr>];
          children = tn_children (ar1 ! self);
          priority = prio ar1 child;
          pos = (case position (\<lambda>c. prio ar1 c < priority) children of Some i \<Rightarrow> i | None \<Rightarrow> length children)
      in ar1[self := (ar1 ! self)\<lparr>tn_children := insert_at pos child children\<rparr>])"

definition named :: "'j arena \<Rightarrow> string \<Rightarrow> nat \<Rightarrow> bool" where
  "named ar name i \<longleftrightarrow> sn_name (tn_data (ar ! i)) = name"

definition remove_child :: "nat \<Rightarrow> string \<Rightarrow> 'j arena \<Rightarrow> nat option \<times> 'j arena" where
  "remove_child self name ar =
     (let children = tn_children (ar ! self)
      in case position (named ar name) children of
           Some pos \<Rightarrow>
             (let child = children ! pos;
                  ar1 = ar[self := (ar ! self)\<lparr>tn_children := take pos children @ drop (Suc pos) children\<rparr>];
                  ar2 = ar1[child := (ar1 ! child)\<lparr>tn_parent := None\<rparr>]
              in (Some child, ar2))
         | None \<Rightarrow> (None, ar))"

definition find_child :: "'j arena \<Rightarrow> nat \<Rightarrow> string \<Rightarrow> nat option" where
  "find_child ar self name = List.find (named ar name) (tn_children (ar ! self))"

text \<open>The weak reference upgrades while the parent is alive.\<close>

definition get_parent :: "(nat \<Rightarrow> bool) \<Rightarrow> 'j arena \<Rightarrow> nat \<Rightarrow> nat option" where
  "get_parent alive ar self =
     (case tn_parent (ar ! self) of Some p \<Rightarrow> if alive p then Some p else None | None \<Rightarrow> None)"

definition is_leaf :: "'j arena \<Rightarrow> nat \<Rightarrow> bool" where
  "is_leaf ar self \<longleftrightarrow> tn_children (ar ! self) = []"

definition get_children :: "'j arena \<Rightarrow> nat \<Rightarrow> nat list" where
  "get_children ar self = tn_children (ar ! self)"

fun find_parts :: "'j arena \<Rightarrow> nat \<Rightarrow> string list \<Rightarrow> nat option" where
  "find_parts ar current [] = Some current"
| "find_parts ar current (part # parts) =
     (if named ar part current then find_parts ar current parts
      else
        (case find_child ar current part of
           Some child \<Rightarrow> find_parts ar child parts
         | None \<Rightarrow> None))"

definition find_by_path :: "'j arena \<Rightarrow> nat \<Rightarrow> string \<Rightarrow> nat option" where
  "find_by_path ar self path = find_parts ar self (filter (\<lambda>s. s \<noteq> []) (split_char CHR ''/'' path))"

section \<open>Traversals\<close>

text \<open>The visits of \<open>traverse\<close>: the nodes with their depths, in the order the visitor sees them.\<close>

fun traverse_internal :: "nat \<Rightarrow> 'j arena \<Rightarrow> nat \<Rightarrow> nat \<Rightarrow> ('j service_node \<times> nat) list option" where
  "traverse_internal 0 ar self depth = None"
| "traverse_internal (Suc fuel) ar self depth =
     map_option (\<lambda>vs. (tn_data (ar ! self), depth) # concat vs)
       (those (map (\<lambda>c. traverse_internal fuel ar c (depth + 1)) (tn_children (ar ! self))))"

definition traverse :: "nat \<Rightarrow> 'j arena \<Rightarrow> nat \<Rightarrow> ('j service_node \<times> nat) list option" where
  "traverse fuel ar self = traverse_internal fuel ar self 0"

fun collect_leaves :: "nat \<Rightarrow> 'j arena \<Rightarrow> nat \<Rightarrow> 'j service_node list option" where
  "collect_leaves 0 ar self = None"
| "collect_leaves (Suc fuel) ar self =
     (let children = tn_children (ar ! self)
      in if children = [] then Some [tn_data (ar ! self)]
         else map_option concat (those (map (collect_leaves fuel ar) children)))"

fun services_by_type :: "nat \<Rightarrow> service_type \<Rightarrow> 'j arena \<Rightarrow> nat \<Rightarrow> 'j service_node list option" where
  "services_by_type 0 ty ar self = None"
| "services_by_type (Suc fuel) ty ar self =
     (let d = tn_data (ar ! self);
          own = (if sn_type d = ty \<and> sn_enabled d then [d] else [])
      in map_option (\<lambda>vs. own @ concat vs)
           (those (map (services_by_type fuel ty ar) (tn_children (ar ! self)))))"

section \<open>The service hierarchy\<close>

text \<open>The root is node 0 of the arena.\<close>

definition hierarchy_new :: "'j arena" where
  "hierarchy_new = snd (tree_node_new (container_node ''root'') [])"

definition register :: "string \<Rightarrow> 'j service_node \<Rightarrow> 'j arena \<Rightarrow> bool \<times> 'j arena" where
  "register path service ar =
     (let parent_path = (case rsplit_once CHR ''/'' path of Some (p, _) \<Rightarrow> p | None \<Rightarrow> [])
      in case (if parent_path = [] then Some 0 else find_by_path ar 0 parent_path) of
           None \<Rightarrow> (False, ar)
         | Some parent \<Rightarrow>
             (let (node, ar1) = tree_node_new service ar
              in (True, add_child parent node ar1)))"

definition create_container :: "string \<Rightarrow> string \<Rightarrow> 'j arena \<Rightarrow> bool \<times> 'j arena" where
  "create_container path name ar = register path (container_node name) ar"

definition find_service :: "'j arena \<Rightarrow> string \<Rightarrow> nat option" where
  "find_service ar path = find_by_path ar 0 path"

definition get_rt_services :: "nat \<Rightarrow> 'j arena \<Rightarrow> 'j service_node list option" where
  "get_rt_services fuel ar = services_by_type fuel RealTime ar 0"

definition get_non_rt_services :: "nat \<Rightarrow> 'j arena \<Rightarrow> 'j service_node list option" where
  "get_non_rt_services fuel ar = services_by_type fuel NonRealTime ar 0"

fun type_str :: "service_type \<Rightarrow> string" where
  "type_str RealTime = ''[RT]''"
| "type_str NonRealTime = ''[NonRT]''"
| "type_str Container = ''[Container]''"

definition tree_line :: "'j service_node \<times> nat \<Rightarrow> string" where
  "tree_line v =
     (case v of (node, depth) \<Rightarrow>
        concat (replicate depth ''  '') @ type_str (sn_type node) @ '' '' @ sn_name node
        @ '' (priority: '' @ nat_str (unat (sn_priority node)) @ '')''
        @ (if sn_enabled node then [] else '' (disabled)''))"

definition print_tree :: "nat \<Rightarrow> 'j arena \<Rightarrow> string list option" where
  "print_tree fuel ar = map_option (\<lambda>vs. ''Service Hierarchy:'' # map tree_line vs) (traverse fuel ar 0)"

text \<open>The operations on a hierarchy, as a client may issue them.\<close>

datatype 'j hier_op =
    Register string "'j service_node"
  | CreateContainer string string
  | RemoveChild nat string

fun hier_step :: "'j hier_op \<Rightarrow> 'j arena \<Rightarrow> 'j arena" where
  "hier_step (Register path s) ar = snd (register path s ar)"
| "hier_step (CreateContainer path name) ar = snd (create_container path name ar)"
| "hier_step (RemoveChild i name) ar = (if i < length ar then snd (remove_child i name ar) else ar)"

definition hier_run :: "'j hier_op list \<Rightarrow> 'j arena" where
  "hier_run ops = fold hier_step ops hierarchy_new"

section \<open>The invariant\<close>

definition children_sorted :: "'j arena \<Rightarrow> nat list \<Rightarrow> bool" where
  "children_sorted ar cs \<longleftrightarrow> sorted_wrt (\<lambda>a b. prio ar b \<le> prio ar a) cs"

definition tree_ok :: "'j arena \<Rightarrow> bool" where
  "tree_ok ar \<longleftrightarrow>
     ar \<noteq> [] \<and> tn_parent (ar ! 0) = None \<and>
     (\<forall>i < length ar. \<forall>c \<in> set (tn_children (ar ! i)). i < c \<and> c < length ar \<and> tn_parent (ar ! c) = Some i) \<and>
     (\<forall>i < length ar. distinct (tn_children (ar ! i)) \<and> children_sorted ar (tn_children (ar ! i))) \<and>
     (\<forall>c < length ar. \<forall>p. tn_parent (ar ! c) = Some p \<longrightarrow> p < length ar \<and> c \<in> set (tn_children (ar ! p)))"

text \<open>
  The place \<open>add_child\<close> inserts at: after every sibling of the same or a higher priority, before
  every sibling of a lower one.
\<close>

lemma insert_at_position:
  assumes "children_sorted ar cs" and "pos = (case position (\<lambda>c. prio ar c < p) cs of Some i \<Rightarrow> i | None \<Rightarrow> length cs)"
  shows "insert_at pos x cs = filter (\<lambda>c. p \<le> prio ar c) cs @ x # filter (\<lambda>c. prio ar c < p) cs"
  using assms
proof (induction cs arbitrary: pos)
  case Nil
  then show ?case by (simp add: insert_at_def)
next
  case (Cons c cs)
  show ?case
  proof (cases "prio ar c < p")
    case True
    then have "\<forall>d \<in> set (c # cs). prio ar d < p"
      using Cons.prems(1) by (auto simp: children_sorted_def)
    then have "filter (\<lambda>c. p \<le> prio ar c) (c # cs) = []" "filter (\<lambda>c. prio ar c < p) (c # cs) = c # cs"
      by (auto simp: filter_empty_conv filter_id_conv not_le simp del: filter.simps)
    then show ?thesis using Cons.prems(2) True by (simp add: insert_at_def)
  next
    case False
    let ?pos = "case position (\<lambda>c. prio ar c < p) cs of Some i \<Rightarrow> i | None \<Rightarrow> length cs"
    have "pos = Suc ?pos" using Cons.prems(2) False by (simp split: option.splits)
    moreover have "children_sorted ar cs" using Cons.prems(1) by (simp add: children_sorted_def)
    ultimately show ?thesis using Cons.IH[OF _ refl] False by (simp add: insert_at_def not_less)
  qed
qed

lemma children_sorted_insert:
  assumes "children_sorted ar cs" and "prio ar x = p"
  shows "children_sorted ar (filter (\<lambda>c. p \<le> prio ar c) cs @ x # filter (\<lambda>c. prio ar c < p) cs)"
  using assms
  by (auto simp: children_sorted_def sorted_wrt_append sorted_wrt_filter intro: order.trans less_imp_le)

lemma children_sorted_cong:
  "(\<And>c. c \<in> set cs \<Longrightarrow> prio ar c = prio ar' c) \<Longrightarrow> children_sorted ar cs = children_sorted ar' cs"
  unfolding children_sorted_def by (induction cs) auto

lemma hierarchy_new_ok: "tree_ok hierarchy_new"
  by (simp add: tree_ok_def hierarchy_new_def tree_node_new_def container_node_def service_node_new_def
      children_sorted_def)

lemma tree_okD:
  assumes "tree_ok ar" "i < length ar"
  shows "c \<in> set (tn_children (ar ! i)) \<Longrightarrow> i < c \<and> c < length ar \<and> tn_parent (ar ! c) = Some i"
    "distinct (tn_children (ar ! i))" "children_sorted ar (tn_children (ar ! i))"
    "tn_parent (ar ! i) = Some p \<Longrightarrow> p < length ar \<and> i \<in> set (tn_children (ar ! p))"
  using assms unfolding tree_ok_def by blast+

lemma tree_ok_root: "tree_ok ar \<Longrightarrow> ar \<noteq> [] \<and> tn_parent (ar ! 0) = None"
  by (simp add: tree_ok_def)

lemma tree_okI:
  assumes "ar \<noteq> []" "tn_parent (ar ! 0) = None"
    and "\<And>i c. i < length ar \<Longrightarrow> c \<in> set (tn_children (ar ! i)) \<Longrightarrow> i < c \<and> c < length ar \<and> tn_parent (ar ! c) = Some i"
    and "\<And>i. i < length ar \<Longrightarrow> distinct (tn_children (ar ! i))"
    and "\<And>i. i < length ar \<Longrightarrow> children_sorted ar (tn_children (ar ! i))"
    and "\<And>c p. c < length ar \<Longrightarrow> tn_parent (ar ! c) = Some p \<Longrightarrow> p < length ar \<and> c \<in> set (tn_children (ar ! p))"
  shows "tree_ok ar"
  unfolding tree_ok_def using assms by blast

text \<open>The effect of attaching a fresh node.\<close>

definition attach :: "nat \<Rightarrow> 'j service_node \<Rightarrow> 'j arena \<Rightarrow> 'j arena" where
  "attach p s ar =
     (ar @ [\<lparr>tn_data = s, tn_children = [], tn_parent = Some p\<rparr>])
       [p := (ar ! p)\<lparr>tn_children :=
          filter (\<lambda>c. sn_priority s \<le> prio ar c) (tn_children (ar ! p)) @ length ar #
          filter (\<lambda>c. prio ar c < sn_priority s) (tn_children (ar ! p))\<rparr>]"

lemma add_child_fresh:
  assumes "tree_ok ar" and "p < length ar"
  shows "add_child p (length ar) (snd (tree_node_new s ar)) = attach p s ar"
proof -
  let ?n = "length ar"
  let ?ar1 = "ar @ [\<lparr>tn_data = s, tn_children = [], tn_parent = Some p\<rparr>]"
  let ?cs = "tn_children (ar ! p)"
  have upd: "(snd (tree_node_new s ar))[?n := ((snd (tree_node_new s ar)) ! ?n)\<lparr>tn_parent := Some p\<rparr>] = ?ar1"
    by (simp add: tree_node_new_def)
  have same: "prio ?ar1 c = prio ar c" if "c < ?n" for c using that by (simp add: prio_def nth_append)
  have prion: "prio ?ar1 ?n = sn_priority s" by (simp add: prio_def)
  have cs: "c < ?n" if "c \<in> set ?cs" for c using tree_okD(1)[OF assms that] by simp
  have nth: "?ar1 ! p = ar ! p" using assms(2) by (simp add: nth_append)
  have "children_sorted ?ar1 ?cs"
    using tree_okD(3)[OF assms] children_sorted_cong[of ?cs ?ar1 ar] same cs by blast
  from insert_at_position[OF this refl, of "sn_priority s" ?n]
  have ins: "insert_at (case position (\<lambda>c. prio ?ar1 c < sn_priority s) ?cs of Some i \<Rightarrow> i | None \<Rightarrow> length ?cs) ?n ?cs
    = filter (\<lambda>c. sn_priority s \<le> prio ?ar1 c) ?cs @ ?n # filter (\<lambda>c. prio ?ar1 c < sn_priority s) ?cs" .
  have f: "filter (\<lambda>c. sn_priority s \<le> prio ?ar1 c) ?cs = filter (\<lambda>c. sn_priority s \<le> prio ar c) ?cs"
    "filter (\<lambda>c. prio ?ar1 c < sn_priority s) ?cs = filter (\<lambda>c. prio ar c < sn_priority s) ?cs"
    using same cs by (auto intro!: filter_cong)
  show ?thesis
    by (simp only: add_child_def upd Let_def prion nth ins f attach_def)
qed

lemma attach_nth:
  assumes "p < length ar" "i \<le> length ar"
  shows "attach p s ar ! i =
    (if i = p then (ar ! p)\<lparr>tn_children :=
          filter (\<lambda>c. sn_priority s \<le> prio ar c) (tn_children (ar ! p)) @ length ar #
          filter (\<lambda>c. prio ar c < sn_priority s) (tn_children (ar ! p))\<rparr>
     else if i = length ar then \<lparr>tn_data = s, tn_children = [], tn_parent = Some p\<rparr>
     else ar ! i)"
  using assms by (auto simp: attach_def nth_list_update nth_append)

lemma attach_length [simp]: "length (attach p s ar) = Suc (length ar)"
  by (simp add: attach_def)

lemma attach_prio:
  assumes "p < length ar" "c < length ar"
  shows "prio (attach p s ar) c = prio ar c"
  using attach_nth[OF assms(1), of c s] assms by (simp add: prio_def)

lemma attach_children:
  assumes "tree_ok ar" "p < length ar" "i \<le> length ar"
  shows "set (tn_children (attach p s ar ! i)) =
    (if i = p then insert (length ar) (set (tn_children (ar ! p)))
     else if i = length ar then {} else set (tn_children (ar ! i)))"
  using attach_nth[OF assms(2,3), of s] by (auto simp: not_less)

lemma attach_sorted:
  assumes "tree_ok ar" "p < length ar"
  shows "children_sorted (attach p s ar) (tn_children (attach p s ar ! p))"
proof -
  let ?ar = "attach p s ar" and ?cs = "tn_children (ar ! p)"
  have cs: "c < length ar" if "c \<in> set ?cs" for c using tree_okD(1)[OF assms that] by simp
  have same: "prio ?ar c = prio ar c" if "c \<in> set ?cs" for c using attach_prio[OF assms(2) cs[OF that]] .
  have new: "prio ?ar (length ar) = sn_priority s"
    using attach_nth[OF assms(2), of "length ar" s] assms(2) by (simp add: prio_def)
  have "children_sorted ?ar ?cs" using tree_okD(3)[OF assms] children_sorted_cong[of ?cs ?ar ar] same by blast
  from children_sorted_insert[OF this new]
  have "children_sorted ?ar (filter (\<lambda>c. sn_priority s \<le> prio ?ar c) ?cs @ length ar #
    filter (\<lambda>c. prio ?ar c < sn_priority s) ?cs)" .
  moreover have "filter (\<lambda>c. sn_priority s \<le> prio ?ar c) ?cs = filter (\<lambda>c. sn_priority s \<le> prio ar c) ?cs"
    "filter (\<lambda>c. prio ?ar c < sn_priority s) ?cs = filter (\<lambda>c. prio ar c < sn_priority s) ?cs"
    using same by (auto intro!: filter_cong)
  ultimately show ?thesis using attach_nth[OF assms(2), of p s] assms(2) by simp
qed

lemma attach_ok:
  assumes "tree_ok ar" "p < length ar"
  shows "tree_ok (attach p s ar)"
proof -
  let ?ar = "attach p s ar" and ?n = "length ar"
  have par: "tn_parent (?ar ! c) = (if c = ?n then Some p else tn_parent (ar ! c))" if "c \<le> ?n" for c
    using attach_nth[OF assms(2) that, of s] assms(2) by auto
  have kids: "i < c \<and> c < length ?ar \<and> tn_parent (?ar ! c) = Some i"
    if "i < length ?ar" "c \<in> set (tn_children (?ar ! i))" for i c
    using that attach_children[OF assms, of i s] tree_okD(1)[OF assms(1), of i c] assms(2) par[of c]
    by (auto split: if_splits)
  have same: "tn_children (?ar ! i) = tn_children (ar ! i)" if "i < ?n" "i \<noteq> p" for i
    using attach_nth[OF assms(2), of i s] that by simp
  have last: "tn_children (?ar ! ?n) = []" using attach_nth[OF assms(2), of ?n s] assms(2) by simp
  have dist: "distinct (tn_children (?ar ! i))" if "i < length ?ar" for i
  proof (cases "i = p")
    case True
    have "?n \<notin> set (tn_children (ar ! p))" using tree_okD(1)[OF assms, of ?n] by blast
    then show ?thesis
      using True attach_nth[OF assms(2), of p s] tree_okD(2)[OF assms] assms(2) by auto
  next
    case False
    then show ?thesis using that same[of i] last tree_okD(2)[OF assms(1), of i] by (cases "i = ?n") auto
  qed
  have sorted: "children_sorted ?ar (tn_children (?ar ! i))" if "i < length ?ar" for i
  proof (cases "i = p")
    case True
    then show ?thesis using attach_sorted[OF assms] by simp
  next
    case False
    show ?thesis
    proof (cases "i = ?n")
      case True
      then show ?thesis using last by (simp add: children_sorted_def)
    next
      case n: False
      have i: "i < ?n" using that n by simp
      have "prio ?ar c = prio ar c" if "c \<in> set (tn_children (ar ! i))" for c
        using attach_prio[OF assms(2)] tree_okD(1)[OF assms(1) i that] by simp
      then show ?thesis
        using children_sorted_cong[of "tn_children (ar ! i)" ?ar ar] tree_okD(3)[OF assms(1) i] same[OF i False]
        by simp
    qed
  qed
  have up: "q < length ?ar \<and> c \<in> set (tn_children (?ar ! q))"
    if "c < length ?ar" "tn_parent (?ar ! c) = Some q" for c q
    using that par[of c] attach_children[OF assms, of q s] tree_okD(4)[OF assms(1), of c q] assms(2)
    by (auto split: if_splits)
  have root: "?ar \<noteq> []" "tn_parent (?ar ! 0) = None"
    using par[of 0] tree_ok_root[OF assms(1)] by (simp_all add: attach_def)
  show ?thesis by (rule tree_okI[OF root kids dist sorted up])
qed

text \<open>Removing a child detaches it, with its subtree.\<close>

lemma remove_child_cases:
  assumes "tree_ok ar" "i < length ar"
  obtains (absent) "remove_child i name ar = (None, ar)" "find_child ar i name = None"
  | (removed) c where "remove_child i name ar =
        (Some c, ar[i := (ar ! i)\<lparr>tn_children := remove1 c (tn_children (ar ! i))\<rparr>,
                    c := (ar ! c)\<lparr>tn_parent := None\<rparr>])"
      "find_child ar i name = Some c" "c \<in> set (tn_children (ar ! i))" "named ar name c"
proof (cases "position (named ar name) (tn_children (ar ! i))")
  case None
  then have "find_child ar i name = None"
    by (auto simp: find_child_def position_None find_None_iff)
  with None show ?thesis using absent by (simp add: remove_child_def)
next
  case (Some pos)
  let ?cs = "tn_children (ar ! i)"
  have pos: "pos < length ?cs" "named ar name (?cs ! pos)" "\<forall>j < pos. \<not> named ar name (?cs ! j)"
    using position_Some[OF Some] by auto
  have c: "?cs ! pos \<in> set ?cs" "?cs ! pos \<noteq> i"
    using pos(1) tree_okD(1)[OF assms, of "?cs ! pos"] by auto
  have "find_child ar i name = Some (?cs ! pos)"
    unfolding find_child_def using pos by (subst find_Some_iff) auto
  moreover have "take pos ?cs @ drop (Suc pos) ?cs = remove1 (?cs ! pos) ?cs"
  proof -
    have split: "?cs = take pos ?cs @ ?cs ! pos # drop (Suc pos) ?cs" using id_take_nth_drop[OF pos(1)] .
    have "?cs ! pos \<notin> set (take pos ?cs)"
      using pos(2,3) by (auto simp: in_set_conv_nth)
    then show ?thesis by (subst (3) split) (simp add: remove1_append)
  qed
  ultimately show ?thesis using removed[of "?cs ! pos"] Some pos(2) c assms(2)
    by (simp add: remove_child_def Let_def)
qed

definition detach :: "nat \<Rightarrow> nat \<Rightarrow> 'j arena \<Rightarrow> 'j arena" where
  "detach i c ar = ar[i := (ar ! i)\<lparr>tn_children := remove1 c (tn_children (ar ! i))\<rparr>,
     c := (ar ! c)\<lparr>tn_parent := None\<rparr>]"

lemma detach_nth:
  assumes "i < length ar" "c < length ar" "i \<noteq> c" "k < length ar"
  shows "detach i c ar ! k =
    (if k = c then (ar ! c)\<lparr>tn_parent := None\<rparr>
     else if k = i then (ar ! i)\<lparr>tn_children := remove1 c (tn_children (ar ! i))\<rparr> else ar ! k)"
  using assms by (auto simp: detach_def nth_list_update)

lemma detach_length [simp]: "length (detach i c ar) = length ar"
  by (simp add: detach_def)

lemma sorted_wrt_remove1: "sorted_wrt P xs \<Longrightarrow> sorted_wrt P (remove1 x xs)"
  by (induction xs) (auto dest: notin_set_remove1 set_remove1_subset[THEN subsetD])

lemma detach_ok:
  assumes ok: "tree_ok ar" and i: "i < length ar" and c: "c \<in> set (tn_children (ar ! i))"
  shows "tree_ok (detach i c ar)"
proof -
  let ?ar = "detach i c ar"
  have ic: "i < c" "c < length ar" "i \<noteq> c" using tree_okD(1)[OF ok i c] by simp_all
  note nth = detach_nth[OF i ic(2,3)]
  have kids: "set (tn_children (?ar ! k)) = (if k = i then set (tn_children (ar ! i)) - {c} else set (tn_children (ar ! k)))"
    if "k < length ar" for k
    using nth[OF that] ic(3) tree_okD(2)[OF ok i] by auto
  have par: "tn_parent (?ar ! k) = (if k = c then None else tn_parent (ar ! k))" if "k < length ar" for k
    using nth[OF that] by auto
  have prio: "prio ?ar k = prio ar k" if "k < length ar" for k
    using nth[OF that] by (simp add: prio_def)
  show ?thesis
  proof (rule tree_okI)
    show "?ar \<noteq> []" using i detach_length[of i c ar] by (metis length_0_conv less_nat_zero_code)
    show "tn_parent (?ar ! 0) = None"
      using par[of 0] tree_ok_root[OF ok] by auto
    fix k d
    assume k: "k < length ?ar"
    show "k < d \<and> d < length ?ar \<and> tn_parent (?ar ! d) = Some k" if "d \<in> set (tn_children (?ar ! k))"
    proof -
      have d: "d \<in> set (tn_children (ar ! k))" "k = i \<longrightarrow> d \<noteq> c"
        using that kids[of k] k by (auto split: if_splits)
      then have "k < d" "d < length ar" "tn_parent (ar ! d) = Some k" using tree_okD(1)[OF ok _ d(1)] k by auto
      moreover have "d \<noteq> c"
        using d(2) \<open>tn_parent (ar ! d) = Some k\<close> tree_okD(1)[OF ok i c] by auto
      ultimately show ?thesis using par[of d] by simp
    qed
    show "distinct (tn_children (?ar ! k))"
      using k nth[of k] tree_okD(2)[OF ok, of k] tree_okD(2)[OF ok i] by auto
    have "children_sorted ar (tn_children (?ar ! k))"
      using k nth[of k] tree_okD(3)[OF ok, of k] tree_okD(3)[OF ok i]
      by (auto simp: children_sorted_def sorted_wrt_remove1)
    moreover have "prio ?ar d = prio ar d" if "d \<in> set (tn_children (?ar ! k))" for d
      using prio that kids[of k] k tree_okD(1)[OF ok, of k d] by (auto split: if_splits)
    ultimately show "children_sorted ?ar (tn_children (?ar ! k))"
      using children_sorted_cong[of "tn_children (?ar ! k)" ?ar ar] by simp
    show "p < length ?ar \<and> k \<in> set (tn_children (?ar ! p))" if "tn_parent (?ar ! k) = Some p" for p
      using that par[of k] k kids[of p] tree_okD(4)[OF ok, of k p] by (auto split: if_splits)
  qed
qed

lemma remove_child_ok:
  assumes "tree_ok ar" "i < length ar"
  shows "tree_ok (snd (remove_child i name ar))"
  using assms
proof (cases rule: remove_child_cases[where name = name])
  case (removed c)
  then show ?thesis using detach_ok[OF assms removed(3)] by (simp add: detach_def)
qed (use assms in simp)

lemma find_parts_less:
  "tree_ok ar \<Longrightarrow> cur < length ar \<Longrightarrow> find_parts ar cur parts = Some i \<Longrightarrow> i < length ar"
proof (induction parts arbitrary: cur)
  case (Cons part parts)
  show ?case
  proof (cases "named ar part cur")
    case True
    with Cons show ?thesis by simp
  next
    case False
    then obtain d where d: "find_child ar cur part = Some d" "find_parts ar d parts = Some i"
      using Cons.prems(3) by (auto split: option.splits)
    then have "d \<in> set (tn_children (ar ! cur))"
      by (auto simp: find_child_def find_Some_iff)
    then have "d < length ar" using tree_okD(1)[OF Cons.prems(1,2)] by simp
    with Cons.IH[OF Cons.prems(1)] d(2) show ?thesis by blast
  qed
qed simp

lemma register_cases:
  assumes "tree_ok ar"
  obtains (refused) "register path s ar = (False, ar)"
  | (placed) p where "register path s ar = (True, attach p s ar)" "p < length ar"
proof -
  define pp where "pp = (case rsplit_once CHR ''/'' path of Some (p, _) \<Rightarrow> p | None \<Rightarrow> [])"
  define q where "q = (if pp = [] then Some 0 else find_by_path ar 0 pp)"
  have root: "0 < length ar" using tree_ok_root[OF assms] by simp
  show ?thesis
  proof (cases q)
    case None
    then have "register path s ar = (False, ar)"
      unfolding register_def Let_def pp_def[symmetric] q_def[symmetric] by simp
    then show ?thesis by (rule refused)
  next
    case (Some p)
    have p: "p < length ar"
      using Some root find_parts_less[OF assms root] by (auto simp: q_def find_by_path_def split: if_splits)
    have "register path s ar = (True, add_child p (length ar) (snd (tree_node_new s ar)))"
      using Some unfolding register_def Let_def pp_def[symmetric] q_def[symmetric] by (simp add: tree_node_new_def)
    then show ?thesis using placed p add_child_fresh[OF assms p] by simp
  qed
qed

lemma hier_step_ok: "tree_ok ar \<Longrightarrow> tree_ok (hier_step op ar)"
proof (cases op)
  case (Register path s)
  assume ok: "tree_ok ar"
  then show ?thesis
    by (cases rule: register_cases[where path = path and s = s]) (simp_all add: Register ok attach_ok)
next
  case (CreateContainer path name)
  assume ok: "tree_ok ar"
  then show ?thesis
    by (cases rule: register_cases[where path = path and s = "container_node name"])
      (simp_all add: CreateContainer create_container_def ok attach_ok)
next
  case (RemoveChild i name)
  assume "tree_ok ar"
  then show ?thesis by (auto simp: RemoveChild intro: remove_child_ok)
qed

lemma hier_run_ok: "tree_ok (hier_run ops)"
proof -
  have "tree_ok ar \<Longrightarrow> tree_ok (fold hier_step ops ar)" for ar :: "'a arena"
    by (induction ops arbitrary: ar) (auto intro: hier_step_ok)
  then show ?thesis using hierarchy_new_ok by (simp add: hier_run_def)
qed

section \<open>The traversals visit every node below exactly once\<close>

lemma those_map_Some: "(\<And>x. x \<in> set xs \<Longrightarrow> f x = Some (g x)) \<Longrightarrow> those (map f xs) = Some (map g xs)"
  by (induction xs) simp_all

text \<open>The nodes below \<open>i\<close> in preorder; the fuel is what the size of the arena leaves.\<close>

fun preorder :: "nat \<Rightarrow> 'j arena \<Rightarrow> nat \<Rightarrow> nat list" where
  "preorder 0 ar i = []"
| "preorder (Suc fuel) ar i = i # concat (map (preorder fuel ar) (tn_children (ar ! i)))"

definition subtree :: "'j arena \<Rightarrow> nat \<Rightarrow> nat list" where
  "subtree ar i = preorder (length ar - i) ar i"

lemma preorder_enough:
  "tree_ok ar \<Longrightarrow> i < length ar \<Longrightarrow> length ar - i \<le> f \<Longrightarrow> length ar - i \<le> g \<Longrightarrow> preorder f ar i = preorder g ar i"
proof (induction f arbitrary: i g)
  case (Suc f)
  then obtain g' where g: "g = Suc g'" by (cases g) auto
  have "preorder f ar c = preorder g' ar c" if "c \<in> set (tn_children (ar ! i))" for c
    using tree_okD(1)[OF Suc.prems(1,2) that] Suc.prems(3,4) g by (intro Suc.IH[OF Suc.prems(1)]) auto
  then show ?case by (simp add: g cong: map_cong)
qed simp

lemma subtree_unfold:
  assumes "tree_ok ar" "i < length ar"
  shows "subtree ar i = i # concat (map (subtree ar) (tn_children (ar ! i)))"
proof -
  obtain n where n: "length ar - i = Suc n" using assms(2) by (cases "length ar - i") auto
  have "preorder n ar c = subtree ar c" if "c \<in> set (tn_children (ar ! i))" for c
    using tree_okD(1)[OF assms that] n unfolding subtree_def
    by (intro preorder_enough[OF assms(1)]) auto
  then show ?thesis by (simp add: subtree_def n cong: map_cong)
qed

text \<open>Induction from the leaves to the root: children have larger indices.\<close>

lemma subtree_induct [consumes 2, case_names node]:
  assumes "tree_ok ar" "i < length ar"
    and step: "\<And>i. i < length ar \<Longrightarrow> (\<And>c. c \<in> set (tn_children (ar ! i)) \<Longrightarrow> P c) \<Longrightarrow> P i"
  shows "P i"
  using assms(2)
proof (induction "length ar - i" arbitrary: i rule: less_induct)
  case less
  show ?case
  proof (rule step[OF less.prems])
    fix c
    assume "c \<in> set (tn_children (ar ! i))"
    with tree_okD(1)[OF assms(1) less.prems this] less.prems show "P c" by (intro less.hyps) auto
  qed
qed

lemma subtree_ge:
  assumes "tree_ok ar" "i < length ar"
  shows "\<forall>x \<in> set (subtree ar i). i \<le> x \<and> x < length ar"
  using assms
proof (induction rule: subtree_induct)
  case (node i)
  show ?case
    using node tree_okD(1)[OF assms(1) node(1)] by (fastforce simp: subtree_unfold[OF assms(1) node(1)])
qed

text \<open>A node below \<open>i\<close> is one from which the parent links lead to \<open>i\<close>.\<close>

definition parent_rel :: "'j arena \<Rightarrow> (nat \<times> nat) set" where
  "parent_rel ar = {(c, p). c < length ar \<and> tn_parent (ar ! c) = Some p}"

lemma parent_rel_single: "single_valued (parent_rel ar)"
  by (auto simp: parent_rel_def single_valued_def)

lemma parent_rel_less:
  assumes "tree_ok ar" "(c, p) \<in> parent_rel ar"
  shows "p < c"
  using tree_okD(4)[OF assms(1), of c p] tree_okD(1)[OF assms(1), of p c] assms(2)
  by (auto simp: parent_rel_def)

lemma parent_rtrancl_le:
  assumes "tree_ok ar" "(c, p) \<in> (parent_rel ar)\<^sup>*"
  shows "p \<le> c"
  using assms(2) by (induction rule: rtrancl_induct) (auto dest: parent_rel_less[OF assms(1)])

lemma subtree_set:
  assumes "tree_ok ar" "i < length ar"
  shows "set (subtree ar i) = {x. (x, i) \<in> (parent_rel ar)\<^sup>*}"
  using assms
proof (induction rule: subtree_induct)
  case (node i)
  have kids: "c \<in> set (tn_children (ar ! i)) \<longleftrightarrow> (c, i) \<in> parent_rel ar" for c
    using tree_okD(1)[OF assms(1) node(1), of c] tree_okD(4)[OF assms(1), of c i]
    by (auto simp: parent_rel_def)
  have "set (subtree ar i) = insert i (\<Union>c \<in> set (tn_children (ar ! i)). set (subtree ar c))"
    by (simp add: subtree_unfold[OF assms(1) node(1)])
  also have "\<dots> = insert i {x. \<exists>c. (x, c) \<in> (parent_rel ar)\<^sup>* \<and> (c, i) \<in> parent_rel ar}"
    using node(2) kids by auto
  also have "\<dots> = {x. (x, i) \<in> (parent_rel ar)\<^sup>*}"
    by (auto intro: rtrancl_into_rtrancl elim: rtranclE)
  finally show ?case .
qed

lemma siblings_disjoint:
  assumes ok: "tree_ok ar" and i: "i < length ar"
    and c: "c \<in> set (tn_children (ar ! i))" and d: "d \<in> set (tn_children (ar ! i))" and "c \<noteq> d"
  shows "set (subtree ar c) \<inter> set (subtree ar d) = {}"
proof -
  have below: False if ab: "(a, b) \<in> (parent_rel ar)\<^sup>*" "a \<noteq> b"
    "a \<in> set (tn_children (ar ! i))" "b \<in> set (tn_children (ar ! i))" for a b
  proof -
    have a: "tn_parent (ar ! a) = Some i" "i < b"
      using tree_okD(1)[OF ok i ab(3)] tree_okD(1)[OF ok i ab(4)] by auto
    obtain p where "(a, p) \<in> parent_rel ar" "(p, b) \<in> (parent_rel ar)\<^sup>*"
      using ab(1,2) by (auto elim: converse_rtranclE)
    then show False using a parent_rtrancl_le[OF ok, of p b] by (auto simp: parent_rel_def)
  qed
  have len: "c < length ar" "d < length ar" using tree_okD(1)[OF ok i c] tree_okD(1)[OF ok i d] by auto
  show ?thesis
  proof (rule ccontr)
    assume "\<not> ?thesis"
    then obtain x where "(x, c) \<in> (parent_rel ar)\<^sup>*" "(x, d) \<in> (parent_rel ar)\<^sup>*"
      using subtree_set[OF ok len(1)] subtree_set[OF ok len(2)] by auto
    from single_valued_confluent[OF parent_rel_single this] show False
      using below assms(3-5) by metis
  qed
qed

lemma subtree_distinct:
  assumes "tree_ok ar" "i < length ar"
  shows "distinct (subtree ar i)"
  using assms
proof (induction rule: subtree_induct)
  case (node i)
  let ?cs = "tn_children (ar ! i)"
  have hd: "i \<notin> set (subtree ar c)" if "c \<in> set ?cs" for c
  proof
    assume "i \<in> set (subtree ar c)"
    moreover have "i < c" "c < length ar" using tree_okD(1)[OF assms(1) node(1) that] by auto
    ultimately show False using subtree_ge[OF assms(1), of c] by auto
  qed
  have "distinct (concat (map (subtree ar) cs))" if "distinct cs" "set cs \<subseteq> set ?cs" for cs
    using that
  proof (induction cs)
    case (Cons c cs)
    have "set (subtree ar c) \<inter> (\<Union>d \<in> set cs. set (subtree ar d)) = {}"
      using siblings_disjoint[OF assms(1) node(1), of c] Cons.prems by fastforce
    then show ?case using Cons node(2) by simp
  qed simp
  then have "distinct (concat (map (subtree ar) ?cs))" using tree_okD(2)[OF assms(1) node(1)] by simp
  then show ?case using hd by (auto simp: subtree_unfold[OF assms(1) node(1)])
qed

section \<open>The traversals in terms of the subtree\<close>

lemma fuel_Suc:
  assumes "i < length ar" "length ar - i \<le> f"
  obtains g where "f = Suc g"
  using assms by (cases f) auto

lemma fuel_child:
  assumes "tree_ok ar" "i < length ar" "length ar - i \<le> Suc f" "c \<in> set (tn_children (ar ! i))"
  shows "c < length ar" "length ar - c \<le> f"
  using tree_okD(1)[OF assms(1,2,4)] assms(3) by auto

lemma services_by_type_subtree:
  "tree_ok ar \<Longrightarrow> i < length ar \<Longrightarrow> length ar - i \<le> f \<Longrightarrow>
   services_by_type f ty ar i =
     Some (filter (\<lambda>d. sn_type d = ty \<and> sn_enabled d) (map (\<lambda>x. tn_data (ar ! x)) (subtree ar i)))"
proof (induction f arbitrary: i)
  case (Suc f)
  let ?sel = "\<lambda>i. filter (\<lambda>d. sn_type d = ty \<and> sn_enabled d) (map (\<lambda>x. tn_data (ar ! x)) (subtree ar i))"
  have "services_by_type f ty ar c = Some (?sel c)" if "c \<in> set (tn_children (ar ! i))" for c
    using Suc.IH[OF Suc.prems(1)] fuel_child[OF Suc.prems that] by blast
  then have "those (map (services_by_type f ty ar) (tn_children (ar ! i))) = Some (map ?sel (tn_children (ar ! i)))"
    by (rule those_map_Some)
  moreover have "filter P (map g (concat xss)) = concat (map (\<lambda>xs. filter P (map g xs)) xss)" for P and g :: "nat \<Rightarrow> 'a service_node" and xss
    by (induction xss) simp_all
  ultimately show ?case by (simp add: subtree_unfold[OF Suc.prems(1,2)] Let_def comp_def)
qed simp

lemma collect_leaves_subtree:
  "tree_ok ar \<Longrightarrow> i < length ar \<Longrightarrow> length ar - i \<le> f \<Longrightarrow>
   collect_leaves f ar i = Some (map (\<lambda>x. tn_data (ar ! x)) (filter (is_leaf ar) (subtree ar i)))"
proof (induction f arbitrary: i)
  case (Suc f)
  let ?sel = "\<lambda>i. map (\<lambda>x. tn_data (ar ! x)) (filter (is_leaf ar) (subtree ar i))"
  have "collect_leaves f ar c = Some (?sel c)" if "c \<in> set (tn_children (ar ! i))" for c
    using Suc.IH[OF Suc.prems(1)] fuel_child[OF Suc.prems that] by blast
  then have "those (map (collect_leaves f ar) (tn_children (ar ! i))) = Some (map ?sel (tn_children (ar ! i)))"
    by (rule those_map_Some)
  moreover have "map g (filter P (concat xss)) = concat (map (\<lambda>xs. map g (filter P xs)) xss)" for P and g :: "nat \<Rightarrow> 'a service_node" and xss
    by (induction xss) simp_all
  moreover have "is_leaf ar i \<longleftrightarrow> tn_children (ar ! i) = []" by (simp add: is_leaf_def)
  ultimately show ?case
    by (cases "tn_children (ar ! i)") (simp_all add: subtree_unfold[OF Suc.prems(1,2)] Let_def comp_def)
qed simp

lemma traverse_subtree:
  "tree_ok ar \<Longrightarrow> i < length ar \<Longrightarrow> length ar - i \<le> f \<Longrightarrow>
   \<exists>vs. traverse_internal f ar i d = Some vs \<and> map fst vs = map (\<lambda>x. tn_data (ar ! x)) (subtree ar i)"
proof (induction f arbitrary: i d)
  case (Suc f)
  let ?t = "\<lambda>c. the (traverse_internal f ar c (d + 1))"
  have kids: "traverse_internal f ar c (d + 1) = Some (?t c) \<and> map fst (?t c) = map (\<lambda>x. tn_data (ar ! x)) (subtree ar c)"
    if "c \<in> set (tn_children (ar ! i))" for c
    using Suc.IH[OF Suc.prems(1) fuel_child[OF Suc.prems that], of "d + 1"] by auto
  then have "those (map (\<lambda>c. traverse_internal f ar c (d + 1)) (tn_children (ar ! i))) = Some (map ?t (tn_children (ar ! i)))"
    by (intro those_map_Some) simp
  moreover have "map (map fst) (map ?t (tn_children (ar ! i))) =
      map (map (\<lambda>x. tn_data (ar ! x))) (map (subtree ar) (tn_children (ar ! i)))"
    using kids by simp
  ultimately show ?case
    by (simp add: subtree_unfold[OF Suc.prems(1,2)] map_concat comp_def cong: map_cong)
qed simp

text \<open>Without removals every node but the root has a parent, so the whole arena is below the root.\<close>

definition all_attached :: "'j arena \<Rightarrow> bool" where
  "all_attached ar \<longleftrightarrow> (\<forall>i < length ar. i \<noteq> 0 \<longrightarrow> tn_parent (ar ! i) \<noteq> None)"

lemma all_attached_root:
  assumes "tree_ok ar" "all_attached ar" "i < length ar"
  shows "(i, 0) \<in> (parent_rel ar)\<^sup>*"
  using assms(3)
proof (induction i rule: less_induct)
  case (less i)
  show ?case
  proof (cases "i = 0")
    case False
    then obtain p where p: "tn_parent (ar ! i) = Some p" using assms(2) less.prems by (auto simp: all_attached_def)
    then have "(i, p) \<in> parent_rel ar" using less.prems by (simp add: parent_rel_def)
    moreover have "p < i" using parent_rel_less[OF assms(1)] calculation by simp
    ultimately show ?thesis using less.IH[of p] less.prems by (auto intro: converse_rtrancl_into_rtrancl)
  qed simp
qed

lemma subtree_root_all:
  assumes "tree_ok ar" "all_attached ar"
  shows "mset (subtree ar 0) = mset [0..<length ar]"
proof -
  have root: "0 < length ar" using tree_ok_root[OF assms(1)] by simp
  have "set (subtree ar 0) = {0..<length ar}"
    using subtree_set[OF assms(1) root] all_attached_root[OF assms] subtree_ge[OF assms(1) root] by auto
  then show ?thesis
    using subtree_distinct[OF assms(1) root] by (simp add: set_eq_iff_mset_eq_distinct flip: set_upt)
qed

end
