(* ===== verification/Nonrt_Traits.thy ===== *)
theory Nonrt_Traits
  imports Rt_Guard
begin

text \<open>
  \<open>services/nonrtservices/src/traits.rs\<close>: the errors, the status and the \<open>NonRtService\<close> trait. A
  trait object is its state \<open>'n\<close>; the record of methods dispatches on it.
\<close>

datatype service_error =
    StartFailed string
  | StopFailed string
  | NotRunning
  | AlreadyRunning
  | ServiceNotFound string
  | ServiceFailure string
  | InvalidRequest string
  | Internal string

record service_status =
  ss_name :: string
  ss_running :: bool
  ss_started_at :: "timestamp option"
  ss_request_count :: u64
  ss_error_count :: u64

definition service_status_new :: "string \<Rightarrow> service_status" where
  "service_status_new name =
     \<lparr>ss_name = name, ss_running = False, ss_started_at = None, ss_request_count = 0, ss_error_count = 0\<rparr>"

record ('n, 'j, 'ch) nonrt_service =
  ns_name :: "'n \<Rightarrow> string"
  ns_start :: "'n \<Rightarrow> (service_error, unit) result \<times> 'n"
  ns_stop :: "'n \<Rightarrow> (service_error, unit) result \<times> 'n"
  ns_health_check :: "'n \<Rightarrow> bool"
  ns_status :: "'n \<Rightarrow> service_status"
  ns_call :: "'j \<Rightarrow> 'ch rt_context \<Rightarrow> 'n \<Rightarrow> (service_error, 'j) result"

definition default_call :: "'j \<Rightarrow> 'ch rt_context \<Rightarrow> 'n \<Rightarrow> (service_error, 'j) result" where
  "default_call req ctx n = Err (Internal ''call() not implemented'')"

record service_handle =
  sh_name :: string
  sh_started_at :: timestamp

definition service_handle_new :: "timestamp \<Rightarrow> string \<Rightarrow> service_handle" where
  "service_handle_new now name = \<lparr>sh_name = name, sh_started_at = now\<rparr>"

end
