(* ===== verification/Service_Registry.thy ===== *)
theory Service_Registry
  imports Name_Map Nonrt_Traits
begin

text \<open>
  \<open>services/servicemanagement/src/registry.rs\<close>. A registered service is an \<open>Arc<RwLock<..>>\<close>: an
  address of a cell that outlives its registration while someone holds the \<open>Arc\<close>. The registry maps
  names to addresses; the cells are kept beside it. The state of an RT service is \<open>'r\<close>, of a Non-RT
  service \<open>'n\<close>. Both maps sit behind locks, so each operation is one atomic step.
\<close>

record ('r, 'n) service_registry =
  rt_services :: "string \<rightharpoonup> nat"
  non_rt_services :: "string \<rightharpoonup> nat"
  rt_cells :: "nat \<rightharpoonup> 'r"
  non_rt_cells :: "nat \<rightharpoonup> 'n"
  next_cell :: nat

definition service_registry_new :: "('r, 'n) service_registry" where
  "service_registry_new =
     \<lparr>rt_services = Map.empty, non_rt_services = Map.empty, rt_cells = Map.empty, non_rt_cells = Map.empty,
      next_cell = 0\<rparr>"

text \<open>Registering a taken name replaces its service, with a warning only.\<close>

definition put_rt :: "string \<Rightarrow> 'r \<Rightarrow> ('r, 'n) service_registry \<Rightarrow> ('r, 'n) service_registry" where
  "put_rt name svc r =
     r\<lparr>rt_services := (rt_services r)(name \<mapsto> next_cell r), rt_cells := (rt_cells r)(next_cell r \<mapsto> svc),
       next_cell := next_cell r + 1\<rparr>"

definition register_rt :: "('r \<Rightarrow> string) \<Rightarrow> 'r \<Rightarrow> ('r, 'n) service_registry \<Rightarrow> ('r, 'n) service_registry" where
  "register_rt name_of svc r = put_rt (name_of svc) svc r"

definition put_non_rt :: "string \<Rightarrow> 'n \<Rightarrow> ('r, 'n) service_registry \<Rightarrow> ('r, 'n) service_registry" where
  "put_non_rt name svc r =
     r\<lparr>non_rt_services := (non_rt_services r)(name \<mapsto> next_cell r),
       non_rt_cells := (non_rt_cells r)(next_cell r \<mapsto> svc), next_cell := next_cell r + 1\<rparr>"

definition register_non_rt :: "('n \<Rightarrow> string) \<Rightarrow> 'n \<Rightarrow> ('r, 'n) service_registry \<Rightarrow> ('r, 'n) service_registry" where
  "register_non_rt name_of svc r = put_non_rt (name_of svc) svc r"

definition get_rt :: "('r, 'n) service_registry \<Rightarrow> string \<Rightarrow> nat option" where
  "get_rt r name = rt_services r name"

definition get_non_rt :: "('r, 'n) service_registry \<Rightarrow> string \<Rightarrow> nat option" where
  "get_non_rt r name = non_rt_services r name"

definition unregister_rt :: "string \<Rightarrow> ('r, 'n) service_registry \<Rightarrow> bool \<times> ('r, 'n) service_registry" where
  "unregister_rt name r = (rt_services r name \<noteq> None, r\<lparr>rt_services := (rt_services r)(name := None)\<rparr>)"

definition unregister_non_rt :: "string \<Rightarrow> ('r, 'n) service_registry \<Rightarrow> bool \<times> ('r, 'n) service_registry" where
  "unregister_non_rt name r =
     (non_rt_services r name \<noteq> None, r\<lparr>non_rt_services := (non_rt_services r)(name := None)\<rparr>)"

text \<open>The listings, in the order \<open>names\<close> in which the iterator of the hash map produced the names.\<close>

definition list_rt :: "string list \<Rightarrow> ('r, 'n) service_registry \<Rightarrow> string list" where
  "list_rt names r = filter (\<lambda>n. rt_services r n \<noteq> None) names"

definition list_non_rt :: "string list \<Rightarrow> ('r, 'n) service_registry \<Rightarrow> string list" where
  "list_non_rt names r = filter (\<lambda>n. non_rt_services r n \<noteq> None) names"

definition count_services :: "('r, 'n) service_registry \<Rightarrow> nat \<times> nat" where
  "count_services r = (card (dom (rt_services r)), card (dom (non_rt_services r)))"

definition all_rt :: "string list \<Rightarrow> ('r, 'n) service_registry \<Rightarrow> nat list" where
  "all_rt names r = map (\<lambda>n. the (rt_services r n)) (list_rt names r)"

definition all_non_rt :: "string list \<Rightarrow> ('r, 'n) service_registry \<Rightarrow> nat list" where
  "all_non_rt names r = map (\<lambda>n. the (non_rt_services r n)) (list_non_rt names r)"

section \<open>The registry is a map of names to services\<close>

text \<open>The service a name leads to, and the invariant: registered addresses are cells, below the next.\<close>

definition rt_of :: "('r, 'n) service_registry \<Rightarrow> string \<Rightarrow> 'r option" where
  "rt_of r name = (case rt_services r name of None \<Rightarrow> None | Some a \<Rightarrow> rt_cells r a)"

definition non_rt_of :: "('r, 'n) service_registry \<Rightarrow> string \<Rightarrow> 'n option" where
  "non_rt_of r name = (case non_rt_services r name of None \<Rightarrow> None | Some a \<Rightarrow> non_rt_cells r a)"

definition registry_inv :: "('r, 'n) service_registry \<Rightarrow> bool" where
  "registry_inv r \<longleftrightarrow>
     (\<forall>n a. rt_services r n = Some a \<longrightarrow> a < next_cell r \<and> rt_cells r a \<noteq> None) \<and>
     (\<forall>n a. non_rt_services r n = Some a \<longrightarrow> a < next_cell r \<and> non_rt_cells r a \<noteq> None) \<and>
     inj_on (non_rt_services r) (dom (non_rt_services r)) \<and> inj_on (rt_services r) (dom (rt_services r)) \<and>
     finite (dom (rt_services r)) \<and> finite (dom (non_rt_services r))"

lemma registry_inv_new: "registry_inv service_registry_new"
  by (simp add: registry_inv_def service_registry_new_def)

lemma inj_on_fresh:
  fixes k :: nat
  assumes "inj_on m (dom m)" and "\<And>n a. m n = Some a \<Longrightarrow> a < k"
  shows "inj_on (m(name \<mapsto> k)) (dom (m(name \<mapsto> k)))"
proof -
  have "m n \<noteq> Some k" for n using assms(2)[of n k] by auto
  then show ?thesis using assms(1) by (fastforce simp: inj_on_def dom_def)
qed

lemma inj_on_del: "inj_on m (dom m) \<Longrightarrow> inj_on (m(name := None)) (dom (m(name := None)))"
  by (auto simp: inj_on_def dom_def split: if_splits)

lemma put_rt_inv: "registry_inv r \<Longrightarrow> registry_inv (put_rt name svc r)"
  using inj_on_fresh[of "rt_services r" "next_cell r" name]
  by (auto simp: registry_inv_def put_rt_def less_Suc_eq)

lemma put_non_rt_inv: "registry_inv r \<Longrightarrow> registry_inv (put_non_rt name svc r)"
  using inj_on_fresh[of "non_rt_services r" "next_cell r" name]
  by (auto simp: registry_inv_def put_non_rt_def less_Suc_eq)

lemma unregister_rt_inv: "registry_inv r \<Longrightarrow> registry_inv (snd (unregister_rt name r))"
  using inj_on_del[of "rt_services r" name] by (auto simp: registry_inv_def unregister_rt_def)

lemma unregister_non_rt_inv: "registry_inv r \<Longrightarrow> registry_inv (snd (unregister_non_rt name r))"
  using inj_on_del[of "non_rt_services r" name] by (auto simp: registry_inv_def unregister_non_rt_def)

interpretation rt_map: name_map put_rt "\<lambda>n r. snd (unregister_rt n r)" rt_of registry_inv
proof unfold_locales
  fix s :: "('a, 'b) service_registry" and k k' v
  assume inv: "registry_inv s"
  then have "rt_services s n = Some a \<Longrightarrow> a \<noteq> next_cell s" for n a by (auto simp: registry_inv_def)
  then show "rt_of (put_rt k v s) k' = (if k' = k then Some v else rt_of s k')"
    by (auto simp: rt_of_def put_rt_def split: option.splits)
  show "rt_of (snd (unregister_rt k s)) k' = (if k' = k then None else rt_of s k')"
    by (simp add: rt_of_def unregister_rt_def split: option.splits)
qed (simp_all add: put_rt_inv unregister_rt_inv)

interpretation non_rt_map: name_map put_non_rt "\<lambda>n r. snd (unregister_non_rt n r)" non_rt_of registry_inv
proof unfold_locales
  fix s :: "('b, 'a) service_registry" and k k' v
  assume inv: "registry_inv s"
  then have "non_rt_services s n = Some a \<Longrightarrow> a \<noteq> next_cell s" for n a by (auto simp: registry_inv_def)
  then show "non_rt_of (put_non_rt k v s) k' = (if k' = k then Some v else non_rt_of s k')"
    by (auto simp: non_rt_of_def put_non_rt_def split: option.splits)
  show "non_rt_of (snd (unregister_non_rt k s)) k' = (if k' = k then None else non_rt_of s k')"
    by (simp add: non_rt_of_def unregister_non_rt_def split: option.splits)
qed (simp_all add: put_non_rt_inv unregister_non_rt_inv)

end
