(* ===== verification/Service_Manager.thy ===== *)
theory Service_Manager
  imports Rt_Checker Service_Hierarchy Service_Registry
begin

text \<open>
  \<open>services/servicemanagement/src/manager.rs\<close>: the manager of the RT and Non-RT services, on the
  registry and the hierarchy; \<open>dispatcher.rs\<close> and \<open>sample_engine.rs\<close> on top of it.

  The methods of the RT services are the record \<open>v\<close>, those of the Non-RT services the record \<open>u\<close>.
  What the guard measured for the service at position \<open>i\<close> of a tick is \<open>elapsed i\<close>; \<open>names\<close> is the
  order in which the hash map of the registry was iterated.
\<close>

section \<open>State\<close>

record manager_config =
  mc_rt_tick_interval :: duration
  mc_rt_cpu_core :: "nat option"
  mc_rt_fifo_priority :: "int option"
  mc_enable_rt_features :: bool
  mc_rt_check_config :: rt_check_config

definition manager_config_default :: manager_config where
  "manager_config_default =
     \<lparr>mc_rt_tick_interval = from_millis 10, mc_rt_cpu_core = None, mc_rt_fifo_priority = None,
      mc_enable_rt_features = False, mc_rt_check_config = rt_check_config_default\<rparr>"

record 'r rt_entry =
  en_service :: 'r
  en_budget :: duration
  en_stats :: rt_service_stats

record ('r, 'n, 'j, 'ch) service_manager =
  sm_config :: manager_config
  sm_entries :: "'r rt_entry list"
  sm_registry :: "('r, 'n) service_registry"
  sm_hierarchy :: "'j arena"
  sm_checker :: rt_checker
  sm_ctx :: "'ch rt_context"
  sm_running :: bool
  sm_stop_flag :: bool

text \<open>\<open>ch\<close> is the event channel \<open>bounded(1024)\<close> made for this manager.\<close>

definition with_config :: "'ch \<Rightarrow> manager_config \<Rightarrow> ('r, 'n, 'j, 'ch) service_manager" where
  "with_config ch cfg =
     \<lparr>sm_config = cfg, sm_entries = [], sm_registry = service_registry_new, sm_hierarchy = hierarchy_new,
      sm_checker = rt_checker_new, sm_ctx = \<lparr>ctx_props = properties_new, ctx_events = ch\<rparr>,
      sm_running = False, sm_stop_flag = False\<rparr>"

definition service_manager_new :: "'ch \<Rightarrow> ('r, 'n, 'j, 'ch) service_manager" where
  "service_manager_new ch = with_config ch manager_config_default"

definition set_rtcheck_config ::
  "rt_check_config \<Rightarrow> ('r, 'n, 'j, 'ch) service_manager \<Rightarrow> ('r, 'n, 'j, 'ch) service_manager" where
  "set_rtcheck_config cfg m = m\<lparr>sm_config := (sm_config m)\<lparr>mc_rt_check_config := cfg\<rparr>\<rparr>"

section \<open>Registration\<close>

definition manager_register_rt ::
  "'r \<Rightarrow> duration \<Rightarrow> ('r, 'n, 'j, 'ch) service_manager \<Rightarrow> ('r, 'n, 'j, 'ch) service_manager" where
  "manager_register_rt svc budget m =
     m\<lparr>sm_entries := sm_entries m @
         [\<lparr>en_service = svc, en_budget = budget, en_stats = rt_service_stats_default\<rparr>]\<rparr>"

definition manager_register_nonrt ::
  "('n, 'j, 'ch) nonrt_service \<Rightarrow> 'n \<Rightarrow> ('r, 'n, 'j, 'ch) service_manager \<Rightarrow> ('r, 'n, 'j, 'ch) service_manager" where
  "manager_register_nonrt u svc m =
     (let name = ns_name u svc
      in m\<lparr>sm_registry := register_non_rt (ns_name u) svc (sm_registry m),
           sm_hierarchy := snd (register ''root'' (non_rt_node name) (sm_hierarchy m))\<rparr>)"

definition init_default_hierarchy ::
  "('r, 'n, 'j, 'ch) service_manager \<Rightarrow> ('r, 'n, 'j, 'ch) service_manager" where
  "init_default_hierarchy m =
     (let h1 = snd (create_container ''root'' ''realtime'' (sm_hierarchy m));
          h2 = snd (create_container ''root'' ''nonrealtime'' h1);
          h3 = snd (create_container ''root'' ''system'' h2)
      in m\<lparr>sm_hierarchy := h3\<rparr>)"

section \<open>The RT tick\<close>

text \<open>The result lists the services whose tick returned an error.\<close>

fun tick_entries ::
  "('r, 'ch) rt_service \<Rightarrow> rt_check_config \<Rightarrow> (nat \<Rightarrow> duration) \<Rightarrow> nat \<Rightarrow> 'ch rt_context \<Rightarrow> 'r rt_entry list
   \<Rightarrow> ((string \<times> rt_error) list \<times> 'r rt_entry list \<times> 'ch rt_context) exec" where
  "tick_entries v cfg elapsed i ctx [] = Return ([], [], ctx)"
| "tick_entries v cfg elapsed i ctx (e # es) =
     (if st_disabled (en_stats e) then
        exec_bind (tick_entries v cfg elapsed (Suc i) ctx es) (\<lambda>(ws, es', ctx').
          Return (ws, e # es', ctx'))
      else
        exec_bind (svc_tick v ctx (en_service e)) (\<lambda>(res, s, ctx1).
        exec_bind (update_stats (elapsed i) (en_budget e) cfg (en_stats e)) (\<lambda>(_, st).
        exec_bind (tick_entries v cfg elapsed (Suc i) ctx1 es) (\<lambda>(ws, es', ctx').
          Return ((case res of Inl err \<Rightarrow> (svc_name v s, err) # ws | Inr _ \<Rightarrow> ws),
                  e\<lparr>en_service := s, en_stats := st\<rparr> # es', ctx')))))"

definition tick_rt ::
  "('r, 'ch) rt_service \<Rightarrow> (nat \<Rightarrow> duration) \<Rightarrow> ('r, 'n, 'j, 'ch) service_manager
   \<Rightarrow> ((string \<times> rt_error) list \<times> ('r, 'n, 'j, 'ch) service_manager) exec" where
  "tick_rt v elapsed m =
     exec_bind (tick_entries v (mc_rt_check_config (sm_config m)) elapsed 0 (sm_ctx m) (sm_entries m))
       (\<lambda>(ws, es, ctx). Return (ws, m\<lparr>sm_entries := es, sm_ctx := ctx\<rparr>))"

definition rt_stats_snapshot ::
  "('r, 'ch) rt_service \<Rightarrow> ('r, 'n, 'j, 'ch) service_manager \<Rightarrow> (string \<times> rt_service_stats \<times> duration) list" where
  "rt_stats_snapshot v m = map (\<lambda>e. (svc_name v (en_service e), en_stats e, en_budget e)) (sm_entries m)"

section \<open>Start and stop\<close>

text \<open>
  The calls of \<open>start\<close> or \<open>stop\<close> on the cells at some addresses, with their results, which are only
  logged; an address without a cell cannot occur and is passed over.
\<close>

fun each_cell ::
  "('n \<Rightarrow> (service_error, unit) result \<times> 'n) \<Rightarrow> nat list \<Rightarrow> (nat \<rightharpoonup> 'n)
   \<Rightarrow> (nat \<times> (service_error, unit) result) list \<times> (nat \<rightharpoonup> 'n)" where
  "each_cell f [] cells = ([], cells)"
| "each_cell f (a # as) cells =
     (case cells a of
        None \<Rightarrow> each_cell f as cells
      | Some n \<Rightarrow>
          (case f n of (res, n') \<Rightarrow>
             (case each_cell f as (cells(a \<mapsto> n')) of (rs, cells') \<Rightarrow> ((a, res) # rs, cells'))))"

definition each_entry :: "('r \<Rightarrow> (rt_error, unit) result \<times> 'r) \<Rightarrow> 'r rt_entry list \<Rightarrow> 'r rt_entry list" where
  "each_entry f es = map (\<lambda>e. e\<lparr>en_service := snd (f (en_service e))\<rparr>) es"

definition apply_rt_features :: "manager_config \<Rightarrow> os_answers \<Rightarrow> rt_checker \<Rightarrow> rt_checker" where
  "apply_rt_features cfg os c =
     (if mc_enable_rt_features cfg then
        (let c1 = (case mc_rt_cpu_core cfg of
                     Some core \<Rightarrow> snd (pin_to_cpu core (os_cpu_set os) (os_affinity os) c) | None \<Rightarrow> c);
             c2 = (case mc_rt_fifo_priority cfg of
                     Some p \<Rightarrow> snd (set_fifo_priority p (os_sched os) c1) | None \<Rightarrow> c1)
         in snd (lock_memory (os_mlock os) c2))
      else c)"

definition start_all ::
  "('r, 'ch) rt_service \<Rightarrow> ('n, 'j, 'ch) nonrt_service \<Rightarrow> os_answers \<Rightarrow> string list
   \<Rightarrow> ('r, 'n, 'j, 'ch) service_manager
   \<Rightarrow> (string, unit) result \<times> (nat \<times> (service_error, unit) result) list \<times> ('r, 'n, 'j, 'ch) service_manager" where
  "start_all v u os names m =
     (if sm_running m then (Err ''Manager already running'', [], m)
      else
        (let checker = apply_rt_features (sm_config m) os (sm_checker m);
             r = sm_registry m;
             (results, cells) = each_cell (ns_start u) (all_non_rt names r) (non_rt_cells r)
         in (Ok (), results,
             m\<lparr>sm_checker := checker, sm_registry := r\<lparr>non_rt_cells := cells\<rparr>,
               sm_entries := each_entry (svc_init v) (sm_entries m),
               sm_running := True, sm_stop_flag := False\<rparr>)))"

text \<open>No code sets the handle of the RT thread, so there is nothing to join.\<close>

definition stop_all ::
  "('r, 'ch) rt_service \<Rightarrow> ('n, 'j, 'ch) nonrt_service \<Rightarrow> string list \<Rightarrow> ('r, 'n, 'j, 'ch) service_manager
   \<Rightarrow> (string, unit) result \<times> (nat \<times> (service_error, unit) result) list \<times> ('r, 'n, 'j, 'ch) service_manager" where
  "stop_all v u names m =
     (if \<not> sm_running m then (Err ''Manager not running'', [], m)
      else
        (let m1 = m\<lparr>sm_stop_flag := True, sm_entries := each_entry (svc_shutdown v) (sm_entries m)\<rparr>;
             r = sm_registry m1;
             (results, cells) = each_cell (ns_stop u) (all_non_rt names r) (non_rt_cells r)
         in (Ok (), results, m1\<lparr>sm_registry := r\<lparr>non_rt_cells := cells\<rparr>, sm_running := False\<rparr>)))"

record manager_status =
  ms_running :: bool
  ms_rt_service_count :: nat
  ms_non_rt_service_count :: nat
  ms_rt_status :: string

definition manager_status_of :: "string list \<Rightarrow> ('r, 'n, 'j, 'ch) service_manager \<Rightarrow> manager_status" where
  "manager_status_of names m =
     \<lparr>ms_running = sm_running m, ms_rt_service_count = length (sm_entries m),
      ms_non_rt_service_count = length (all_non_rt names (sm_registry m)),
      ms_rt_status = status_report (sm_checker m)\<rparr>"

definition is_running :: "('r, 'n, 'j, 'ch) service_manager \<Rightarrow> bool" where
  "is_running m \<longleftrightarrow> sm_running m"

definition manager_jitter_stats :: "('r, 'n, 'j, 'ch) service_manager \<Rightarrow> jitter_stats" where
  "manager_jitter_stats m = chk_jitter (sm_checker m)"

section \<open>The Non-RT dispatcher\<close>

text \<open>
  One request, worked off by the dispatcher's thread: \<open>to_value\<close> is \<open>serde_json::to_value\<close>. The
  request body is not read.
\<close>

definition dispatch ::
  "('n, 'j, 'ch) nonrt_service \<Rightarrow> (service_status \<Rightarrow> (string, 'j) result) \<Rightarrow> ('r, 'n) service_registry
   \<Rightarrow> string \<Rightarrow> 'j \<Rightarrow> (string, 'j) result" where
  "dispatch u to_value r service_name req =
     (case non_rt_of r service_name of
        Some n \<Rightarrow> to_value (ns_status u n)
      | None \<Rightarrow> Err (''Service '' @ [CHR 0x27] @ service_name @ [CHR 0x27] @ '' not found''))"

text \<open>
  \<open>sent\<close> is whether the channel took the request, \<open>answer\<close> what came back (\<open>None\<close>: the reply
  channel was dropped).
\<close>

definition dispatcher_call :: "bool \<Rightarrow> (string, 'j) result option \<Rightarrow> (string, 'j) result" where
  "dispatcher_call sent answer =
     (if \<not> sent then Err ''Dispatcher channel closed''
      else (case answer of None \<Rightarrow> Err ''Reply channel closed'' | Some r \<Rightarrow> r))"

definition dispatcher_try_call :: "bool \<Rightarrow> (string, 'j) result option \<Rightarrow> (string, 'j) result" where
  "dispatcher_try_call sent answer =
     (if \<not> sent then Err ''Dispatcher channel full or closed''
      else (case answer of None \<Rightarrow> Err ''Reply channel closed'' | Some r \<Rightarrow> r))"

section \<open>The sample engine\<close>

definition process_event :: "'j engine_event \<Rightarrow> properties \<Rightarrow> properties" where
  "process_event ev p =
     (case ev of SetSpeed v \<Rightarrow> set_speed v p | EngineCustom topic payload \<Rightarrow> p)"

text \<open>
  \<open>process_events\<close> drains the channel: \<open>try_recv\<close> answers an event or that there is none. The
  fuel bounds the loop, which goes on as long as producers keep the channel filled.
\<close>

fun process_events ::
  "nat \<Rightarrow> ('ch \<Rightarrow> 'j engine_event option \<times> 'ch) \<Rightarrow> 'ch rt_context \<Rightarrow> 'ch rt_context option" where
  "process_events 0 try_recv ctx = None"
| "process_events (Suc fuel) try_recv ctx =
     (case try_recv (ctx_events ctx) of
        (None, ch) \<Rightarrow> Some (ctx\<lparr>ctx_events := ch\<rparr>)
      | (Some ev, ch) \<Rightarrow>
          process_events fuel try_recv \<lparr>ctx_props = process_event ev (ctx_props ctx), ctx_events = ch\<rparr>)"

text \<open>One cycle of \<open>run_for\<close>; \<open>None\<close> is the drain running out of fuel.\<close>

definition engine_cycle ::
  "('r, 'ch) rt_service \<Rightarrow> nat \<Rightarrow> ('ch \<Rightarrow> 'j engine_event option \<times> 'ch) \<Rightarrow> (nat \<Rightarrow> duration)
   \<Rightarrow> ('r, 'n, 'j, 'ch) service_manager \<Rightarrow> ('r, 'n, 'j, 'ch) service_manager option exec" where
  "engine_cycle v fuel try_recv elapsed m =
     exec_bind (tick_rt v elapsed m) (\<lambda>(_, m1).
       Return (case process_events fuel try_recv (sm_ctx m1) of
                 None \<Rightarrow> None
               | Some ctx \<Rightarrow>
                   (let s = get_speed (ctx_props ctx);
                        p = set_speed (f64_add s (f64_lit 1 2)) (ctx_props ctx)
                    in Some (m1\<lparr>sm_ctx := ctx\<lparr>ctx_props := p\<rparr>\<rparr>))))"

end
