(* ===== verification/Service_Properties.thy ===== *)
theory Service_Properties
  imports Service_Manager
begin

text \<open>
  What a run of RT ticks does to every service of the manager: the statistics the guard keeps, and
  the end of a service that overran too often.
\<close>

section \<open>RT ticks\<close>

definition tick_returns :: "('r, 'ch) rt_service \<Rightarrow> bool" where
  "tick_returns v \<longleftrightarrow> (\<forall>ctx s. svc_tick v ctx s \<noteq> Panic)"

text \<open>What one tick of the manager does to the entry at position \<open>i\<close>.\<close>

definition entry_step ::
  "('r, 'ch) rt_service \<Rightarrow> rt_check_config \<Rightarrow> duration \<Rightarrow> 'r rt_entry \<Rightarrow> 'r rt_entry \<Rightarrow> bool" where
  "entry_step v cfg e a b \<longleftrightarrow>
     en_budget b = en_budget a \<and>
     (if st_disabled (en_stats a) then b = a
      else update_stats e (en_budget a) cfg (en_stats a) = Return (st_disabled (en_stats b), en_stats b) \<and>
        (\<exists>ctx res ctx'. svc_tick v ctx (en_service a) = Return (res, en_service b, ctx')))"

lemma tick_entries_spec:
  assumes "tick_returns v"
  shows "\<forall>e \<in> set es. stats_inv cfg (en_stats e) \<and> unat (st_calls (en_stats e)) < 2 ^ 64 - 1 \<Longrightarrow>
    \<exists>ws es' ctx'. tick_entries v cfg elapsed i ctx es = Return (ws, es', ctx') \<and> length es' = length es \<and>
      (\<forall>k < length es. entry_step v cfg (elapsed (i + k)) (es ! k) (es' ! k) \<and> stats_inv cfg (en_stats (es' ! k)) \<and>
        unat (st_calls (en_stats (es' ! k))) \<le> Suc (unat (st_calls (en_stats (es ! k)))))"
proof (induction es arbitrary: i ctx)
  case Nil
  then show ?case by simp
next
  case (Cons e es)
  have rest: "\<forall>e \<in> set es. stats_inv cfg (en_stats e) \<and> unat (st_calls (en_stats e)) < 2 ^ 64 - 1"
    using Cons.prems by simp
  have e: "stats_inv cfg (en_stats e)" "unat (st_calls (en_stats e)) < 2 ^ 64 - 1" using Cons.prems by simp_all
  show ?case
  proof (cases "st_disabled (en_stats e)")
    case True
    obtain ws es' ctx' where r: "tick_entries v cfg elapsed (Suc i) ctx es = Return (ws, es', ctx')"
      "length es' = length es"
      "\<forall>k < length es. entry_step v cfg (elapsed (Suc i + k)) (es ! k) (es' ! k) \<and> stats_inv cfg (en_stats (es' ! k)) \<and>
        unat (st_calls (en_stats (es' ! k))) \<le> Suc (unat (st_calls (en_stats (es ! k))))"
      using Cons.IH[OF rest] by blast
    have "tick_entries v cfg elapsed i ctx (e # es) = Return (ws, e # es', ctx')" using True r(1) by simp
    then show ?thesis using True r(2,3) e by (auto simp: nth_Cons entry_step_def split: nat.splits)
  next
    case False
    obtain res s ctx1 where t: "svc_tick v ctx (en_service e) = Return (res, s, ctx1)"
      using assms by (cases "svc_tick v ctx (en_service e)") (auto simp: tick_returns_def)
    obtain st where st: "update_stats (elapsed i) (en_budget e) cfg (en_stats e) = Return (st_disabled st, st)"
      "stats_inv cfg st" "unat (st_calls st) = Suc (unat (st_calls (en_stats e)))"
      using update_stats_spec[OF e(1) False e(2)] by blast
    obtain ws es' ctx' where r: "tick_entries v cfg elapsed (Suc i) ctx1 es = Return (ws, es', ctx')"
      "length es' = length es"
      "\<forall>k < length es. entry_step v cfg (elapsed (Suc i + k)) (es ! k) (es' ! k) \<and> stats_inv cfg (en_stats (es' ! k)) \<and>
        unat (st_calls (en_stats (es' ! k))) \<le> Suc (unat (st_calls (en_stats (es ! k))))"
      using Cons.IH[OF rest] by blast
    let ?e = "e\<lparr>en_service := s, en_stats := st\<rparr>"
    have "\<exists>ws. tick_entries v cfg elapsed i ctx (e # es) = Return (ws, ?e # es', ctx')"
      using False t st(1) r(1) by simp
    moreover have "entry_step v cfg (elapsed i) e ?e" using False t st(1) by (auto simp: entry_step_def)
    ultimately show ?thesis using r(2,3) st by (auto simp: nth_Cons split: nat.splits)
  qed
qed

text \<open>Successive ticks, each with its measurements.\<close>

fun tick_run ::
  "('r, 'ch) rt_service \<Rightarrow> (nat \<Rightarrow> duration) list \<Rightarrow> ('r, 'n, 'j, 'ch) service_manager
   \<Rightarrow> ('r, 'n, 'j, 'ch) service_manager exec" where
  "tick_run v [] m = Return m"
| "tick_run v (el # els) m = exec_bind (tick_rt v el m) (\<lambda>(_, m'). tick_run v els m')"

lemma stats_run_step:
  assumes "entry_step v cfg e a b" and "stats_run (en_budget b) cfg es (en_stats b) = Return s"
  shows "stats_run (en_budget a) cfg (e # es) (en_stats a) = Return s"
  using assms by (cases es) (auto simp: entry_step_def split: if_splits)

lemma stats_run_disabled: "st_disabled s \<Longrightarrow> stats_run budget cfg es s = Return s"
  by (cases es) simp_all

lemma tick_run_spec:
  assumes "tick_returns v"
  shows "\<forall>e \<in> set (sm_entries m). stats_inv cfg (en_stats e) \<and> unat (st_calls (en_stats e)) + length els < 2 ^ 64 \<Longrightarrow>
    mc_rt_check_config (sm_config m) = cfg \<Longrightarrow>
    \<exists>m'. tick_run v els m = Return m' \<and> length (sm_entries m') = length (sm_entries m) \<and>
      sm_config m' = sm_config m \<and>
      (\<forall>k < length (sm_entries m).
         stats_run (en_budget (sm_entries m ! k)) cfg (map (\<lambda>el. el k) els) (en_stats (sm_entries m ! k))
           = Return (en_stats (sm_entries m' ! k)) \<and>
         (st_disabled (en_stats (sm_entries m ! k)) \<longrightarrow> sm_entries m' ! k = sm_entries m ! k))"
proof (induction els arbitrary: m)
  case Nil
  then show ?case by simp
next
  case (Cons el els)
  let ?es = "sm_entries m"
  have "\<forall>e \<in> set ?es. stats_inv cfg (en_stats e) \<and> unat (st_calls (en_stats e)) < 2 ^ 64 - 1"
    using Cons.prems(1) by fastforce
  from tick_entries_spec[OF assms this, of el 0 "sm_ctx m"] obtain ws es' ctx' where
    t: "tick_entries v cfg el 0 (sm_ctx m) ?es = Return (ws, es', ctx')" "length es' = length ?es"
    and step: "\<And>k. k < length ?es \<Longrightarrow> entry_step v cfg (el k) (?es ! k) (es' ! k)"
    and inv: "\<And>k. k < length ?es \<Longrightarrow> stats_inv cfg (en_stats (es' ! k)) \<and>
        unat (st_calls (en_stats (es' ! k))) \<le> Suc (unat (st_calls (en_stats (?es ! k))))"
    by auto
  let ?m = "m\<lparr>sm_entries := es', sm_ctx := ctx'\<rparr>"
  have "\<forall>e \<in> set (sm_entries ?m). stats_inv cfg (en_stats e) \<and> unat (st_calls (en_stats e)) + length els < 2 ^ 64"
  proof
    fix e assume "e \<in> set (sm_entries ?m)"
    then obtain k where k: "k < length ?es" "e = es' ! k" using t(2) by (auto simp: in_set_conv_nth)
    then have "unat (st_calls (en_stats (?es ! k))) + length (el # els) < 2 ^ 64" using Cons.prems(1) by simp
    then show "stats_inv cfg (en_stats e) \<and> unat (st_calls (en_stats e)) + length els < 2 ^ 64"
      using inv[OF k(1)] k(2) by simp
  qed
  from Cons.IH[OF this] Cons.prems(2) obtain m' where
    m': "tick_run v els ?m = Return m'" "length (sm_entries m') = length ?es" "sm_config m' = sm_config m"
    and run: "\<And>k. k < length ?es \<Longrightarrow>
      stats_run (en_budget (es' ! k)) cfg (map (\<lambda>el. el k) els) (en_stats (es' ! k)) = Return (en_stats (sm_entries m' ! k)) \<and>
      (st_disabled (en_stats (es' ! k)) \<longrightarrow> sm_entries m' ! k = es' ! k)"
    using t(2) by auto
  have "tick_run v (el # els) m = Return m'" using t(1) m'(1) Cons.prems(2) by (simp add: tick_rt_def)
  moreover have "stats_run (en_budget (?es ! k)) cfg (map (\<lambda>el. el k) (el # els)) (en_stats (?es ! k)) =
      Return (en_stats (sm_entries m' ! k)) \<and>
      (st_disabled (en_stats (?es ! k)) \<longrightarrow> sm_entries m' ! k = ?es ! k)" if k: "k < length ?es" for k
  proof -
    have "stats_run (en_budget (?es ! k)) cfg (el k # map (\<lambda>el. el k) els) (en_stats (?es ! k)) =
        Return (en_stats (sm_entries m' ! k))"
      using stats_run_step[OF step[OF k]] run[OF k] by blast
    moreover have "sm_entries m' ! k = ?es ! k" if "st_disabled (en_stats (?es ! k))"
      using step[OF k] run[OF k] that by (auto simp: entry_step_def)
    ultimately show ?thesis by simp
  qed
  ultimately show ?case using m'(2,3) by blast
qed

lemma stats_run_bounds:
  assumes "stats_inv cfg s" and "unat (st_calls s) + length es < 2 ^ 64" and "stats_run budget cfg es s = Return s'"
  shows "stats_inv cfg s'" "unat (st_calls s') \<le> unat (st_calls s) + length es"
  using stats_run_spec[OF assms(1,2), of budget] assms(3)
    length_served[of budget "overrun_limit cfg - unat (st_overruns s)" es]
  by (auto simp: Let_def)

text \<open>A manager with services registered one after another, none of them ticked yet.\<close>

definition with_services ::
  "('r \<times> duration) list \<Rightarrow> ('r, 'n, 'j, 'ch) service_manager \<Rightarrow> ('r, 'n, 'j, 'ch) service_manager" where
  "with_services svcs m = fold (\<lambda>(s, b) m. manager_register_rt s b m) svcs m"

lemma with_services_entries:
  "sm_entries (with_services svcs m) = sm_entries m @
     map (\<lambda>(s, b). \<lparr>en_service = s, en_budget = b, en_stats = rt_service_stats_default\<rparr>) svcs \<and>
   sm_config (with_services svcs m) = sm_config m"
  unfolding with_services_def by (induction svcs arbitrary: m) (auto simp: manager_register_rt_def)

lemma with_config_simps:
  "sm_entries (with_config ch mcfg) = []" "sm_config (with_config ch mcfg) = mcfg"
  by (simp_all add: with_config_def)

lemma with_services_new:
  "sm_entries (with_services svcs (with_config ch mcfg)) =
     map (\<lambda>(s, b). \<lparr>en_service = s, en_budget = b, en_stats = rt_service_stats_default\<rparr>) svcs"
  "sm_config (with_services svcs (with_config ch mcfg)) = mcfg"
  "mc_rt_check_config (sm_config (with_services svcs (with_config ch mcfg))) = mc_rt_check_config mcfg"
  by (simp_all add: with_services_entries with_config_simps)

lemma new_entries_inv:
  assumes "n < 2 ^ 64"
  shows "\<forall>e \<in> set (sm_entries (with_services svcs (with_config ch mcfg))).
    stats_inv cfg (en_stats e) \<and> unat (st_calls (en_stats e)) + n < 2 ^ 64"
  using assms by (auto simp: with_services_new stats_inv_default) (simp add: rt_service_stats_default_def)

lemma tick_run_new:
  fixes v :: "('r, 'ch) rt_service"
  assumes "tick_returns v" and "length els < 2 ^ 64"
  shows "\<exists>m :: ('r, 'n, 'j, 'ch) service_manager.
    tick_run v els (with_services svcs (with_config ch mcfg)) = Return m \<and>
    length (sm_entries m) = length svcs \<and> sm_config m = mcfg \<and>
    (\<forall>k < length svcs.
       stats_run (snd (svcs ! k)) (mc_rt_check_config mcfg) (map (\<lambda>el. el k) els) rt_service_stats_default =
         Return (en_stats (sm_entries m ! k)))"
proof -
  define m0 :: "('r, 'n, 'j, 'ch) service_manager" where "m0 = with_services svcs (with_config ch mcfg)"
  have m0: "length (sm_entries m0) = length svcs" "sm_config m0 = mcfg"
    "k < length svcs \<Longrightarrow> en_stats (sm_entries m0 ! k) = rt_service_stats_default"
    "k < length svcs \<Longrightarrow> en_budget (sm_entries m0 ! k) = snd (svcs ! k)" for k
    by (simp_all add: m0_def with_services_new split: prod.splits)
  have "\<forall>e \<in> set (sm_entries m0).
      stats_inv (mc_rt_check_config mcfg) (en_stats e) \<and> unat (st_calls (en_stats e)) + length els < 2 ^ 64"
    unfolding m0_def by (rule new_entries_inv[OF assms(2)])
  from tick_run_spec[OF assms(1) this] m0 show ?thesis unfolding m0_def[symmetric] by auto
qed

text \<open>
  C3. The manager disables an RT service exactly when its overruns have reached the configured limit
  (a limit of zero acts as one). For services registered with a new manager and any fewer than
  \<open>2^64\<close> ticks whose services do not panic, no counter overflows; each service takes part in the
  ticks until the overrun that exhausts its limit and in none after it, whatever the other services
  do; its overruns are counted exactly, and its largest measured time is kept.
\<close>

theorem manager_disables_at_limit:
  fixes v :: "('r, 'ch) rt_service"
  assumes "tick_returns v" and "length els < 2 ^ 64"
  shows "\<exists>m :: ('r, 'n, 'j, 'ch) service_manager.
    tick_run v els (with_services svcs (with_config ch mcfg)) = Return m \<and>
    length (sm_entries m) = length svcs \<and>
    (\<forall>k < length svcs.
       let cfg = mc_rt_check_config mcfg; budget = snd (svcs ! k); es = map (\<lambda>el. el k) els;
           st = en_stats (sm_entries m ! k)
       in (st_disabled st \<longleftrightarrow> overrun_limit cfg \<le> overruns budget es) \<and>
          unat (st_overruns st) = min (overrun_limit cfg) (overruns budget es) \<and>
          unat (st_calls st) = length (served budget (overrun_limit cfg) es) \<and>
          st_max_elapsed st = fold max (served budget (overrun_limit cfg) es) (from_nanos 0))"
proof -
  obtain m :: "('r, 'n, 'j, 'ch) service_manager" where
    m: "tick_run v els (with_services svcs (with_config ch mcfg)) = Return m" "length (sm_entries m) = length svcs"
    and run: "\<And>k. k < length svcs \<Longrightarrow>
      stats_run (snd (svcs ! k)) (mc_rt_check_config mcfg) (map (\<lambda>el. el k) els) rt_service_stats_default =
        Return (en_stats (sm_entries m ! k))"
    using tick_run_new[OF assms] by blast
  then show ?thesis
    using stats_run_default[OF _ run] assms(2) by (intro exI[of _ m]) (simp add: Let_def)
qed

text \<open>A service that returns from every tick, for the examples: it counts its ticks.\<close>

definition counting_service :: "(nat, unit) rt_service" where
  "counting_service =
     \<lparr>svc_name = \<lambda>_. ''counter'', svc_config = \<lambda>_. rt_config_default, svc_init = default_init,
      svc_tick = \<lambda>ctx n. Return (Ok (), n + 1, ctx), svc_shutdown = default_shutdown\<rparr>"

lemma counting_returns: "tick_returns counting_service"
  by (simp add: tick_returns_def counting_service_def)

theorem manager_disables_at_limit_witness:
  "\<exists>m :: (nat, unit, unit, unit) service_manager.
    tick_run counting_service [\<lambda>_. from_millis 3, \<lambda>_. from_millis 7]
      (with_services [(0, from_millis 5)] (with_config () manager_config_default)) = Return m \<and>
    \<not> st_disabled (en_stats (sm_entries m ! 0)) \<and> unat (st_overruns (en_stats (sm_entries m ! 0))) = 1"
  using manager_disables_at_limit[OF counting_returns,
      of "[\<lambda>_. from_millis 3, \<lambda>_. from_millis 7]" "[(0, from_millis 5)]" "()" manager_config_default,
      where 'n = unit and 'j = unit]
  by (auto simp: Let_def manager_config_default_def rt_check_config_default_def overrun_limit_def from_millis_def
      simp del: tick_run.simps)

text \<open>
  A disabled service is never run again: whatever ticks follow, its state, its statistics and
  its budget stay exactly what they were when it was disabled.
\<close>

theorem disabled_service_is_frozen:
  fixes v :: "('r, 'ch) rt_service" and m :: "('r, 'n, 'j, 'ch) service_manager"
  assumes "tick_returns v" and "length els + length els' < 2 ^ 64"
    and "tick_run v els (with_services svcs (with_config ch mcfg)) = Return m"
    and "k < length svcs" and "st_disabled (en_stats (sm_entries m ! k))"
  shows "\<exists>m'. tick_run v els' m = Return m' \<and> sm_entries m' ! k = sm_entries m ! k"
proof -
  let ?cfg = "mc_rt_check_config mcfg"
  have len: "length els < 2 ^ 64" using assms(2) by simp
  have m: "length (sm_entries m) = length svcs" "sm_config m = mcfg"
    and run: "\<And>k. k < length svcs \<Longrightarrow>
      stats_run (snd (svcs ! k)) ?cfg (map (\<lambda>el. el k) els) rt_service_stats_default =
        Return (en_stats (sm_entries m ! k))"
    using tick_run_new[OF assms(1) len, where 'n = 'n and 'j = 'j, of svcs ch mcfg] unfolding assms(3) by auto
  have "\<forall>e \<in> set (sm_entries m). stats_inv ?cfg (en_stats e) \<and> unat (st_calls (en_stats e)) + length els' < 2 ^ 64"
  proof
    fix e assume "e \<in> set (sm_entries m)"
    then obtain k where k: "k < length svcs" "e = sm_entries m ! k" using m(1) by (auto simp: in_set_conv_nth)
    have "unat (st_calls rt_service_stats_default) + length (map (\<lambda>el. el k) els) < 2 ^ 64"
      using len by (simp add: rt_service_stats_default_def)
    from stats_run_bounds[OF stats_inv_default this run[OF k(1)]] k(2) assms(2)
    show "stats_inv ?cfg (en_stats e) \<and> unat (st_calls (en_stats e)) + length els' < 2 ^ 64"
      by (simp add: rt_service_stats_default_def)
  qed
  from tick_run_spec[OF assms(1) this] m assms(4,5) show ?thesis by auto
qed

theorem disabled_service_is_frozen_witness:
  "\<exists>m m' :: (nat, unit, unit, unit) service_manager.
    tick_run counting_service [\<lambda>_. from_millis 7]
      (with_services [(0, from_millis 5)]
        (with_config () (manager_config_default\<lparr>mc_rt_check_config := \<lparr>disable_after_overruns = 1\<rparr>\<rparr>))) = Return m \<and>
    st_disabled (en_stats (sm_entries m ! 0)) \<and>
    tick_run counting_service [\<lambda>_. from_millis 1, \<lambda>_. from_millis 1] m = Return m' \<and>
    sm_entries m' ! 0 = sm_entries m ! 0"
proof -
  let ?cfg = "manager_config_default\<lparr>mc_rt_check_config := \<lparr>disable_after_overruns = 1\<rparr>\<rparr>"
  let ?svcs = "[(0 :: nat, from_millis 5)]"
  obtain m :: "(nat, unit, unit, unit) service_manager" where
    m: "tick_run counting_service [\<lambda>_. from_millis 7] (with_services ?svcs (with_config () ?cfg)) = Return m"
      "st_disabled (en_stats (sm_entries m ! 0))"
    using tick_run_new[OF counting_returns, of "[\<lambda>_. from_millis 7]" ?svcs "()" ?cfg, where 'n = unit and 'j = unit]
    by (auto simp: update_stats_def incr_def rt_service_stats_default_def from_millis_def from_nanos_def Let_def
        simp del: tick_run.simps dest!: sym[of _ "en_stats _"])
  then show ?thesis
    using disabled_service_is_frozen[OF counting_returns _ m(1) _ m(2), of "[\<lambda>_. from_millis 1, \<lambda>_. from_millis 1]"]
    by auto
qed

end
