(* ===== verification/Hierarchy_Properties.thy ===== *)
theory Hierarchy_Properties
  imports Service_Hierarchy
begin

text \<open>
  What the service hierarchy promises its clients over every history of operations: the place a
  service is registered at, completeness and order of the listings, and what a removal takes away.
\<close>

section \<open>Where a service is registered\<close>

text \<open>The parent a path names: the root when the path has no slash, or nothing before its last one.\<close>

definition parent_of_path :: "'j arena \<Rightarrow> string \<Rightarrow> nat option" where
  "parent_of_path ar path =
     (case rsplit_once CHR ''/'' path of
        None \<Rightarrow> Some 0
      | Some (p, _) \<Rightarrow> if p = [] then Some 0 else find_by_path ar 0 p)"

lemma parent_of_path_less:
  assumes "tree_ok ar" "parent_of_path ar path = Some p"
  shows "p < length ar"
  using assms tree_ok_root[OF assms(1)] find_parts_less[OF assms(1), of 0]
  by (auto simp: parent_of_path_def find_by_path_def split: option.splits if_splits)

lemma register_eq:
  assumes "tree_ok ar"
  shows "register path s ar =
    (case parent_of_path ar path of None \<Rightarrow> (False, ar) | Some p \<Rightarrow> (True, attach p s ar))"
proof -
  have "register path s ar = (case parent_of_path ar path of
      None \<Rightarrow> (False, ar) | Some p \<Rightarrow> (True, add_child p (length ar) (snd (tree_node_new s ar))))"
    by (auto simp: register_def parent_of_path_def Let_def tree_node_new_def split: option.splits)
  then show ?thesis
    using add_child_fresh[OF assms parent_of_path_less[OF assms]] by (auto split: option.splits)
qed

text \<open>
  C26. Registering a service either answers false and changes nothing, exactly when the path names no
  parent, or answers true and adds one node: under the parent, after every sibling of the same or a
  higher priority and before every sibling of a lower one. All other nodes keep their children and
  their parents, and in every hierarchy the children of every node are in descending priority.
\<close>

theorem register_places_by_priority:
  "let ar = hier_run ops; (ok, ar') = register path s ar in
     (\<forall>i < length ar. sorted_wrt (\<lambda>a b. prio ar b \<le> prio ar a) (tn_children (ar ! i))) \<and>
     (case parent_of_path ar path of
        None \<Rightarrow> \<not> ok \<and> ar' = ar
      | Some p \<Rightarrow>
          ok \<and> p < length ar \<and> length ar' = length ar + 1 \<and>
          ar' ! length ar = \<lparr>tn_data = s, tn_children = [], tn_parent = Some p\<rparr> \<and>
          ar' ! p = (ar ! p)\<lparr>tn_children :=
             filter (\<lambda>c. sn_priority s \<le> prio ar c) (tn_children (ar ! p)) @ length ar #
             filter (\<lambda>c. prio ar c < sn_priority s) (tn_children (ar ! p))\<rparr> \<and>
          (\<forall>i < length ar. i \<noteq> p \<longrightarrow> ar' ! i = ar ! i))"
proof -
  let ?ar = "hier_run ops"
  have ok: "tree_ok ?ar" by (rule hier_run_ok)
  have sorted: "\<forall>i < length ?ar. sorted_wrt (\<lambda>a b. prio ?ar b \<le> prio ?ar a) (tn_children (?ar ! i))"
    using tree_okD(3)[OF ok] by (simp add: children_sorted_def)
  show ?thesis
  proof (cases "parent_of_path ?ar path")
    case None
    then show ?thesis using sorted register_eq[OF ok, of path s] by (simp add: Let_def)
  next
    case (Some p)
    note p = parent_of_path_less[OF ok Some]
    have "attach p s ?ar ! i = ?ar ! i" if "i < length ?ar" "i \<noteq> p" for i
      using attach_nth[OF p, of i s] that by simp
    then show ?thesis
      using sorted register_eq[OF ok, of path s] Some p attach_nth[OF p, of p s]
        attach_nth[OF p, of "length ?ar" s] by (simp add: Let_def)
  qed
qed

theorem register_places_by_priority_witness:
  "let ar = hier_run [Register ''x'' (with_priority 5 (rt_node ''S'')), Register ''y'' (rt_node ''T'')] :: unit arena;
       (ok, ar') = register ''z'' (with_priority 5 (rt_node ''U'')) ar
   in ok \<and> tn_children (ar' ! 0) = [1, 3, 2] \<and> ar' ! 2 = ar ! 2"
proof -
  let ?ops = "[Register ''x'' (with_priority 5 (rt_node ''S'')), Register ''y'' (rt_node ''T'')] :: unit hier_op list"
  note defs = hier_run_def register_def rsplit_once_def Let_def tree_node_new_def hierarchy_new_def container_node_def
    service_node_new_def add_child_def insert_at_def rt_node_def with_priority_def prio_def
  have ar: "tn_children (hier_run ?ops ! 0) = [1, 2]" "length (hier_run ?ops) = 3"
    "prio (hier_run ?ops) 1 = 5" "prio (hier_run ?ops) 2 = 0"
    by (simp_all add: defs)
  have par: "parent_of_path (hier_run ?ops) ''z'' = Some 0"
    by (simp add: parent_of_path_def rsplit_once_def)
  have pr: "sn_priority (with_priority 5 (rt_node ''U'') :: unit service_node) = 5" by (simp add: with_priority_def)
  obtain ok ar' where r: "register ''z'' (with_priority 5 (rt_node ''U'')) (hier_run ?ops) = (ok, ar')" by (meson surj_pair)
  from register_places_by_priority[of ?ops "''z''" "with_priority 5 (rt_node ''U'')", unfolded r Let_def prod.case par option.case ar(2) pr]
  have "ok" "ar' ! 0 = (hier_run ?ops ! 0)\<lparr>tn_children :=
        filter (\<lambda>c. 5 \<le> prio (hier_run ?ops) c) (tn_children (hier_run ?ops ! 0)) @ 3 #
        filter (\<lambda>c. prio (hier_run ?ops) c < 5) (tn_children (hier_run ?ops ! 0))\<rparr>"
    "ar' ! 2 = hier_run ?ops ! 2"
    by simp_all
  then show ?thesis unfolding Let_def r prod.case ar(1) using ar(3,4) by simp
qed

text \<open>The root keeps its name.\<close>

lemma hier_step_root:
  assumes "tree_ok ar"
  shows "tn_data (hier_step op ar ! 0) = tn_data (ar ! 0)"
proof -
  have root: "0 < length ar" using tree_ok_root[OF assms] by simp
  have reg: "tn_data (snd (register path s ar) ! 0) = tn_data (ar ! 0)" for path s
    using register_eq[OF assms, of path s] root parent_of_path_less[OF assms, of path]
    by (auto simp: attach_nth split: option.splits)
  have rem: "tn_data (snd (remove_child i name ar) ! 0) = tn_data (ar ! 0)" if i: "i < length ar" for i name
    using assms i
  proof (cases rule: remove_child_cases[where name = name])
    case (removed c)
    then show ?thesis using i root tree_okD(1)[OF assms i removed(3)] by (auto simp: nth_list_update)
  qed simp
  show ?thesis using reg rem by (cases op) (simp_all add: create_container_def)
qed

lemma hier_run_root: "named (hier_run ops) ''root'' 0"
proof -
  have "tree_ok ar \<Longrightarrow> tn_data (fold hier_step ops ar ! 0) = tn_data (ar ! 0)" for ar :: "'a arena"
    by (induction ops arbitrary: ar) (simp_all add: hier_step_ok hier_step_root)
  from this[OF hierarchy_new_ok] show ?thesis
    by (simp add: hier_run_def named_def hierarchy_new_def tree_node_new_def container_node_def service_node_new_def)
qed

text \<open>
  The last segment of the path is dropped before the parent is looked up. So a service registered
  at \<open>root/realtime\<close>, or at \<open>root/\<close> and any other name, is always placed directly under the root,
  beside the container of that name and not in it.
\<close>

theorem register_below_root_goes_to_root:
  assumes "CHR ''/'' \<notin> set x"
  shows "register (''root/'' @ x) s (hier_run ops) = (True, attach 0 s (hier_run ops))"
proof -
  have "rsplit_once CHR ''/'' (''root/'' @ x) = Some (''root'', x)"
    using assms by (simp add: rsplit_once_Some)
  moreover have "find_by_path (hier_run ops) 0 ''root'' = Some 0"
    using hier_run_root[of ops] by (simp add: find_by_path_def)
  ultimately show ?thesis
    using register_eq[OF hier_run_ok, of "''root/'' @ x" s ops] by (simp add: parent_of_path_def)
qed

theorem register_below_root_goes_to_root_witness:
  "let ops = [CreateContainer ''root'' ''realtime''] :: unit hier_op list; s = rt_node ''ServiceA''
   in register ''root/realtime'' s (hier_run ops) = (True, attach 0 s (hier_run ops))"
  using register_below_root_goes_to_root[of "''realtime''" "rt_node ''ServiceA''"
      "[CreateContainer ''root'' ''realtime''] :: unit hier_op list"]
  by (simp del: hier_step.simps)

section \<open>The listings are complete\<close>

text \<open>The services a history of registrations got accepted, in order.\<close>

fun accepted :: "'j hier_op list \<Rightarrow> 'j arena \<Rightarrow> 'j service_node list" where
  "accepted [] ar = []"
| "accepted (Register path s # ops) ar =
     (if parent_of_path ar path = None then [] else [s]) @ accepted ops (hier_step (Register path s) ar)"
| "accepted (CreateContainer path name # ops) ar =
     (if parent_of_path ar path = None then [] else [container_node name])
     @ accepted ops (hier_step (CreateContainer path name) ar)"
| "accepted (RemoveChild i name # ops) ar = accepted ops (hier_step (RemoveChild i name) ar)"

definition no_removal :: "'j hier_op list \<Rightarrow> bool" where
  "no_removal ops \<longleftrightarrow> list_all (\<lambda>op. case op of RemoveChild i name \<Rightarrow> False | _ \<Rightarrow> True) ops"

lemma attach_data: "p < length ar \<Longrightarrow> map tn_data (attach p s ar) = map tn_data ar @ [s]"
  by (rule nth_equalityI) (auto simp: attach_nth less_Suc_eq_le nth_append)

lemma attach_attached:
  assumes "all_attached ar" "p < length ar"
  shows "all_attached (attach p s ar)"
  using assms attach_nth[OF assms(2)] by (auto simp: all_attached_def less_Suc_eq_le)

lemma registered_all:
  "tree_ok ar \<Longrightarrow> all_attached ar \<Longrightarrow> no_removal ops \<Longrightarrow>
   map tn_data (fold hier_step ops ar) = map tn_data ar @ accepted ops ar \<and> all_attached (fold hier_step ops ar)"
proof (induction ops ar rule: accepted.induct)
  case (2 path s ops ar)
  have rest: "no_removal ops" using 2(4) by (simp add: no_removal_def)
  have step: "map tn_data (hier_step (Register path s) ar) =
      map tn_data ar @ (if parent_of_path ar path = None then [] else [s])"
    "all_attached (hier_step (Register path s) ar)"
    using register_eq[OF 2(2), of path s] parent_of_path_less[OF 2(2), of path] 2(3)
    by (auto simp: attach_data attach_attached split: option.splits)
  show ?case using 2(1)[OF hier_step_ok[OF 2(2)] step(2) rest] step(1) by (simp del: hier_step.simps)
next
  case (3 path name ops ar)
  have rest: "no_removal ops" using 3(4) by (simp add: no_removal_def)
  have step: "map tn_data (hier_step (CreateContainer path name) ar) =
      map tn_data ar @ (if parent_of_path ar path = None then [] else [container_node name])"
    "all_attached (hier_step (CreateContainer path name) ar)"
    using register_eq[OF 3(2), of path "container_node name"] parent_of_path_less[OF 3(2), of path] 3(3)
    by (auto simp: create_container_def attach_data attach_attached split: option.splits)
  show ?case using 3(1)[OF hier_step_ok[OF 3(2)] step(2) rest] step(1) by (simp del: hier_step.simps)
qed (simp_all add: no_removal_def)

lemma hierarchy_new_data: "map tn_data hierarchy_new = [container_node ''root'']" "all_attached hierarchy_new"
  by (simp_all add: hierarchy_new_def tree_node_new_def all_attached_def)

lemma hier_run_data:
  assumes "no_removal ops"
  shows "map tn_data (hier_run ops) = container_node ''root'' # accepted ops hierarchy_new" "all_attached (hier_run ops)"
  using registered_all[OF hierarchy_new_ok hierarchy_new_data(2) assms] hierarchy_new_data(1)
  by (simp_all add: hier_run_def)

lemma mset_subtree_data:
  assumes "tree_ok ar" "all_attached ar"
  shows "mset (map (\<lambda>x. tn_data (ar ! x)) (subtree ar 0)) = mset (map tn_data ar)"
proof -
  have "mset (map (\<lambda>x. tn_data (ar ! x)) (subtree ar 0)) = image_mset (\<lambda>x. tn_data (ar ! x)) (mset [0..<length ar])"
    using subtree_root_all[OF assms] by simp
  also have "\<dots> = mset (map (\<lambda>x. tn_data (ar ! x)) [0..<length ar])" by (simp only: mset_map)
  also have "map (\<lambda>x. tn_data (ar ! x)) [0..<length ar] = map tn_data ar"
    by (rule nth_equalityI) simp_all
  finally show ?thesis .
qed

text \<open>
  C19. After any history of registrations the listing of the real-time services, and that of the
  others, returns each enabled service of that type that was accepted exactly as often as it was
  registered, and no other; the traversal visits every node once. Fuel of the number of nodes is
  enough, so the recursions end.
\<close>

theorem listings_are_complete:
  assumes "no_removal ops" and "length (hier_run ops) \<le> fuel"
  shows "let ar = hier_run ops; nodes = accepted ops hierarchy_new in
    (\<exists>rt nrt. get_rt_services fuel ar = Some rt \<and> get_non_rt_services fuel ar = Some nrt \<and>
       mset rt = mset (filter (\<lambda>d. sn_type d = RealTime \<and> sn_enabled d) nodes) \<and>
       mset nrt = mset (filter (\<lambda>d. sn_type d = NonRealTime \<and> sn_enabled d) nodes)) \<and>
    (\<exists>vs. traverse fuel ar 0 = Some vs \<and> mset (map fst vs) = mset (container_node ''root'' # nodes))"
proof -
  let ?ar = "hier_run ops" and ?nodes = "accepted ops hierarchy_new"
  have ok: "tree_ok ?ar" by (rule hier_run_ok)
  have len: "0 < length ?ar" "length ?ar - 0 \<le> fuel" using tree_ok_root[OF ok] assms(2) by simp_all
  have data: "mset (map (\<lambda>x. tn_data (?ar ! x)) (subtree ?ar 0)) = mset (container_node ''root'' # ?nodes)"
    using mset_subtree_data[OF ok] hier_run_data[OF assms(1)] by simp
  have sel: "mset (filter P (map (\<lambda>x. tn_data (?ar ! x)) (subtree ?ar 0))) = mset (filter P ?nodes)"
    if "\<not> P (container_node ''root'')" for P
    using that by (simp only: mset_filter data) simp
  obtain vs where "traverse_internal fuel ?ar 0 0 = Some vs" "map fst vs = map (\<lambda>x. tn_data (?ar ! x)) (subtree ?ar 0)"
    using traverse_subtree[OF ok len] by blast
  then have "\<exists>vs. traverse fuel ?ar 0 = Some vs \<and> mset (map fst vs) = mset (container_node ''root'' # ?nodes)"
    using data by (auto simp only: traverse_def)
  moreover have "\<exists>ns. services_by_type fuel ty ?ar 0 = Some ns \<and>
      mset ns = mset (filter (\<lambda>d. sn_type d = ty \<and> sn_enabled d) ?nodes)" if "ty \<noteq> Container" for ty
  proof -
    have "mset (filter (\<lambda>d. sn_type d = ty \<and> sn_enabled d) (map (\<lambda>x. tn_data (?ar ! x)) (subtree ?ar 0))) =
        mset (filter (\<lambda>d. sn_type d = ty \<and> sn_enabled d) ?nodes)"
      using that by (intro sel) (simp add: container_node_def service_node_new_def)
    with services_by_type_subtree[OF ok len, of ty] show ?thesis by blast
  qed
  from this[of RealTime] this[of NonRealTime] have
    "\<exists>rt nrt. get_rt_services fuel ?ar = Some rt \<and> get_non_rt_services fuel ?ar = Some nrt \<and>
       mset rt = mset (filter (\<lambda>d. sn_type d = RealTime \<and> sn_enabled d) ?nodes) \<and>
       mset nrt = mset (filter (\<lambda>d. sn_type d = NonRealTime \<and> sn_enabled d) ?nodes)"
    unfolding get_rt_services_def get_non_rt_services_def by blast
  ultimately show ?thesis unfolding Let_def by blast
qed

theorem listings_are_complete_witness:
  "let ops = [CreateContainer ''root'' ''a'', Register ''root/a/x'' (with_priority 5 (rt_node ''S'')),
              Register ''root/b/x'' (rt_node ''T'')] :: unit hier_op list;
       ar = hier_run ops; nodes = accepted ops hierarchy_new in
    nodes = [container_node ''a'', with_priority 5 (rt_node ''S'')] \<and>
    (\<exists>rt nrt. get_rt_services 3 ar = Some rt \<and> get_non_rt_services 3 ar = Some nrt \<and>
       mset rt = mset (filter (\<lambda>d. sn_type d = RealTime \<and> sn_enabled d) nodes) \<and>
       mset nrt = mset (filter (\<lambda>d. sn_type d = NonRealTime \<and> sn_enabled d) nodes))"
proof -
  let ?ops = "[CreateContainer ''root'' ''a'', Register ''root/a/x'' (with_priority 5 (rt_node ''S'')),
              Register ''root/b/x'' (rt_node ''T'')] :: unit hier_op list"
  note defs = hier_run_def create_container_def register_def rsplit_once_def Let_def tree_node_new_def
    hierarchy_new_def container_node_def service_node_new_def add_child_def insert_at_def find_by_path_def
    named_def find_child_def rt_node_def with_priority_def parent_of_path_def no_removal_def
  have acc: "accepted ?ops hierarchy_new = [container_node ''a'', with_priority 5 (rt_node ''S'')]"
    by (simp add: defs)
  have "no_removal ?ops" "length (hier_run ?ops) \<le> 3" by (simp_all add: defs)
  from listings_are_complete[OF this] acc show ?thesis unfolding Let_def by blast
qed

section \<open>What a removal takes away\<close>

lemma concat_map_remove1:
  "distinct xs \<Longrightarrow> f x = [] \<Longrightarrow> concat (map f (remove1 x xs)) = concat (map f xs)"
  by (induction xs) auto

lemma subtree_trans:
  assumes "tree_ok ar" "c < length ar" "k < length ar" "d \<in> set (tn_children (ar ! k))" "d \<in> set (subtree ar c)"
  shows "d = c \<or> k \<in> set (subtree ar c)"
proof (cases "d = c")
  case False
  have d: "tn_parent (ar ! d) = Some k" using tree_okD(1)[OF assms(1,3,4)] by simp
  have "(d, c) \<in> (parent_rel ar)\<^sup>*" using assms(5) subtree_set[OF assms(1,2)] by simp
  then obtain p where "(d, p) \<in> parent_rel ar" "(p, c) \<in> (parent_rel ar)\<^sup>*"
    using False by (auto elim: converse_rtranclE)
  then show ?thesis using d subtree_set[OF assms(1,2)] by (simp add: parent_rel_def)
qed simp

lemma subtree_detach_outside:
  assumes ok: "tree_ok ar" and i: "i < length ar" and c: "c \<in> set (tn_children (ar ! i))"
    and k: "k < length ar" "k \<notin> set (subtree ar c)"
  shows "subtree (detach i c ar) k = filter (\<lambda>x. x \<notin> set (subtree ar c)) (subtree ar k)"
proof -
  have ic: "i < c" "c < length ar" "i \<noteq> c" using tree_okD(1)[OF ok i c] by simp_all
  note ok' = detach_ok[OF ok i c]
  have "k \<notin> set (subtree ar c) \<longrightarrow>
      subtree (detach i c ar) k = filter (\<lambda>x. x \<notin> set (subtree ar c)) (subtree ar k)"
    using ok k(1)
  proof (induction rule: subtree_induct)
    case (node k)
    let ?out = "filter (\<lambda>x. x \<notin> set (subtree ar c))" and ?cs = "tn_children (ar ! k)"
    show ?case
    proof
      assume out: "k \<notin> set (subtree ar c)"
      have kc: "k \<noteq> c" using out subtree_unfold[OF ok ic(2)] by auto
      have kids: "tn_children (detach i c ar ! k) = (if k = i then remove1 c ?cs else ?cs)"
        using detach_nth[OF i ic(2,3) node(1)] kc by simp
      have sub: "subtree (detach i c ar) d = ?out (subtree ar d)" if "d \<in> set ?cs" "d \<noteq> c" for d
        using node(2)[OF that(1)] subtree_trans[OF ok ic(2) node(1) that(1)] that(2) out by blast
      have "concat (map (subtree (detach i c ar)) (tn_children (detach i c ar ! k))) = concat (map (?out \<circ> subtree ar) ?cs)"
      proof (cases "k = i")
        case True
        have "concat (map (subtree (detach i c ar)) (remove1 c ?cs)) = concat (map (?out \<circ> subtree ar) (remove1 c ?cs))"
          using sub tree_okD(2)[OF ok node(1)] by (intro arg_cong[where f = concat] map_cong) auto
        also have "\<dots> = concat (map (?out \<circ> subtree ar) ?cs)"
          using tree_okD(2)[OF ok node(1)] by (intro concat_map_remove1) simp_all
        finally show ?thesis using kids True by simp
      next
        case False
        have "c \<notin> set ?cs" using False tree_okD(1)[OF ok node(1)] tree_okD(1)[OF ok i c] by fastforce
        then have m: "map (subtree (detach i c ar)) ?cs = map (?out \<circ> subtree ar) ?cs" using sub by auto
        show ?thesis by (simp only: kids False if_False m)
      qed
      then show "subtree (detach i c ar) k = ?out (subtree ar k)"
        using out subtree_unfold[OF ok node(1)] subtree_unfold[OF ok', of k] node(1)
        by (simp add: filter_concat)
    qed
  qed
  then show ?thesis using k(2) by simp
qed

text \<open>
  C34. Removing a child by its name takes the first child of that name with everything below it out
  of the listings and leaves the rest of the listings in their order; the removed node loses its
  parent, and no other node changes.
\<close>

theorem removal_takes_the_subtree:
  assumes "i < length (hier_run ops)" and "remove_child i name (hier_run ops) = (Some c, ar')"
    and "length (hier_run ops) \<le> fuel"
  shows "let ar = hier_run ops in
    find_child ar i name = Some c \<and> tn_parent (ar' ! c) = None \<and> length ar' = length ar \<and>
    (\<forall>k < length ar. k \<noteq> i \<and> k \<noteq> c \<longrightarrow> ar' ! k = ar ! k) \<and>
    services_by_type fuel ty ar' 0 =
      Some (filter (\<lambda>d. sn_type d = ty \<and> sn_enabled d)
        (map (\<lambda>x. tn_data (ar ! x)) (filter (\<lambda>x. x \<notin> set (subtree ar c)) (subtree ar 0))))"
proof -
  let ?ar = "hier_run ops"
  have ok: "tree_ok ?ar" by (rule hier_run_ok)
  from remove_child_cases[OF ok assms(1), of name] assms(2)
  have c: "ar' = detach i c ?ar" "find_child ?ar i name = Some c" "c \<in> set (tn_children (?ar ! i))"
    unfolding detach_def by (auto elim: remove_child_cases[OF ok assms(1), of name])
  have ic: "i < c" "c < length ?ar" "i \<noteq> c" using tree_okD(1)[OF ok assms(1) c(3)] by simp_all
  note nth = detach_nth[OF assms(1) ic(2,3)]
  have data: "tn_data (ar' ! k) = tn_data (?ar ! k)" if "k < length ?ar" for k
    using nth[OF that] c(1) by simp
  have root: "0 < length ?ar" using tree_ok_root[OF ok] by simp
  have "0 \<notin> set (subtree ?ar c)" using subtree_ge[OF ok ic(2)] ic(1) by auto
  from subtree_detach_outside[OF ok assms(1) c(3) root this]
  have sub: "subtree ar' 0 = filter (\<lambda>x. x \<notin> set (subtree ?ar c)) (subtree ?ar 0)" using c(1) by simp
  have mp: "map (\<lambda>x. tn_data (ar' ! x)) (subtree ar' 0) = map (\<lambda>x. tn_data (?ar ! x)) (subtree ar' 0)"
    using subtree_ge[OF ok root] sub data by auto
  have sv: "services_by_type fuel ty ar' 0 =
      Some (filter (\<lambda>d. sn_type d = ty \<and> sn_enabled d) (map (\<lambda>x. tn_data (ar' ! x)) (subtree ar' 0)))"
    using detach_ok[OF ok assms(1) c(3)] c(1) root assms(3) by (intro services_by_type_subtree) simp_all
  have "tn_parent (ar' ! c) = None" "length ar' = length ?ar" "\<forall>k < length ?ar. k \<noteq> i \<and> k \<noteq> c \<longrightarrow> ar' ! k = ?ar ! k"
    using c(1) nth ic by simp_all
  with c(2) sv[unfolded mp, unfolded sub] show ?thesis unfolding Let_def by blast
qed

theorem removal_takes_the_subtree_witness:
  "let ops = [CreateContainer ''root'' ''a'', Register ''root/a/x'' (rt_node ''S''),
              Register ''x'' (rt_node ''T'')] :: unit hier_op list; ar = hier_run ops;
       ar' = snd (remove_child 0 ''a'' ar) in
   services_by_type 4 RealTime ar' 0 =
     Some (filter (\<lambda>d. sn_type d = RealTime \<and> sn_enabled d)
        (map (\<lambda>x. tn_data (ar ! x)) (filter (\<lambda>x. x \<notin> set (subtree ar 1)) (subtree ar 0)))) \<and>
   set (subtree ar 1) = {1, 2}"
proof -
  let ?ops = "[CreateContainer ''root'' ''a'', Register ''root/a/x'' (rt_node ''S''),
              Register ''x'' (rt_node ''T'')] :: unit hier_op list"
  note defs = hier_run_def create_container_def register_def rsplit_once_def Let_def tree_node_new_def
    hierarchy_new_def container_node_def service_node_new_def add_child_def insert_at_def find_by_path_def
    named_def find_child_def rt_node_def
  have run: "0 < length (hier_run ?ops)" "length (hier_run ?ops) \<le> 4" by (simp_all add: defs)
  have rem: "remove_child 0 ''a'' (hier_run ?ops) = (Some 1, snd (remove_child 0 ''a'' (hier_run ?ops)))"
    by (simp add: defs prio_def remove_child_def)
  have sub: "set (subtree (hier_run ?ops) 1) = {1, 2}"
    by (simp add: defs prio_def subtree_def numeral_2_eq_2)
  from removal_takes_the_subtree[OF run(1) rem run(2), of RealTime] sub show ?thesis unfolding Let_def by blast
qed

end
