(* ===== verification/Manager_Properties.thy ===== *)
theory Manager_Properties
  imports Service_Properties Hierarchy_Properties
begin

text \<open>
  The registry over its history, the lifecycle of the manager, the two views it keeps of its Non-RT
  services, and the drain of the event channel.
\<close>

section \<open>The registry over its history\<close>

datatype ('r, 'n) reg_op =
    RegRt string 'r
  | RegNonRt string 'n
  | UnregRt string
  | UnregNonRt string

fun reg_step :: "('r, 'n) reg_op \<Rightarrow> ('r, 'n) service_registry \<Rightarrow> ('r, 'n) service_registry" where
  "reg_step (RegRt n s) r = register_rt (\<lambda>_. n) s r"
| "reg_step (RegNonRt n s) r = register_non_rt (\<lambda>_. n) s r"
| "reg_step (UnregRt n) r = snd (unregister_rt n r)"
| "reg_step (UnregNonRt n) r = snd (unregister_non_rt n r)"

text \<open>The operations of a history on each of the two maps.\<close>

fun rt_ops :: "('r, 'n) reg_op list \<Rightarrow> (string, 'r) map_op list" where
  "rt_ops [] = []"
| "rt_ops (RegRt n s # ops) = Put n s # rt_ops ops"
| "rt_ops (UnregRt n # ops) = Del n # rt_ops ops"
| "rt_ops (_ # ops) = rt_ops ops"

fun non_rt_ops :: "('r, 'n) reg_op list \<Rightarrow> (string, 'n) map_op list" where
  "non_rt_ops [] = []"
| "non_rt_ops (RegNonRt n s # ops) = Put n s # non_rt_ops ops"
| "non_rt_ops (UnregNonRt n # ops) = Del n # non_rt_ops ops"
| "non_rt_ops (_ # ops) = non_rt_ops ops"

lemma other_map_same:
  "non_rt_of (put_rt n s r) k = non_rt_of r k" "non_rt_of (snd (unregister_rt n r)) k = non_rt_of r k"
  "rt_of (put_non_rt n t r) k = rt_of r k" "rt_of (snd (unregister_non_rt n r)) k = rt_of r k"
  by (simp_all add: rt_of_def non_rt_of_def put_rt_def put_non_rt_def unregister_rt_def unregister_non_rt_def
      split: option.splits)

lemma registry_new_empty [simp]:
  "rt_of service_registry_new k = None" "non_rt_of service_registry_new k = None"
  by (simp_all add: rt_of_def non_rt_of_def service_registry_new_def)

lemma reg_step_inv: "registry_inv r \<Longrightarrow> registry_inv (reg_step op r)"
  by (cases op)
    (simp_all add: register_rt_def register_non_rt_def put_rt_inv put_non_rt_inv unregister_rt_inv unregister_non_rt_inv)

lemma reg_history:
  "registry_inv r \<Longrightarrow> registry_inv (fold reg_step ops r) \<and>
   rt_of (fold reg_step ops r) k = last_write k (rt_ops ops) (rt_of r k) \<and>
   non_rt_of (fold reg_step ops r) k = last_write k (non_rt_ops ops) (non_rt_of r k)"
proof (induction ops arbitrary: r)
  case (Cons op ops)
  note IH = Cons.IH[OF reg_step_inv[OF Cons.prems, of op]]
  show ?case
    using IH Cons.prems
    by (cases op)
      (auto simp: register_rt_def register_non_rt_def rt_map.get_put rt_map.get_del non_rt_map.get_put
        non_rt_map.get_del other_map_same)
qed simp

text \<open>A cell is never taken away from those who hold its address.\<close>

lemma reg_cells_kept:
  "a < next_cell r \<Longrightarrow> rt_cells (fold reg_step ops r) a = rt_cells r a \<and>
   non_rt_cells (fold reg_step ops r) a = non_rt_cells r a"
proof (induction ops arbitrary: r)
  case (Cons op ops)
  have "a < next_cell (reg_step op r)" "rt_cells (reg_step op r) a = rt_cells r a"
    "non_rt_cells (reg_step op r) a = non_rt_cells r a"
    using Cons.prems
    by (cases op; simp add: register_rt_def register_non_rt_def put_rt_def put_non_rt_def unregister_rt_def
        unregister_non_rt_def)+
  then show ?case using Cons.IH[of "reg_step op r"] by simp
qed simp

text \<open>
  C31. After any history of registrations and removals a name leads to the service last registered
  under it, unless it was removed since; the real-time and the other services never get in each
  other's way; and a service someone obtained earlier stays as it was, replaced or not.
\<close>

theorem registry_follows_history:
  "let r = fold reg_step ops service_registry_new; r' = fold reg_step ops' r in
     rt_of r' k = last_write k (rt_ops (ops @ ops')) None \<and>
     non_rt_of r' k = last_write k (non_rt_ops (ops @ ops')) None \<and>
     (case get_rt r k of None \<Rightarrow> rt_of r k = None | Some a \<Rightarrow> rt_cells r' a = rt_of r k \<and> rt_of r k \<noteq> None) \<and>
     (case get_non_rt r k of None \<Rightarrow> non_rt_of r k = None
      | Some a \<Rightarrow> non_rt_cells r' a = non_rt_of r k \<and> non_rt_of r k \<noteq> None)"
proof -
  let ?r = "fold reg_step ops service_registry_new"
  have inv: "registry_inv ?r" using reg_history[OF registry_inv_new] by blast
  have kept: "a < next_cell ?r \<Longrightarrow> rt_cells (fold reg_step ops' ?r) a = rt_cells ?r a"
    "a < next_cell ?r \<Longrightarrow> non_rt_cells (fold reg_step ops' ?r) a = non_rt_cells ?r a" for a
    using reg_cells_kept[of a ?r ops'] by blast+
  have "rt_of (fold reg_step ops' ?r) k = last_write k (rt_ops (ops @ ops')) None"
    "non_rt_of (fold reg_step ops' ?r) k = last_write k (non_rt_ops (ops @ ops')) None"
    using reg_history[OF registry_inv_new, of "ops @ ops'" k] by simp_all
  moreover have "case get_rt ?r k of None \<Rightarrow> rt_of ?r k = None
      | Some a \<Rightarrow> rt_cells (fold reg_step ops' ?r) a = rt_of ?r k \<and> rt_of ?r k \<noteq> None"
    using inv kept(1) by (auto simp: get_rt_def rt_of_def registry_inv_def split: option.splits)
  moreover have "case get_non_rt ?r k of None \<Rightarrow> non_rt_of ?r k = None
      | Some a \<Rightarrow> non_rt_cells (fold reg_step ops' ?r) a = non_rt_of ?r k \<and> non_rt_of ?r k \<noteq> None"
    using inv kept(2) by (auto simp: get_non_rt_def non_rt_of_def registry_inv_def split: option.splits)
  ultimately show ?thesis unfolding Let_def by blast
qed

section \<open>The lifecycle\<close>

text \<open>A call on the cells at distinct addresses reaches each of them once.\<close>

lemma each_cell_spec:
  "distinct as \<Longrightarrow> \<forall>a \<in> set as. cells a \<noteq> None \<Longrightarrow>
   each_cell f as cells = (map (\<lambda>a. (a, fst (f (the (cells a))))) as,
     \<lambda>a. if a \<in> set as then map_option (\<lambda>n. snd (f n)) (cells a) else cells a)"
proof (induction as arbitrary: cells)
  case (Cons a as)
  obtain n res n' where n: "cells a = Some n" "f n = (res, n')" using Cons.prems(2) by (cases "f (the (cells a))") auto
  define cells' where "cells' = cells(a \<mapsto> n')"
  have same: "cells' b = cells b" if "b \<noteq> a" for b using that by (simp add: cells'_def)
  have mem: "cells' b = cells b" if "b \<in> set as" for b using same[of b] that Cons.prems(1) by fastforce
  have "\<forall>b \<in> set as. cells' b \<noteq> None" using Cons.prems by (auto simp: cells'_def)
  from Cons.IH[OF _ this] Cons.prems(1) n
  have "each_cell f (a # as) cells = ((a, res) # map (\<lambda>b. (b, fst (f (the (cells' b))))) as,
      \<lambda>b. if b \<in> set as then map_option (\<lambda>n. snd (f n)) (cells' b) else cells' b)"
    by (simp flip: cells'_def)
  moreover have "map (\<lambda>b. (b, fst (f (the (cells' b))))) as = map (\<lambda>b. (b, fst (f (the (cells b))))) as"
    using mem by (intro map_cong) simp_all
  moreover have "cells' a = Some n'" by (simp add: cells'_def)
  ultimately show ?case using n Cons.prems(1) same mem by (auto simp: fun_eq_iff)
qed simp

text \<open>The order in which the iterator produces the names: every key of the map once.\<close>

definition names_of :: "string list \<Rightarrow> ('r, 'n) service_registry \<Rightarrow> bool" where
  "names_of names r \<longleftrightarrow> distinct names \<and> set names = dom (non_rt_services r)"

lemma all_non_rt_cells:
  assumes "registry_inv r" "names_of names r"
  shows "distinct (all_non_rt names r)" "\<forall>a \<in> set (all_non_rt names r). non_rt_cells r a \<noteq> None"
    "a \<in> set (all_non_rt names r) \<longleftrightarrow> (\<exists>n. non_rt_services r n = Some a)"
    "map (\<lambda>a. the (non_rt_cells r a)) (all_non_rt names r) = map (\<lambda>n. the (non_rt_of r n)) names"
proof -
  have list: "list_non_rt names r = names"
    using assms(2) by (auto simp: list_non_rt_def names_of_def intro!: filter_True)
  have "inj_on (\<lambda>n. the (non_rt_services r n)) (set names)"
    using assms by (auto simp: registry_inv_def names_of_def inj_on_def dom_def)
  then show "distinct (all_non_rt names r)"
    using assms(2) by (simp add: all_non_rt_def list distinct_map names_of_def)
  show in_iff: "a \<in> set (all_non_rt names r) \<longleftrightarrow> (\<exists>n. non_rt_services r n = Some a)" for a
    using assms(2) by (force simp: all_non_rt_def list names_of_def)
  show "\<forall>a \<in> set (all_non_rt names r). non_rt_cells r a \<noteq> None"
    using assms(1) in_iff unfolding registry_inv_def by blast
  show "map (\<lambda>a. the (non_rt_cells r a)) (all_non_rt names r) = map (\<lambda>n. the (non_rt_of r n)) names"
    using assms(2) by (auto simp: all_non_rt_def list non_rt_of_def names_of_def split: option.splits)
qed

text \<open>One call on every Non-RT service of a registry.\<close>

lemma each_registered:
  assumes "registry_inv r" "names_of names r"
    and "each_cell f (all_non_rt names r) (non_rt_cells r) = (results, cells)"
  shows "map snd results = map (\<lambda>n. fst (f (the (non_rt_of r n)))) names"
    "non_rt_of (r\<lparr>non_rt_cells := cells\<rparr>) n = map_option (\<lambda>s. snd (f s)) (non_rt_of r n)"
    "registry_inv (r\<lparr>non_rt_cells := cells\<rparr>)" "names_of names (r\<lparr>non_rt_cells := cells\<rparr>)"
proof -
  note all = all_non_rt_cells[OF assms(1,2)]
  have res: "results = map (\<lambda>a. (a, fst (f (the (non_rt_cells r a))))) (all_non_rt names r)"
    and cells: "cells = (\<lambda>a. if a \<in> set (all_non_rt names r) then map_option (\<lambda>n. snd (f n)) (non_rt_cells r a)
        else non_rt_cells r a)"
    using each_cell_spec[OF all(1,2), of f] assms(3) by simp_all
  have "map snd results = map (\<lambda>s. fst (f s)) (map (\<lambda>a. the (non_rt_cells r a)) (all_non_rt names r))"
    by (simp add: res)
  then show "map snd results = map (\<lambda>n. fst (f (the (non_rt_of r n)))) names" by (simp add: all(4))
  have a: "a \<in> set (all_non_rt names r)" if "non_rt_services r n = Some a" for n a using all(3) that by blast
  show "non_rt_of (r\<lparr>non_rt_cells := cells\<rparr>) n = map_option (\<lambda>s. snd (f s)) (non_rt_of r n)"
    using a by (auto simp: non_rt_of_def cells split: option.splits)
  show "registry_inv (r\<lparr>non_rt_cells := cells\<rparr>)"
    using assms(1) by (auto simp: registry_inv_def cells)
  show "names_of names (r\<lparr>non_rt_cells := cells\<rparr>)" using assms(2) by (simp add: names_of_def)
qed

datatype command = StartAll | StopAll

fun command_step ::
  "('r, 'ch) rt_service \<Rightarrow> ('n, 'j, 'ch) nonrt_service \<Rightarrow> os_answers \<Rightarrow> string list \<Rightarrow> command
   \<Rightarrow> ('r, 'n, 'j, 'ch) service_manager \<Rightarrow> ('r, 'n, 'j, 'ch) service_manager" where
  "command_step v u os names StartAll m = snd (snd (start_all v u os names m))"
| "command_step v u os names StopAll m = snd (snd (stop_all v u names m))"

text \<open>The calls that take effect: a start of a stopped manager, a stop of a running one.\<close>

fun effective :: "bool \<Rightarrow> command list \<Rightarrow> command list" where
  "effective running [] = []"
| "effective running (StartAll # cs) = (if running then effective True cs else StartAll # effective True cs)"
| "effective running (StopAll # cs) = (if running then StopAll # effective False cs else effective False cs)"

definition on_non_rt :: "('n, 'j, 'ch) nonrt_service \<Rightarrow> command \<Rightarrow> 'n \<Rightarrow> 'n" where
  "on_non_rt u c s = (case c of StartAll \<Rightarrow> snd (ns_start u s) | StopAll \<Rightarrow> snd (ns_stop u s))"

definition on_rt :: "('r, 'ch) rt_service \<Rightarrow> command \<Rightarrow> 'r \<Rightarrow> 'r" where
  "on_rt v c s = (case c of StartAll \<Rightarrow> snd (svc_init v s) | StopAll \<Rightarrow> snd (svc_shutdown v s))"

lemma effective_alternates:
  "i < length (effective running cs) \<Longrightarrow> effective running cs ! i = (if even i \<longleftrightarrow> running then StopAll else StartAll)"
proof (induction cs arbitrary: running i)
  case (Cons c cs)
  then show ?case by (cases c; cases running; cases i) auto
qed simp

lemma command_step_spec:
  fixes m :: "('r, 'n, 'j, 'ch) service_manager" and v u os names c
  assumes "registry_inv (sm_registry m)" "names_of names (sm_registry m)"
  defines "m' \<equiv> command_step v u os names c m" and "acts \<equiv> effective (sm_running m) [c]"
  shows "registry_inv (sm_registry m')" "names_of names (sm_registry m')"
    "sm_running m' \<longleftrightarrow> c = StartAll"
    "non_rt_of (sm_registry m') n = map_option (fold (on_non_rt u) acts) (non_rt_of (sm_registry m) n)"
    "sm_entries m' = map (\<lambda>e. e\<lparr>en_service := fold (on_rt v) acts (en_service e)\<rparr>) (sm_entries m)"
proof -
  obtain rs cs rs' cs' where call:
    "each_cell (ns_start u) (all_non_rt names (sm_registry m)) (non_rt_cells (sm_registry m)) = (rs, cs)"
    "each_cell (ns_stop u) (all_non_rt names (sm_registry m)) (non_rt_cells (sm_registry m)) = (rs', cs')"
    by (meson surj_pair)
  note reg = each_registered[OF assms(1,2) call(1)] each_registered[OF assms(1,2) call(2)]
  note defs = m'_def acts_def start_all_def stop_all_def each_entry_def on_non_rt_def on_rt_def Let_def
  show "registry_inv (sm_registry m')" "names_of names (sm_registry m')" "sm_running m' \<longleftrightarrow> c = StartAll"
    using assms(1,2) call reg by (cases c; simp add: defs)+
  show "non_rt_of (sm_registry m') n = map_option (fold (on_non_rt u) acts) (non_rt_of (sm_registry m) n)"
    using call reg(2,6) by (cases c) (simp_all add: defs option.map_id comp_def)
  show "sm_entries m' = map (\<lambda>e. e\<lparr>en_service := fold (on_rt v) acts (en_service e)\<rparr>) (sm_entries m)"
    using call by (cases c) (simp_all add: defs)
qed

lemma effective_Cons: "effective running (c # cs) = effective running [c] @ effective (c = StartAll) cs"
  by (cases c) simp_all

lemma command_run:
  fixes m :: "('r, 'n, 'j, 'ch) service_manager"
  shows "registry_inv (sm_registry m) \<Longrightarrow> names_of names (sm_registry m) \<Longrightarrow>
   non_rt_of (sm_registry (fold (command_step v u os names) cs m)) n =
     map_option (fold (on_non_rt u) (effective (sm_running m) cs)) (non_rt_of (sm_registry m) n) \<and>
   sm_entries (fold (command_step v u os names) cs m) =
     map (\<lambda>e. e\<lparr>en_service := fold (on_rt v) (effective (sm_running m) cs) (en_service e)\<rparr>) (sm_entries m) \<and>
   sm_running (fold (command_step v u os names) cs m) = (if cs = [] then sm_running m else last cs = StartAll)"
proof (induction cs arbitrary: m)
  case Nil
  then show ?case by (simp add: option.map_ident)
next
  case (Cons c cs)
  note step = command_step_spec[OF Cons.prems, of v u os c]
  show ?case
    using Cons.IH[OF step(1,2)] step(3,4,5)
    by (simp add: effective_Cons[of "sm_running m" c cs] option.map_comp comp_def)
qed

text \<open>A manager on which Non-RT services were registered one after another.\<close>

definition with_nonrt ::
  "('n, 'j, 'ch) nonrt_service \<Rightarrow> 'n list \<Rightarrow> ('r, 'n, 'j, 'ch) service_manager \<Rightarrow> ('r, 'n, 'j, 'ch) service_manager" where
  "with_nonrt u svcs m = fold (manager_register_nonrt u) svcs m"

lemma with_nonrt_simps:
  "sm_registry (with_nonrt u svcs m) = fold reg_step (map (\<lambda>s. RegNonRt (ns_name u s) s) svcs) (sm_registry m)"
  "sm_hierarchy (with_nonrt u svcs m) =
     fold hier_step (map (\<lambda>s. Register ''root'' (non_rt_node (ns_name u s))) svcs) (sm_hierarchy m)"
  "sm_entries (with_nonrt u svcs m) = sm_entries m" "sm_running (with_nonrt u svcs m) = sm_running m"
  unfolding with_nonrt_def
  by (induction svcs arbitrary: m; simp add: manager_register_nonrt_def Let_def register_non_rt_def)+

lemma with_services_rest:
  "sm_registry (with_services svcs m) = sm_registry m" "sm_hierarchy (with_services svcs m) = sm_hierarchy m"
  "sm_running (with_services svcs m) = sm_running m"
  unfolding with_services_def by (induction svcs arbitrary: m) (auto simp: manager_register_rt_def)

definition fresh_manager ::
  "('n, 'j, 'ch) nonrt_service \<Rightarrow> ('r \<times> duration) list \<Rightarrow> 'n list \<Rightarrow> 'ch \<Rightarrow> manager_config
   \<Rightarrow> ('r, 'n, 'j, 'ch) service_manager" where
  "fresh_manager u rts nrts ch cfg = with_nonrt u nrts (with_services rts (with_config ch cfg))"

lemma non_rt_ops_register: "non_rt_ops (map (\<lambda>s. RegNonRt (f s) s) svcs) = map (\<lambda>s. Put (f s) s) svcs"
  by (induction svcs) simp_all

lemma last_write_puts:
  "last_write k (map (\<lambda>s. Put (f s) s) svcs) old =
     (case map_of (rev (map (\<lambda>s. (f s, s)) svcs)) k of None \<Rightarrow> old | Some s \<Rightarrow> Some s)"
  by (induction svcs arbitrary: old) (auto simp: map_add_def split: option.splits)

lemma fresh_manager_simps:
  fixes u :: "('n, 'j, 'ch) nonrt_service" and rts :: "('r \<times> duration) list"
  shows "registry_inv (sm_registry (fresh_manager u rts nrts ch cfg))"
  "non_rt_of (sm_registry (fresh_manager u rts nrts ch cfg)) k = map_of (rev (map (\<lambda>s. (ns_name u s, s)) nrts)) k"
  "dom (non_rt_services (sm_registry (fresh_manager u rts nrts ch cfg))) = ns_name u ` set nrts"
  "sm_hierarchy (fresh_manager u rts nrts ch cfg) =
     hier_run (map (\<lambda>s. Register ''root'' (non_rt_node (ns_name u s))) nrts)"
  "sm_running (fresh_manager u rts nrts ch cfg) = False"
  "map en_service (sm_entries (fresh_manager u rts nrts ch cfg)) = map fst rts"
proof -
  let ?r = "sm_registry (fresh_manager u rts nrts ch cfg)"
  have new: "sm_registry (with_config ch cfg) = service_registry_new" "sm_hierarchy (with_config ch cfg) = hierarchy_new"
    by (simp_all add: with_config_def)
  have r: "?r = fold reg_step (map (\<lambda>s. RegNonRt (ns_name u s) s) nrts) service_registry_new"
    by (simp add: fresh_manager_def with_nonrt_simps with_services_rest with_config_def)
  show inv: "registry_inv ?r" unfolding r using reg_history[OF registry_inv_new] by blast
  have get: "non_rt_of ?r k = map_of (rev (map (\<lambda>s. (ns_name u s, s)) nrts)) k" for k
    unfolding r using reg_history[OF registry_inv_new, of "map (\<lambda>s. RegNonRt (ns_name u s) s :: ('r, 'n) reg_op) nrts" k]
    by (simp add: non_rt_ops_register last_write_puts split: option.splits)
  then show "non_rt_of ?r k = map_of (rev (map (\<lambda>s. (ns_name u s, s)) nrts)) k" .
  have "non_rt_services ?r k = None \<longleftrightarrow> non_rt_of ?r k = None" for k
    using inv by (auto simp: non_rt_of_def registry_inv_def split: option.splits)
  then have "dom (non_rt_services ?r) = dom (map_of (rev (map (\<lambda>s. (ns_name u s, s)) nrts)))"
    by (auto simp: get dom_def)
  then show "dom (non_rt_services ?r) = ns_name u ` set nrts" by (auto simp: dom_map_of_conv_image_fst image_image)
  show "sm_hierarchy (fresh_manager u rts nrts ch cfg) =
     hier_run (map (\<lambda>s. Register ''root'' (non_rt_node (ns_name u s))) nrts)"
    by (simp add: fresh_manager_def with_nonrt_simps with_services_rest with_config_def hier_run_def)
  show "sm_running (fresh_manager u rts nrts ch cfg) = False"
    by (simp add: fresh_manager_def with_nonrt_simps with_services_rest with_config_def)
  show "map en_service (sm_entries (fresh_manager u rts nrts ch cfg)) = map fst rts"
    by (simp add: fresh_manager_def with_nonrt_simps with_services_new comp_def split_def)
qed

text \<open>
  C14. In any sequence of starts and stops on a manager, exactly the calls that alternate, beginning
  with a start, take effect: every other call answers an error and changes nothing. Each that takes
  effect is passed to every registered service once, real-time or not, whatever the other services
  answer; so no service is ever started twice without a stop between, or stopped before its start.
\<close>

theorem start_stop_alternate:
  fixes m :: "('r, 'n, 'j, 'ch) service_manager"
  assumes "names_of names (sm_registry (fresh_manager u rts nrts ch cfg))"
  shows "let m = fold (command_step v u os names) cs (fresh_manager u rts nrts ch cfg);
             acts = effective False cs
    in (\<forall>i < length acts. acts ! i = (if even i then StartAll else StopAll)) \<and>
       map en_service (sm_entries m) = map (\<lambda>(s, b). fold (on_rt v) acts s) rts \<and>
       (\<forall>name. non_rt_of (sm_registry m) name =
          map_option (fold (on_non_rt u) acts) (map_of (rev (map (\<lambda>s. (ns_name u s, s)) nrts)) name)) \<and>
       sm_running m = (cs \<noteq> [] \<and> last cs = StartAll) \<and>
       (fst (start_all v u os names m) = Ok () \<longleftrightarrow> \<not> sm_running m) \<and>
       (fst (stop_all v u names m) = Ok () \<longleftrightarrow> sm_running m)"
proof -
  let ?start = "fresh_manager u rts nrts ch cfg" and ?acts = "effective False cs"
  let ?m = "fold (command_step v u os names) cs ?start"
  note fresh = fresh_manager_simps[of u rts nrts ch cfg]
  note run = command_run[OF fresh(1) assms, of v u os cs, unfolded fresh(2,5)]
  have entries: "sm_entries ?m = map (\<lambda>e. e\<lparr>en_service := fold (on_rt v) ?acts (en_service e)\<rparr>) (sm_entries ?start)"
    using run by blast
  have "map en_service (sm_entries ?m) = map (fold (on_rt v) ?acts) (map en_service (sm_entries ?start))"
    unfolding entries by (simp add: comp_def)
  then have "map en_service (sm_entries ?m) = map (\<lambda>(s, b). fold (on_rt v) ?acts s) rts"
    using fresh(6) by (simp add: comp_def split_def)
  moreover have "(fst (start_all v u os names ?m) = Ok () \<longleftrightarrow> \<not> sm_running ?m) \<and>
      (fst (stop_all v u names ?m) = Ok () \<longleftrightarrow> sm_running ?m)"
    by (simp add: start_all_def stop_all_def Let_def split: prod.splits)
  moreover have "\<forall>i < length ?acts. ?acts ! i = (if even i then StartAll else StopAll)"
    using effective_alternates[of _ False cs] by simp
  ultimately show ?thesis using run unfolding Let_def by auto
qed

text \<open>A Non-RT service for the examples: it refuses to start twice and counts its calls.\<close>

definition switch_service :: "(bool \<times> nat, unit, unit) nonrt_service" where
  "switch_service =
     \<lparr>ns_name = \<lambda>_. ''switch'',
      ns_start = \<lambda>(on, k). if on then (Err AlreadyRunning, (on, k)) else (Ok (), (True, k + 1)),
      ns_stop = \<lambda>(on, k). if on then (Ok (), (False, k)) else (Err NotRunning, (on, k)),
      ns_health_check = fst, ns_status = \<lambda>_. service_status_new ''switch'', ns_call = default_call\<rparr>"

theorem start_stop_alternate_witness:
  "let m = fold (command_step counting_service switch_service
               \<lparr>os_cpu_set = Ok (), os_affinity = Ok (), os_sched = Ok (), os_mlock = Ok ()\<rparr> [''switch''])
             [StopAll, StartAll, StartAll, StopAll, StartAll]
             (fresh_manager switch_service [(0, from_millis 1)] [(False, 0)] () manager_config_default)
   in non_rt_of (sm_registry m) ''switch'' = Some (True, 2) \<and> sm_running m"
proof -
  let ?fresh = "fresh_manager switch_service [(0 :: nat, from_millis 1)] [(False, 0)] () manager_config_default"
  have "dom (non_rt_services (sm_registry ?fresh)) = {''switch''}"
    by (simp add: fresh_manager_simps(3)) (simp add: switch_service_def)
  then have "names_of [''switch''] (sm_registry ?fresh)" by (simp add: names_of_def)
  from start_stop_alternate[OF this, where v = counting_service and
      cs = "[StopAll, StartAll, StartAll, StopAll, StartAll]"]
  show ?thesis by (simp add: Let_def on_non_rt_def switch_service_def del: command_step.simps fold_simps)
qed

text \<open>
  The manager files its Non-RT services twice, and the two views part when a name is registered
  again: the registry replaces the service and counts its name once, while the hierarchy lists one
  node for every registration ever made, so a replaced service stays listed.
\<close>

theorem hierarchy_keeps_replaced_services:
  fixes u :: "('n, 'j, 'ch) nonrt_service"
  shows "let m = fresh_manager u rts nrts ch cfg in
     snd (count_services (sm_registry m)) = card (ns_name u ` set nrts) \<and>
     (\<exists>ns. get_non_rt_services (length (sm_hierarchy m)) (sm_hierarchy m) = Some ns \<and>
        mset (map sn_name ns) = mset (map (ns_name u) nrts))"
proof -
  let ?ops = "map (\<lambda>s. Register ''root'' (non_rt_node (ns_name u s))) nrts :: 'j hier_op list"
  note fresh = fresh_manager_simps[of u rts nrts ch cfg]
  have ok: "tree_ok (hier_run ?ops)" by (rule hier_run_ok)
  have "no_removal ?ops" by (simp add: no_removal_def list_all_iff)
  note data = hier_run_data[OF this]
  have acc: "accepted (map (\<lambda>s. Register ''root'' (non_rt_node (ns_name u s))) nrts) ar =
      map (\<lambda>s. non_rt_node (ns_name u s)) nrts" for ar :: "'j arena"
    by (induction nrts arbitrary: ar) (simp_all add: parent_of_path_def rsplit_once_def del: hier_step.simps)
  have nodes: "mset (map (\<lambda>x. tn_data (hier_run ?ops ! x)) (subtree (hier_run ?ops) 0)) =
      mset (container_node ''root'' # map (\<lambda>s. non_rt_node (ns_name u s)) nrts)"
    using mset_subtree_data[OF ok data(2)] by (simp only: data(1) acc)
  let ?ns = "filter (\<lambda>d. sn_type d = NonRealTime \<and> sn_enabled d) (map (\<lambda>x. tn_data (hier_run ?ops ! x)) (subtree (hier_run ?ops) 0))"
  have f: "filter (\<lambda>d. sn_type d = NonRealTime \<and> sn_enabled d)
      (container_node ''root'' # map (\<lambda>s. non_rt_node (ns_name u s)) nrts) = map (\<lambda>s. non_rt_node (ns_name u s) :: 'j service_node) nrts"
    by (simp add: container_node_def non_rt_node_def service_node_new_def filter_map comp_def)
  have "mset ?ns = mset (filter (\<lambda>d. sn_type d = NonRealTime \<and> sn_enabled d)
      (container_node ''root'' # map (\<lambda>s. non_rt_node (ns_name u s)) nrts))"
    by (simp only: mset_filter nodes)
  also have "\<dots> = mset (map (\<lambda>s. non_rt_node (ns_name u s)) nrts)" by (simp only: f)
  finally have "mset (map sn_name ?ns) = image_mset sn_name (mset (map (\<lambda>s. non_rt_node (ns_name u s) :: 'j service_node) nrts))"
    by (simp only: mset_map)
  also have "\<dots> = mset (map (ns_name u) nrts)"
    by (simp add: image_mset.compositionality comp_def non_rt_node_def service_node_new_def flip: mset_map)
  finally have names: "mset (map sn_name ?ns) = mset (map (ns_name u) nrts)" .
  have "get_non_rt_services (length (hier_run ?ops)) (hier_run ?ops) = Some ?ns"
    unfolding get_non_rt_services_def using tree_ok_root[OF ok] by (intro services_by_type_subtree[OF ok]) simp_all
  with names show ?thesis
    by (simp only: Let_def count_services_def fresh(3,4) snd_conv) blast
qed

section \<open>The event channel\<close>

text \<open>What the events of a queue leave of a speed: the last \<open>SetSpeed\<close>, if there is one.\<close>

fun speed_after :: "'j engine_event list \<Rightarrow> f64 \<Rightarrow> f64" where
  "speed_after [] s = s"
| "speed_after (SetSpeed v # evs) s = speed_after evs v"
| "speed_after (EngineCustom topic payload # evs) s = speed_after evs s"

definition fifo_channel ::
  "('ch \<Rightarrow> 'j engine_event option \<times> 'ch) \<Rightarrow> ('ch \<Rightarrow> 'j engine_event list) \<Rightarrow> bool" where
  "fifo_channel try_recv contents \<longleftrightarrow>
     (\<forall>ch. case try_recv ch of
        (None, ch') \<Rightarrow> contents ch = [] \<and> contents ch' = []
      | (Some ev, ch') \<Rightarrow> contents ch = ev # contents ch')"

lemma process_events_spec:
  "fifo_channel try_recv contents \<Longrightarrow> length (contents (ctx_events ctx)) < fuel \<Longrightarrow>
   \<exists>ctx'. process_events fuel try_recv ctx = Some ctx' \<and> contents (ctx_events ctx') = [] \<and>
     get_speed (ctx_props ctx') = speed_after (contents (ctx_events ctx)) (get_speed (ctx_props ctx))"
proof (induction fuel arbitrary: ctx)
  case (Suc fuel)
  obtain r ch' where r: "try_recv (ctx_events ctx) = (r, ch')" by (meson surj_pair)
  have law: "case r of None \<Rightarrow> contents (ctx_events ctx) = [] \<and> contents ch' = []
      | Some ev \<Rightarrow> contents (ctx_events ctx) = ev # contents ch'"
    using Suc.prems(1)[unfolded fifo_channel_def, THEN spec, of "ctx_events ctx"] r by (auto split: option.splits)
  show ?case
  proof (cases r)
    case None
    then show ?thesis using r law by simp
  next
    case (Some ev)
    have "length (contents (ctx_events \<lparr>ctx_props = process_event ev (ctx_props ctx), ctx_events = ch'\<rparr>)) < fuel"
      using Suc.prems(2) law Some by simp
    from Suc.IH[OF Suc.prems(1) this] show ?thesis
      using r law Some by (cases ev) (simp_all add: process_event_def)
  qed
qed simp

text \<open>
  On a channel that is first in, first out, the engine's drain ends after as many receives as
  the channel holds events, with one to find it empty. It leaves nothing in the channel, and the
  speed is that of the last \<open>SetSpeed\<close> sent, or unchanged when there is none; custom events do not
  touch it.
\<close>

theorem drain_applies_last_speed:
  assumes "fifo_channel try_recv contents" and "length (contents (ctx_events ctx)) < fuel"
  shows "\<exists>ctx'. process_events fuel try_recv ctx = Some ctx' \<and> contents (ctx_events ctx') = [] \<and>
     get_speed (ctx_props ctx') = speed_after (contents (ctx_events ctx)) (get_speed (ctx_props ctx))"
  using process_events_spec[OF assms] .

theorem drain_applies_last_speed_witness:
  "\<exists>ctx'. process_events 4 (\<lambda>q. case q of [] \<Rightarrow> (None, []) | e # es \<Rightarrow> (Some e, es))
      \<lparr>ctx_props = properties_new, ctx_events = [SetSpeed (f64_lit 5 1), SetSpeed (f64_lit 7 0), EngineCustom ''t'' ()]\<rparr>
      = Some ctx' \<and> ctx_events ctx' = [] \<and> get_speed (ctx_props ctx') = f64_lit 7 0"
proof -
  let ?recv = "\<lambda>q :: unit engine_event list. case q of [] \<Rightarrow> (None, []) | e # es \<Rightarrow> (Some e, es)"
  have "fifo_channel ?recv (\<lambda>q. q)" by (auto simp: fifo_channel_def split: list.splits)
  from drain_applies_last_speed[OF this, of "\<lparr>ctx_props = properties_new,
      ctx_events = [SetSpeed (f64_lit 5 1), SetSpeed (f64_lit 7 0), EngineCustom ''t'' ()]\<rparr>" 4]
  show ?thesis by simp
qed

end
