(* ===== verification/Db_Config.thy ===== *)
theory Db_Config
  imports Rust_Str
begin

text \<open>
  \<open>databases/abstractdatabase/src/model/configuration.rs\<close>: the configuration of a database client,
  its validation and its builder. The maps are \<open>BTreeMap\<close>s of strings.
\<close>

section \<open>Errors and endpoints\<close>

datatype config_error = Invalid string

definition config_error_display :: "config_error \<Rightarrow> string" where
  "config_error_display e = (case e of Invalid s \<Rightarrow> ''invalid config: '' @ s)"

record endpoint_config =
  ep_host :: string
  ep_port :: u16
  ep_labels :: "string \<rightharpoonup> string"

definition endpoint_new :: "string \<Rightarrow> u16 \<Rightarrow> endpoint_config" where
  "endpoint_new host port = \<lparr>ep_host = host, ep_port = port, ep_labels = Map.empty\<rparr>"

definition endpoint_localhost :: endpoint_config where
  "endpoint_localhost = endpoint_new ''127.0.0.1'' 0"

definition endpoint_label :: "string \<Rightarrow> string \<Rightarrow> endpoint_config \<Rightarrow> endpoint_config" where
  "endpoint_label k v ep = ep\<lparr>ep_labels := (ep_labels ep)(k \<mapsto> v)\<rparr>"

definition endpoint_validate :: "endpoint_config \<Rightarrow> (config_error, unit) result" where
  "endpoint_validate ep =
     (if trim (ep_host ep) = [] then Err (Invalid ''endpoint.host is empty'') else Ok ())"

datatype routing_policy = PrimaryOnly | RoundRobin | PreferLabel string string | Manual

record topology_config =
  tp_endpoints :: "endpoint_config list"
  tp_routing :: routing_policy
  tp_database :: "string option"

definition topology_default :: topology_config where
  "topology_default =
     \<lparr>tp_endpoints = [endpoint_localhost], tp_routing = PrimaryOnly, tp_database = None\<rparr>"

fun validate_each :: "('a \<Rightarrow> (config_error, unit) result) \<Rightarrow> 'a list \<Rightarrow> (config_error, unit) result" where
  "validate_each f [] = Ok ()"
| "validate_each f (x # xs) = (case f x of Inl e \<Rightarrow> Err e | Inr _ \<Rightarrow> validate_each f xs)"

definition topology_validate :: "topology_config \<Rightarrow> (config_error, unit) result" where
  "topology_validate t =
     (if tp_endpoints t = [] then Err (Invalid ''topology.endpoints must not be empty'')
      else validate_each endpoint_validate (tp_endpoints t))"

section \<open>Authentication and TLS\<close>

datatype auth_kind = AuthNone | UserPassword | Token | MutualTls | AuthCustom

datatype secret = Secret (expose: string)

text \<open>\<open>Debug\<close> of a secret, so that it never reaches a log.\<close>

definition secret_debug :: "secret \<Rightarrow> string" where
  "secret_debug s = ''Secret(**redacted**)''"

record auth_config =
  au_kind :: auth_kind
  au_user :: "string option"
  au_secret :: "secret option"
  au_params :: "string \<rightharpoonup> string"

definition auth_default :: auth_config where
  "auth_default = \<lparr>au_kind = AuthNone, au_user = None, au_secret = None, au_params = Map.empty\<rparr>"

definition auth_validate :: "auth_config \<Rightarrow> (config_error, unit) result" where
  "auth_validate a =
     (case au_kind a of
        AuthNone \<Rightarrow> Ok ()
      | UserPassword \<Rightarrow>
          if (case au_user a of None \<Rightarrow> [] | Some u \<Rightarrow> u) = [] then Err (Invalid ''auth.user is required'')
          else if au_secret a = None then Err (Invalid ''auth.secret is required'')
          else Ok ()
      | Token \<Rightarrow> if au_secret a = None then Err (Invalid ''auth.secret is required'') else Ok ()
      | MutualTls \<Rightarrow> Ok ()
      | AuthCustom \<Rightarrow> Ok ())"

record tls_config =
  tls_enabled :: bool
  tls_verify_peer :: bool
  tls_server_name :: "string option"
  tls_ca_cert_path :: "string option"
  tls_client_cert_path :: "string option"
  tls_client_key_path :: "string option"

definition tls_default :: tls_config where
  "tls_default =
     \<lparr>tls_enabled = False, tls_verify_peer = True, tls_server_name = None, tls_ca_cert_path = None,
      tls_client_cert_path = None, tls_client_key_path = None\<rparr>"

text \<open>Neither branch of the code refuses anything: the check of the certificate path is empty.\<close>

definition tls_validate :: "tls_config \<Rightarrow> (config_error, unit) result" where
  "tls_validate t = Ok ()"

section \<open>Pooling, timeouts, session and observability\<close>

record pooling_config =
  pl_enabled :: bool
  pl_max_size :: nat
  pl_min_size :: nat
  pl_max_idle :: "duration option"
  pl_max_lifetime :: "duration option"
  pl_checkout_timeout :: duration

definition pooling_default :: pooling_config where
  "pooling_default =
     \<lparr>pl_enabled = True, pl_max_size = 10, pl_min_size = 0, pl_max_idle = Some (from_secs 300),
      pl_max_lifetime = None, pl_checkout_timeout = from_secs 5\<rparr>"

definition pooling_validate :: "pooling_config \<Rightarrow> (config_error, unit) result" where
  "pooling_validate p =
     (if \<not> pl_enabled p then Ok ()
      else if pl_max_size p = 0 then Err (Invalid ''pooling.max_size must be > 0'')
      else if pl_max_size p < pl_min_size p then Err (Invalid ''pooling.min_size must be <= pooling.max_size'')
      else Ok ())"

record timeout_config =
  to_connect :: duration
  to_handshake :: duration
  to_request :: duration
  to_read :: duration
  to_write :: duration

definition timeout_default :: timeout_config where
  "timeout_default =
     \<lparr>to_connect = from_secs 5, to_handshake = from_secs 5, to_request = from_secs 30,
      to_read = from_secs 30, to_write = from_secs 30\<rparr>"

definition timeout_validate :: "timeout_config \<Rightarrow> (config_error, unit) result" where
  "timeout_validate t =
     (if dur_is_zero (to_connect t) then Err (Invalid ''timeouts.connect must be > 0'')
      else if dur_is_zero (to_request t) then Err (Invalid ''timeouts.request must be > 0'')
      else Ok ())"

record session_config =
  se_rollback_on_return :: bool
  se_full_reset_on_return :: bool
  se_session_vars :: "string \<rightharpoonup> string"

definition session_default :: session_config where
  "session_default =
     \<lparr>se_rollback_on_return = True, se_full_reset_on_return = False, se_session_vars = Map.empty\<rparr>"

definition session_validate :: "session_config \<Rightarrow> (config_error, unit) result" where
  "session_validate s = Ok ()"

record observability_config =
  ob_enable_metrics :: bool
  ob_enable_tracing :: bool
  ob_log_requests :: bool
  ob_log_responses :: bool

definition observability_default :: observability_config where
  "observability_default =
     \<lparr>ob_enable_metrics = True, ob_enable_tracing = True, ob_log_requests = False, ob_log_responses = False\<rparr>"

definition observability_validate :: "observability_config \<Rightarrow> (config_error, unit) result" where
  "observability_validate s = Ok ()"

section \<open>The client configuration and its builder\<close>

record client_config =
  cl_application_name :: "string option"
  cl_topology :: topology_config
  cl_auth :: auth_config
  cl_tls :: tls_config
  cl_pooling :: pooling_config
  cl_timeouts :: timeout_config
  cl_session :: session_config
  cl_observability :: observability_config
  cl_options :: "string \<rightharpoonup> string"

definition client_config_default :: client_config where
  "client_config_default =
     \<lparr>cl_application_name = None, cl_topology = topology_default, cl_auth = auth_default,
      cl_tls = tls_default, cl_pooling = pooling_default, cl_timeouts = timeout_default,
      cl_session = session_default, cl_observability = observability_default, cl_options = Map.empty\<rparr>"

text \<open>The operator \<open>?\<close>.\<close>

definition and_then :: "('e, unit) result \<Rightarrow> ('e, 'a) result \<Rightarrow> ('e, 'a) result" where
  "and_then r k = (case r of Inl e \<Rightarrow> Err e | Inr _ \<Rightarrow> k)"

definition client_validate :: "client_config \<Rightarrow> (config_error, unit) result" where
  "client_validate c =
     and_then (topology_validate (cl_topology c))
    (and_then (auth_validate (cl_auth c))
    (and_then (tls_validate (cl_tls c))
    (and_then (pooling_validate (cl_pooling c))
    (and_then (timeout_validate (cl_timeouts c))
    (and_then (session_validate (cl_session c))
    (and_then (observability_validate (cl_observability c))
      (if au_kind (cl_auth c) = MutualTls \<and> \<not> tls_enabled (cl_tls c)
       then Err (Invalid ''auth=mTLS requires tls.enabled=true'') else Ok ())))))))"

record client_config_builder =
  cb_cfg :: client_config

definition builder_new :: client_config_builder where
  "builder_new = \<lparr>cb_cfg = client_config_default\<rparr>"

text \<open>The chained methods of the builder.\<close>

datatype builder_op =
    ApplicationName string
  | Topology topology_config
  | Auth auth_config
  | Tls tls_config
  | Pooling pooling_config
  | Timeouts timeout_config
  | SessionPolicy session_config
  | Observability observability_config
  | OptionEntry string string

fun builder_apply :: "builder_op \<Rightarrow> client_config_builder \<Rightarrow> client_config_builder" where
  "builder_apply (ApplicationName name) b = b\<lparr>cb_cfg := (cb_cfg b)\<lparr>cl_application_name := Some name\<rparr>\<rparr>"
| "builder_apply (Topology t) b = b\<lparr>cb_cfg := (cb_cfg b)\<lparr>cl_topology := t\<rparr>\<rparr>"
| "builder_apply (Auth a) b = b\<lparr>cb_cfg := (cb_cfg b)\<lparr>cl_auth := a\<rparr>\<rparr>"
| "builder_apply (Tls t) b = b\<lparr>cb_cfg := (cb_cfg b)\<lparr>cl_tls := t\<rparr>\<rparr>"
| "builder_apply (Pooling p) b = b\<lparr>cb_cfg := (cb_cfg b)\<lparr>cl_pooling := p\<rparr>\<rparr>"
| "builder_apply (Timeouts t) b = b\<lparr>cb_cfg := (cb_cfg b)\<lparr>cl_timeouts := t\<rparr>\<rparr>"
| "builder_apply (SessionPolicy s) b = b\<lparr>cb_cfg := (cb_cfg b)\<lparr>cl_session := s\<rparr>\<rparr>"
| "builder_apply (Observability s) b = b\<lparr>cb_cfg := (cb_cfg b)\<lparr>cl_observability := s\<rparr>\<rparr>"
| "builder_apply (OptionEntry k v) b = b\<lparr>cb_cfg := (cb_cfg b)\<lparr>cl_options := (cl_options (cb_cfg b))(k \<mapsto> v)\<rparr>\<rparr>"

definition builder_build :: "client_config_builder \<Rightarrow> (config_error, client_config) result" where
  "builder_build b = and_then (client_validate (cb_cfg b)) (Ok (cb_cfg b))"

section \<open>Validation as a table of checks\<close>

text \<open>
  The reference: every check with its message, in the order of the fields. Validation reports the
  first that applies.
\<close>

definition user_given :: "auth_config \<Rightarrow> bool" where
  "user_given a \<longleftrightarrow> (\<exists>u. au_user a = Some u \<and> u \<noteq> [])"

definition checks :: "client_config \<Rightarrow> (bool \<times> string) list" where
  "checks c =
     (let t = cl_topology c; a = cl_auth c; p = cl_pooling c; w = cl_timeouts c in
      [(tp_endpoints t = [], ''topology.endpoints must not be empty''),
       (list_ex (\<lambda>ep. trim (ep_host ep) = []) (tp_endpoints t), ''endpoint.host is empty''),
       (au_kind a = UserPassword \<and> \<not> user_given a, ''auth.user is required''),
       (au_kind a \<in> {UserPassword, Token} \<and> au_secret a = None, ''auth.secret is required''),
       (pl_enabled p \<and> pl_max_size p = 0, ''pooling.max_size must be > 0''),
       (pl_enabled p \<and> pl_max_size p < pl_min_size p, ''pooling.min_size must be <= pooling.max_size''),
       (dur_is_zero (to_connect w), ''timeouts.connect must be > 0''),
       (dur_is_zero (to_request w), ''timeouts.request must be > 0''),
       (au_kind a = MutualTls \<and> \<not> tls_enabled (cl_tls c), ''auth=mTLS requires tls.enabled=true'')])"

definition first_failure :: "(bool \<times> string) list \<Rightarrow> (config_error, unit) result" where
  "first_failure cs = (case List.find fst cs of None \<Rightarrow> Ok () | Some (_, msg) \<Rightarrow> Err (Invalid msg))"

lemma first_failure_simps [simp]:
  "first_failure [] = Ok ()"
  "first_failure ((b, msg) # cs) = (if b then Err (Invalid msg) else first_failure cs)"
  by (simp_all add: first_failure_def)

lemma first_failure_append: "first_failure (xs @ ys) = and_then (first_failure xs) (first_failure ys)"
  by (induction xs) (auto simp: and_then_def)

lemma and_then_simps [simp]: "and_then (Ok u) k = k" "and_then (Err e) k = Err e"
  by (simp_all add: and_then_def)

lemma and_then_Ok: "and_then r k = Ok a \<longleftrightarrow> r = Ok () \<and> k = Ok a"
  by (cases r) (auto simp: and_then_def)

lemma validate_each_endpoints:
  "validate_each endpoint_validate eps =
     (if list_ex (\<lambda>ep. trim (ep_host ep) = []) eps then Err (Invalid ''endpoint.host is empty'') else Ok ())"
  by (induction eps) (simp_all add: endpoint_validate_def)

lemma auth_validate_checks:
  "auth_validate a =
     first_failure
       [(au_kind a = UserPassword \<and> \<not> user_given a, ''auth.user is required''),
        (au_kind a \<in> {UserPassword, Token} \<and> au_secret a = None, ''auth.secret is required'')]"
  by (auto simp: auth_validate_def user_given_def split: auth_kind.splits option.splits)

lemma pooling_validate_checks:
  "pooling_validate p =
     first_failure
       [(pl_enabled p \<and> pl_max_size p = 0, ''pooling.max_size must be > 0''),
        (pl_enabled p \<and> pl_max_size p < pl_min_size p, ''pooling.min_size must be <= pooling.max_size'')]"
  by (simp add: pooling_validate_def)

lemma timeout_validate_checks:
  "timeout_validate t =
     first_failure
       [(dur_is_zero (to_connect t), ''timeouts.connect must be > 0''),
        (dur_is_zero (to_request t), ''timeouts.request must be > 0'')]"
  by (simp add: timeout_validate_def)

lemma topology_validate_checks:
  "topology_validate t =
     first_failure
       [(tp_endpoints t = [], ''topology.endpoints must not be empty''),
        (list_ex (\<lambda>ep. trim (ep_host ep) = []) (tp_endpoints t), ''endpoint.host is empty'')]"
  by (simp add: topology_validate_def validate_each_endpoints)

lemma client_validate_checks: "client_validate c = first_failure (checks c)"
proof -
  have "checks c =
      [(tp_endpoints (cl_topology c) = [], ''topology.endpoints must not be empty''),
       (list_ex (\<lambda>ep. trim (ep_host ep) = []) (tp_endpoints (cl_topology c)), ''endpoint.host is empty'')] @
      [(au_kind (cl_auth c) = UserPassword \<and> \<not> user_given (cl_auth c), ''auth.user is required''),
       (au_kind (cl_auth c) \<in> {UserPassword, Token} \<and> au_secret (cl_auth c) = None, ''auth.secret is required'')] @
      [(pl_enabled (cl_pooling c) \<and> pl_max_size (cl_pooling c) = 0, ''pooling.max_size must be > 0''),
       (pl_enabled (cl_pooling c) \<and> pl_max_size (cl_pooling c) < pl_min_size (cl_pooling c),
        ''pooling.min_size must be <= pooling.max_size'')] @
      [(dur_is_zero (to_connect (cl_timeouts c)), ''timeouts.connect must be > 0''),
       (dur_is_zero (to_request (cl_timeouts c)), ''timeouts.request must be > 0'')] @
      [(au_kind (cl_auth c) = MutualTls \<and> \<not> tls_enabled (cl_tls c), ''auth=mTLS requires tls.enabled=true'')]"
    by (simp add: checks_def Let_def)
  then show ?thesis
    unfolding client_validate_def
    by (simp only: first_failure_append flip: topology_validate_checks auth_validate_checks pooling_validate_checks
        timeout_validate_checks)
      (simp add: tls_validate_def session_validate_def observability_validate_def)
qed

end
