(* ===== verification/Connector.thy ===== *)
theory Connector
  imports Db_Config
begin

text \<open>
  \<open>databases/abstractdatabase/src/client/connector.rs\<close>: the connection pool. Its methods are
  asynchronous, so what runs between two awaits is one atomic step, and the steps of all tasks
  interleave. A task is in the phase its last step left it in. The state of a connection is \<open>'c\<close>;
  whether it is healthy, resets or can be made are the answers of the environment. \<open>Instant\<close>s are
  nanoseconds of a monotonic clock; each step reads the clock at \<open>now\<close>.
\<close>

section \<open>Configuration\<close>

record connector_config =
  cc_max_size :: nat
  cc_min_size :: nat
  cc_checkout_timeout :: duration
  cc_max_idle :: "duration option"
  cc_prewarm_interval :: duration

definition connector_config_default :: connector_config where
  "connector_config_default =
     \<lparr>cc_max_size = 10, cc_min_size = 0, cc_checkout_timeout = from_secs 5,
      cc_max_idle = Some (from_secs 300), cc_prewarm_interval = from_secs 10\<rparr>"

definition connector_config_of :: "client_config \<Rightarrow> connector_config" where
  "connector_config_of c =
     \<lparr>cc_max_size = pl_max_size (cl_pooling c), cc_min_size = pl_min_size (cl_pooling c),
      cc_checkout_timeout = pl_checkout_timeout (cl_pooling c), cc_max_idle = pl_max_idle (cl_pooling c),
      cc_prewarm_interval = from_secs 10\<rparr>"

section \<open>State\<close>

record 'c pooled =
  po_conn :: 'c
  po_last_used :: nat
  po_id :: u64

text \<open>
  \<open>Waiting\<close>: has a permit, has not looked for an idle connection. \<open>Checking\<close>: awaits \<open>is_healthy\<close>
  (or \<open>close\<close>) of an idle one. \<open>Connecting\<close>: awaits \<open>connect\<close>. \<open>InSession\<close>: returned to the caller.
  \<open>Releasing\<close>: in \<open>release\<close>, awaits \<open>reset\<close> and \<open>is_healthy\<close>. \<open>Finishing\<close>: about to drop the
  permit. \<open>Returning\<close>: the task spawned by \<open>drop\<close>, without a permit. \<open>Adding\<close>: in \<open>try_add_one\<close>.
\<close>

datatype 'c phase =
    Waiting
  | Checking "'c pooled"
  | Connecting
  | InSession "'c pooled"
  | Releasing "'c pooled"
  | Finishing
  | Returning "'c pooled"
  | Adding

record 'c connector =
  co_idle :: "'c pooled list"
  co_permits :: nat
  co_next_id :: u64
  co_tasks :: "nat \<rightharpoonup> 'c phase"

definition empty_pool :: "connector_config \<Rightarrow> 'c connector" where
  "empty_pool cfg =
     \<lparr>co_idle = [], co_permits = cc_max_size cfg, co_next_id = 1, co_tasks = Map.empty\<rparr>"

text \<open>\<open>Semaphore::new\<close> panics on more permits than it can count.\<close>

definition connector_new :: "connector_config \<Rightarrow> 'c connector exec" where
  "connector_new cfg = (if cc_max_size cfg \<le> max_permits then Return (empty_pool cfg) else Panic)"

lemma connector_new_Return: "connector_new cfg = Return s \<longleftrightarrow> cc_max_size cfg \<le> max_permits \<and> s = empty_pool cfg"
  by (auto simp: connector_new_def)

definition set_task :: "nat \<Rightarrow> 'c phase option \<Rightarrow> 'c connector \<Rightarrow> 'c connector" where
  "set_task t ph s = s\<lparr>co_tasks := (co_tasks s)(t := ph)\<rparr>"

text \<open>\<open>take_idle\<close> pops the connection returned last; the vector's end is the end of the list.\<close>

definition take_idle :: "'c connector \<Rightarrow> 'c pooled option \<times> 'c connector" where
  "take_idle s =
     (if co_idle s = [] then (None, s) else (Some (last (co_idle s)), s\<lparr>co_idle := butlast (co_idle s)\<rparr>))"

definition should_recycle :: "connector_config \<Rightarrow> nat \<Rightarrow> 'c pooled \<Rightarrow> bool" where
  "should_recycle cfg now p =
     (case cc_max_idle cfg of Some max_idle \<Rightarrow> as_nanos max_idle < now - po_last_used p | None \<Rightarrow> False)"

definition return_idle :: "nat \<Rightarrow> 'c pooled \<Rightarrow> 'c connector \<Rightarrow> 'c connector" where
  "return_idle now p s = s\<lparr>co_idle := co_idle s @ [p\<lparr>po_last_used := now\<rparr>]\<rparr>"

text \<open>\<open>fetch_add\<close> wraps.\<close>

definition new_pooled :: "'c \<Rightarrow> nat \<Rightarrow> 'c connector \<Rightarrow> 'c pooled \<times> 'c connector" where
  "new_pooled conn now s =
     (\<lparr>po_conn = conn, po_last_used = now, po_id = co_next_id s\<rparr>, s\<lparr>co_next_id := co_next_id s + 1\<rparr>)"

definition release_permit :: "'c connector \<Rightarrow> 'c connector" where
  "release_permit s = s\<lparr>co_permits := co_permits s + 1\<rparr>"

text \<open>What \<open>release_inner\<close> and the task of \<open>drop\<close> do once the answers are in.\<close>

definition give_back ::
  "connector_config \<Rightarrow> bool \<Rightarrow> nat \<Rightarrow> 'c pooled \<Rightarrow> 'c connector \<Rightarrow> 'c connector" where
  "give_back cfg reset_ok now p s =
     (if reset_ok \<and> \<not> should_recycle cfg now p then return_idle now p s else s)"

section \<open>Steps\<close>

text \<open>
  An event names the task that runs next and what the environment answered it: a connection that
  was asked for its health, reset or used by its session comes back in its new state. The
  semaphore grants a permit only when one is free; a checkout that times out leaves the state alone.
\<close>

datatype 'c event =
    Acquire nat
  | CheckoutTimeout nat
  | TakeIdle nat nat
  | Healthy nat bool 'c
  | Connected nat "'c option" nat
  | UseConn nat 'c
  | Release nat
  | Released nat bool 'c nat
  | Finished nat
  | DropSession nat
  | DropReturned nat bool 'c nat
  | TryAddOne nat
  | Added nat "'c option" nat
  | Cancelled nat

text \<open>
  A caller may drop the future of \<open>session\<close> or \<open>release\<close> at any await. What the future owned goes with it:
  its permit is free again, a connection in its hands is dropped without \<open>close\<close>.
\<close>

fun cancellable :: "'c phase \<Rightarrow> bool" where
  "cancellable Waiting = True"
| "cancellable (Checking p) = True"
| "cancellable Connecting = True"
| "cancellable (Releasing p) = True"
| "cancellable Finishing = True"
| "cancellable _ = False"

fun pool_step :: "connector_config \<Rightarrow> 'c event \<Rightarrow> 'c connector \<Rightarrow> 'c connector option" where
  "pool_step cfg (Acquire t) s =
     (if co_tasks s t = None \<and> 0 < co_permits s
      then Some (set_task t (Some Waiting) (s\<lparr>co_permits := co_permits s - 1\<rparr>)) else None)"
| "pool_step cfg (CheckoutTimeout t) s = (if co_tasks s t = None then Some s else None)"
| "pool_step cfg (TakeIdle t now) s =
     (case co_tasks s t of
        Some Waiting \<Rightarrow>
          Some (case take_idle s of
                  (Some p, s1) \<Rightarrow>
                    if should_recycle cfg now p then set_task t (Some Connecting) s1
                    else set_task t (Some (Checking p)) s1
                | (None, s1) \<Rightarrow> set_task t (Some Connecting) s1)
      | _ \<Rightarrow> None)"
| "pool_step cfg (Healthy t ok c) s =
     (case co_tasks s t of
        Some (Checking p) \<Rightarrow>
          Some (set_task t (Some (if ok then InSession (p\<lparr>po_conn := c\<rparr>) else Connecting)) s)
      | _ \<Rightarrow> None)"
| "pool_step cfg (Connected t conn now) s =
     (case co_tasks s t of
        Some Connecting \<Rightarrow>
          (case conn of
             Some c \<Rightarrow> (case new_pooled c now s of (p, s1) \<Rightarrow> Some (set_task t (Some (InSession p)) s1))
           | None \<Rightarrow> Some (set_task t None (release_permit s)))
      | _ \<Rightarrow> None)"
| "pool_step cfg (UseConn t c) s =
     (case co_tasks s t of
        Some (InSession p) \<Rightarrow> Some (set_task t (Some (InSession (p\<lparr>po_conn := c\<rparr>))) s)
      | _ \<Rightarrow> None)"
| "pool_step cfg (Release t) s =
     (case co_tasks s t of Some (InSession p) \<Rightarrow> Some (set_task t (Some (Releasing p)) s) | _ \<Rightarrow> None)"
| "pool_step cfg (Released t reset_ok c now) s =
     (case co_tasks s t of
        Some (Releasing p) \<Rightarrow> Some (set_task t (Some Finishing) (give_back cfg reset_ok now (p\<lparr>po_conn := c\<rparr>) s))
      | _ \<Rightarrow> None)"
| "pool_step cfg (Finished t) s =
     (case co_tasks s t of Some Finishing \<Rightarrow> Some (set_task t None (release_permit s)) | _ \<Rightarrow> None)"
| "pool_step cfg (DropSession t) s =
     (case co_tasks s t of
        Some (InSession p) \<Rightarrow> Some (set_task t (Some (Returning p)) (release_permit s))
      | _ \<Rightarrow> None)"
| "pool_step cfg (DropReturned t reset_ok c now) s =
     (case co_tasks s t of
        Some (Returning p) \<Rightarrow> Some (set_task t None (give_back cfg reset_ok now (p\<lparr>po_conn := c\<rparr>) s))
      | _ \<Rightarrow> None)"
| "pool_step cfg (TryAddOne t) s =
     (if co_tasks s t = None then
        (if 0 < co_permits s then Some (set_task t (Some Adding) (s\<lparr>co_permits := co_permits s - 1\<rparr>)) else Some s)
      else None)"
| "pool_step cfg (Added t conn now) s =
     (case co_tasks s t of
        Some Adding \<Rightarrow>
          (case conn of
             Some c \<Rightarrow>
               (case new_pooled c now s of (p, s1) \<Rightarrow> Some (set_task t (Some Finishing) (return_idle now p s1)))
           | None \<Rightarrow> Some (set_task t None (release_permit s)))
      | _ \<Rightarrow> None)"
| "pool_step cfg (Cancelled t) s =
     (case co_tasks s t of
        Some ph \<Rightarrow> if cancellable ph then Some (set_task t None (release_permit s)) else None
      | None \<Rightarrow> None)"

text \<open>How many connections one round of \<open>start_prewarm\<close> tries to add.\<close>

definition prewarm_plan :: "connector_config \<Rightarrow> 'c connector \<Rightarrow> nat" where
  "prewarm_plan cfg s =
     (if cc_min_size cfg = 0 then 0
      else if length (co_idle s) < cc_min_size cfg then cc_min_size cfg - length (co_idle s) else 0)"

fun pool_run :: "connector_config \<Rightarrow> 'c event list \<Rightarrow> 'c connector \<Rightarrow> 'c connector option" where
  "pool_run cfg [] s = Some s"
| "pool_run cfg (e # es) s = (case pool_step cfg e s of None \<Rightarrow> None | Some s' \<Rightarrow> pool_run cfg es s')"

text \<open>A session, as the caller holds it.\<close>

fun session_conn :: "'c phase \<Rightarrow> (string, 'c) result" where
  "session_conn (InSession p) = Ok (po_conn p)"
| "session_conn _ = Err ''session already released''"

section \<open>The contract of a connection\<close>

text \<open>
  \<open>ManagedConnection\<close>: \<open>healthy\<close> and \<open>reset\<close> are its methods, with whether they answered well. The
  laws are those of a connection that keeps a failure in mind: \<open>alive\<close> is what it last knew.
\<close>

definition release_answer :: "('c \<Rightarrow> bool \<times> 'c) \<Rightarrow> ('c \<Rightarrow> bool \<times> 'c) \<Rightarrow> 'c \<Rightarrow> bool \<times> 'c" where
  "release_answer healthy reset c =
     (case reset c of (ok, c1) \<Rightarrow> if ok then healthy c1 else (False, c1))"

text \<open>The answers an event carries are those of the connections; new ones are as \<open>fresh\<close> says.\<close>

fun answered ::
  "('c \<Rightarrow> bool \<times> 'c) \<Rightarrow> ('c \<Rightarrow> bool \<times> 'c) \<Rightarrow> ('c \<Rightarrow> bool) \<Rightarrow> 'c event \<Rightarrow> 'c connector \<Rightarrow> bool" where
  "answered healthy reset fresh (Healthy t ok c) s \<longleftrightarrow>
     (case co_tasks s t of Some (Checking p) \<Rightarrow> healthy (po_conn p) = (ok, c) | _ \<Rightarrow> True)"
| "answered healthy reset fresh (Released t ok c now) s \<longleftrightarrow>
     (case co_tasks s t of Some (Releasing p) \<Rightarrow> release_answer healthy reset (po_conn p) = (ok, c) | _ \<Rightarrow> True)"
| "answered healthy reset fresh (DropReturned t ok c now) s \<longleftrightarrow>
     (case co_tasks s t of Some (Returning p) \<Rightarrow> release_answer healthy reset (po_conn p) = (ok, c) | _ \<Rightarrow> True)"
| "answered healthy reset fresh (Connected t (Some c) now) s \<longleftrightarrow> fresh c"
| "answered healthy reset fresh (Added t (Some c) now) s \<longleftrightarrow> fresh c"
| "answered healthy reset fresh _ s \<longleftrightarrow> True"

fun answered_run ::
  "('c \<Rightarrow> bool \<times> 'c) \<Rightarrow> ('c \<Rightarrow> bool \<times> 'c) \<Rightarrow> ('c \<Rightarrow> bool) \<Rightarrow> connector_config \<Rightarrow> 'c event list
   \<Rightarrow> 'c connector \<Rightarrow> bool" where
  "answered_run healthy reset fresh cfg [] s \<longleftrightarrow> True"
| "answered_run healthy reset fresh cfg (e # es) s \<longleftrightarrow>
     answered healthy reset fresh e s \<and>
     (case pool_step cfg e s of None \<Rightarrow> True | Some s' \<Rightarrow> answered_run healthy reset fresh cfg es s')"

locale managed_connection =
  fixes healthy :: "'c \<Rightarrow> bool \<times> 'c"
    and reset :: "'c \<Rightarrow> bool \<times> 'c"
    and alive :: "'c \<Rightarrow> bool"
    and fresh :: "'c \<Rightarrow> bool"
  assumes healthy_answer: "healthy c = (b, c') \<Longrightarrow> alive c' \<longleftrightarrow> b"
    and dead_stays: "\<not> alive c \<Longrightarrow> healthy c = (False, c)"
    and reset_dead: "reset c = (b, c') \<Longrightarrow> alive c' \<Longrightarrow> b \<and> alive c"
    and fresh_alive: "fresh c \<Longrightarrow> alive c"
begin

lemma release_alive:
  assumes "release_answer healthy reset c = (True, c')"
  shows "alive c'" "alive c"
proof -
  obtain c1 where c1: "reset c = (True, c1)" "healthy c1 = (True, c')"
    using assms by (auto simp: release_answer_def split: prod.splits if_splits)
  show "alive c'" using healthy_answer[OF c1(2)] by simp
  have "alive c1" using dead_stays[of c1] c1(2) by auto
  then show "alive c" using reset_dead[OF c1(1)] by simp
qed

text \<open>What lies idle is as a good answer on release left it, or new.\<close>

lemma idle_answered_step:
  assumes "\<forall>p \<in> set (co_idle s). fresh (po_conn p) \<or> (\<exists>c. release_answer healthy reset c = (True, po_conn p))"
    and "pool_step cfg e s = Some s'" "answered healthy reset fresh e s"
  shows "\<forall>p \<in> set (co_idle s'). fresh (po_conn p) \<or> (\<exists>c. release_answer healthy reset c = (True, po_conn p))"
  using assms
  by (cases e;
      auto simp: set_task_def take_idle_def release_permit_def give_back_def return_idle_def
        new_pooled_def split: if_splits option.splits phase.splits;
      meson in_set_butlastD)

lemma idle_answered_run:
  "\<forall>p \<in> set (co_idle s). fresh (po_conn p) \<or> (\<exists>c. release_answer healthy reset c = (True, po_conn p)) \<Longrightarrow>
   pool_run cfg es s = Some s' \<Longrightarrow> answered_run healthy reset fresh cfg es s \<Longrightarrow>
   \<forall>p \<in> set (co_idle s'). fresh (po_conn p) \<or> (\<exists>c. release_answer healthy reset c = (True, po_conn p))"
proof (induction es arbitrary: s)
  case (Cons e es)
  then obtain s1 where s1: "pool_step cfg e s = Some s1" "pool_run cfg es s1 = Some s'" by (auto split: option.splits)
  then show ?case using Cons idle_answered_step[OF Cons.prems(1) s1(1)] by simp
qed simp

lemma pool_keeps_answered:
  "pool_run cfg es (empty_pool cfg) = Some s \<Longrightarrow> answered_run healthy reset fresh cfg es (empty_pool cfg) \<Longrightarrow>
   \<forall>p \<in> set (co_idle s). fresh (po_conn p) \<or> (\<exists>c. release_answer healthy reset c = (True, po_conn p))"
  using idle_answered_run[of "empty_pool cfg"] by (simp add: empty_pool_def)

definition idle_alive :: "'c connector \<Rightarrow> bool" where
  "idle_alive s \<longleftrightarrow> (\<forall>p \<in> set (co_idle s). alive (po_conn p))"

lemma idle_alive_step:
  assumes "idle_alive s" "pool_step cfg e s = Some s'" "answered healthy reset fresh e s"
  shows "idle_alive s'"
  using assms
  by (cases e;
      auto simp: idle_alive_def set_task_def take_idle_def release_permit_def give_back_def return_idle_def
        new_pooled_def split: if_splits option.splits phase.splits;
      meson in_set_butlastD release_alive(1) fresh_alive)

lemma idle_alive_run:
  "idle_alive s \<Longrightarrow> pool_run cfg es s = Some s' \<Longrightarrow> answered_run healthy reset fresh cfg es s \<Longrightarrow> idle_alive s'"
proof (induction es arbitrary: s)
  case (Cons e es)
  then obtain s1 where s1: "pool_step cfg e s = Some s1" "pool_run cfg es s1 = Some s'" by (auto split: option.splits)
  then show ?case using Cons idle_alive_step[OF Cons.prems(1) s1(1)] by simp
qed simp

lemma pool_keeps_alive:
  "pool_run cfg es (empty_pool cfg) = Some s \<Longrightarrow> answered_run healthy reset fresh cfg es (empty_pool cfg) \<Longrightarrow>
   \<forall>p \<in> set (co_idle s). alive (po_conn p)"
  using idle_alive_run[of "empty_pool cfg"] by (simp add: idle_alive_def empty_pool_def)

end

end
