(* ===== verification/Connector_Properties.thy ===== *)
theory Connector_Properties
  imports Connector "HOL-Library.Multiset"
begin

text \<open>
  What the connection pool guarantees over every interleaving of its tasks, and what it does not:
  the invariants are carried by the multiset of the phases of the tasks, since a step takes one
  task from one phase to another and leaves the rest alone.
\<close>

section \<open>Phases as a multiset\<close>

definition phases :: "(nat \<rightharpoonup> 'c phase) \<Rightarrow> 'c phase multiset" where
  "phases m = image_mset (\<lambda>t. the (m t)) (mset_set (dom m))"

lemma phases_empty [simp]: "phases Map.empty = {#}"
  by (simp add: phases_def)

lemma phases_Some:
  assumes "finite (dom m)" "m t = Some y"
  shows "phases m = add_mset y (phases (m(t := None)))"
proof -
  have "mset_set (dom m) = add_mset t (mset_set (dom m - {t}))"
    using assms by (intro mset_set.remove) auto
  moreover have "image_mset (\<lambda>u. the (m u)) (mset_set (dom m - {t})) = phases (m(t := None))"
    using assms(1) by (auto simp: phases_def intro!: image_mset_cong)
  ultimately show ?thesis using assms(2) by (simp add: phases_def)
qed

lemma phases_upd: "finite (dom m) \<Longrightarrow> phases (m(t \<mapsto> x)) = add_mset x (phases (m(t := None)))"
  using phases_Some[of "m(t \<mapsto> x)" t x] by simp

lemma phases_in: "finite (dom m) \<Longrightarrow> x \<in># phases m \<longleftrightarrow> (\<exists>t. m t = Some x)"
  by (force simp: phases_def)

lemma none_upd: "m t = None \<Longrightarrow> m(t := None) = m"
  by auto

section \<open>The invariants\<close>

fun holds_permit :: "'c phase \<Rightarrow> bool" where
  "holds_permit (Returning p) = False"
| "holds_permit _ = True"

fun phase_conns :: "'c phase \<Rightarrow> 'c pooled multiset" where
  "phase_conns (Checking p) = {#p#}"
| "phase_conns (InSession p) = {#p#}"
| "phase_conns (Releasing p) = {#p#}"
| "phase_conns (Returning p) = {#p#}"
| "phase_conns _ = {#}"

text \<open>The open connections, idle or with a task.\<close>

definition conns :: "'c connector \<Rightarrow> 'c pooled multiset" where
  "conns s = mset (co_idle s) + sum_mset (image_mset phase_conns (phases (co_tasks s)))"

definition ids :: "'c connector \<Rightarrow> u64 multiset" where
  "ids s = image_mset po_id (conns s)"

definition pool_inv :: "connector_config \<Rightarrow> nat \<Rightarrow> 'c connector \<Rightarrow> bool" where
  "pool_inv cfg n s \<longleftrightarrow>
     finite (dom (co_tasks s)) \<and>
     co_permits s + size (filter_mset holds_permit (phases (co_tasks s))) = cc_max_size cfg \<and>
     (\<forall>i. count (ids s) i \<le> 1) \<and> (\<forall>i \<in># ids s. unat i < unat (co_next_id s)) \<and>
     unat (co_next_id s) \<le> Suc n"

lemma take_idle_cases:
  obtains (none) "take_idle s = (None, s)" "co_idle s = []"
  | (some) p where "take_idle s = (Some p, s\<lparr>co_idle := butlast (co_idle s)\<rparr>)" "mset (co_idle s) = add_mset p (mset (butlast (co_idle s)))"
proof (cases "co_idle s" rule: rev_cases)
  case Nil
  then show ?thesis using none by (simp add: take_idle_def)
next
  case (snoc ps p)
  then show ?thesis using some[of p] by (simp add: take_idle_def)
qed

lemma next_id_fresh:
  assumes "\<forall>i \<in># ids s. unat i < unat (co_next_id s)"
  shows "count (ids s) (co_next_id s) = 0"
  using assms by (metis count_eq_zero_iff less_irrefl)

lemma next_id_Suc:
  assumes "unat (co_next_id s) \<le> Suc n" "Suc n < 2 ^ 64 - 1"
  shows "unat (co_next_id s + 1) = Suc (unat (co_next_id s))"
  using incr_below[of "co_next_id s" "2 ^ 64 - 1"] assms by simp

text \<open>A step moves connections about, closes one, or makes one with a fresh id.\<close>

lemma ids_le:
  assumes "pool_inv cfg n s" "ids s' \<subseteq># ids s" "co_next_id s' = co_next_id s" "finite (dom (co_tasks s'))"
    "co_permits s' + size (filter_mset holds_permit (phases (co_tasks s'))) = cc_max_size cfg"
  shows "pool_inv cfg (Suc n) s'"
proof -
  have "count (ids s') i \<le> 1" for i
    using assms(1) mset_subset_eq_count[OF assms(2), of i] by (auto simp: pool_inv_def intro: le_trans)
  then show ?thesis using assms mset_subset_eqD[OF assms(2)] by (auto simp: pool_inv_def)
qed

lemma ids_new:
  assumes "pool_inv cfg n s" "ids s' = add_mset (co_next_id s) (ids s)" "co_next_id s' = co_next_id s + 1"
    "finite (dom (co_tasks s'))" "Suc n < 2 ^ 64 - 1"
    "co_permits s' + size (filter_mset holds_permit (phases (co_tasks s'))) = cc_max_size cfg"
  shows "pool_inv cfg (Suc n) s'"
proof -
  have inv: "\<forall>i \<in># ids s. unat i < unat (co_next_id s)" "\<forall>i. count (ids s) i \<le> 1" "unat (co_next_id s) \<le> Suc n"
    using assms(1) by (auto simp: pool_inv_def)
  note nxt = next_id_Suc[OF inv(3) assms(5)]
  show ?thesis
    using assms(2-4,6) inv next_id_fresh[OF inv(1)] nxt by (auto simp: pool_inv_def less_Suc_eq)
qed

lemma pool_step_inv:
  assumes "pool_inv cfg n s" "pool_step cfg e s = Some s'" "Suc n < 2 ^ 64 - 1"
  shows "pool_inv cfg (Suc n) s'"
proof -
  have fin: "finite (dom (co_tasks s))"
    and per: "co_permits s + size (filter_mset holds_permit (phases (co_tasks s))) = cc_max_size cfg"
    using assms(1) by (auto simp: pool_inv_def)
  note ph = phases_Some[OF fin] phases_upd[OF fin] none_upd
  note idd = ids_def conns_def set_task_def release_permit_def give_back_def return_idle_def new_pooled_def
  show ?thesis
  proof (cases e)
    case (TakeIdle t now)
    then have t: "co_tasks s t = Some Waiting" using assms(2) by (auto split: option.splits phase.splits)
    show ?thesis
    proof (cases rule: take_idle_cases[of s])
      case none
      then have "s' = set_task t (Some Connecting) s" using assms(2) TakeIdle t by simp
      then show ?thesis
        using fin per ph(1)[OF t] by (intro ids_le[OF assms(1)]) (simp_all add: idd ph(2))
    next
      case (some p)
      then have "s' = set_task t (Some (if should_recycle cfg now p then Connecting else Checking p))
          (s\<lparr>co_idle := butlast (co_idle s)\<rparr>)"
        using assms(2) TakeIdle t by (auto split: if_splits)
      then show ?thesis
        using fin per ph(1)[OF t] some(2)
        by (intro ids_le[OF assms(1)]) (simp_all add: idd ph(2))
    qed
  next
    case (Connected t conn now)
    then have t: "co_tasks s t = Some Connecting" using assms(2) by (auto split: option.splits phase.splits)
    show ?thesis
    proof (cases conn)
      case None
      then show ?thesis
        using assms(2) Connected t fin per ph(1)[OF t]
        by (intro ids_le[OF assms(1)]) (auto simp: idd)
    next
      case (Some c)
      then show ?thesis
        using assms(2,3) Connected t fin per ph(1)[OF t]
        by (intro ids_new[OF assms(1)]) (auto simp: idd ph(2))
    qed
  next
    case (Added t conn now)
    then have t: "co_tasks s t = Some Adding" using assms(2) by (auto split: option.splits phase.splits)
    show ?thesis
    proof (cases conn)
      case None
      then show ?thesis
        using assms(2) Added t fin per ph(1)[OF t]
        by (intro ids_le[OF assms(1)]) (auto simp: idd)
    next
      case (Some c)
      then show ?thesis
        using assms(2,3) Added t fin per ph(1)[OF t]
        by (intro ids_new[OF assms(1)]) (auto simp: idd ph(2))
    qed
  next
    case (Acquire t)
    then show ?thesis using assms(2) fin per
      by (intro ids_le[OF assms(1)]) (auto simp: idd ph(2,3) split: if_splits)
  next
    case (CheckoutTimeout t)
    then show ?thesis using assms(2) fin per by (intro ids_le[OF assms(1)]) (auto split: if_splits)
  next
    case (Healthy t ok c)
    then obtain p where t: "co_tasks s t = Some (Checking p)" using assms(2) by (auto split: option.splits phase.splits)
    then have "s' = set_task t (Some (if ok then InSession (p\<lparr>po_conn := c\<rparr>) else Connecting)) s" using Healthy assms(2) by simp
    then show ?thesis using fin per ph(1)[OF t]
      by (intro ids_le[OF assms(1)]) (simp_all add: idd ph(2))
  next
    case (UseConn t c)
    then obtain p where t: "co_tasks s t = Some (InSession p)" using assms(2) by (auto split: option.splits phase.splits)
    then show ?thesis using UseConn assms(2) fin per ph(1)[OF t]
      by (intro ids_le[OF assms(1)]) (auto simp: idd ph(2))
  next
    case (Release t)
    then obtain p where t: "co_tasks s t = Some (InSession p)" using assms(2) by (auto split: option.splits phase.splits)
    then show ?thesis using Release assms(2) fin per ph(1)[OF t]
      by (intro ids_le[OF assms(1)]) (auto simp: idd ph(2))
  next
    case (Released t reset_ok c now)
    then obtain p where t: "co_tasks s t = Some (Releasing p)" using assms(2) by (auto split: option.splits phase.splits)
    then show ?thesis using Released assms(2) fin per ph(1)[OF t]
      by (intro ids_le[OF assms(1)]) (auto simp: idd ph(2))
  next
    case (Finished t)
    then have t: "co_tasks s t = Some Finishing" using assms(2) by (auto split: option.splits phase.splits)
    then show ?thesis using Finished assms(2) fin per ph(1)[OF t]
      by (intro ids_le[OF assms(1)]) (auto simp: idd)
  next
    case (DropSession t)
    then obtain p where t: "co_tasks s t = Some (InSession p)" using assms(2) by (auto split: option.splits phase.splits)
    then show ?thesis using DropSession assms(2) fin per ph(1)[OF t]
      by (intro ids_le[OF assms(1)]) (auto simp: idd ph(2))
  next
    case (DropReturned t reset_ok c now)
    then obtain p where t: "co_tasks s t = Some (Returning p)" using assms(2) by (auto split: option.splits phase.splits)
    then show ?thesis using DropReturned assms(2) fin per ph(1)[OF t]
      by (intro ids_le[OF assms(1)]) (auto simp: idd)
  next
    case (TryAddOne t)
    then show ?thesis using assms(2) fin per
      by (intro ids_le[OF assms(1)]) (auto simp: idd ph(2,3) split: if_splits)
  next
    case (Cancelled t)
    then obtain x where t: "co_tasks s t = Some x" "cancellable x" "s' = set_task t None (release_permit s)"
      using assms(2) by (auto split: option.splits if_splits)
    then show ?thesis using fin per ph(1)[OF t(1)]
      by (intro ids_le[OF assms(1)]; cases x) (simp_all add: idd)
  qed
qed

lemma pool_inv_new: "pool_inv cfg 0 (empty_pool cfg)"
  by (simp add: pool_inv_def empty_pool_def ids_def conns_def)

lemma pool_run_inv:
  "pool_inv cfg n s \<Longrightarrow> n + length es < 2 ^ 64 - 1 \<Longrightarrow> pool_run cfg es s = Some s' \<Longrightarrow> pool_inv cfg (n + length es) s'"
proof (induction es arbitrary: n s)
  case (Cons e es)
  obtain s1 where s1: "pool_step cfg e s = Some s1" "pool_run cfg es s1 = Some s'"
    using Cons.prems(3) by (auto split: option.splits)
  have "pool_inv cfg (Suc n) s1" using pool_step_inv[OF Cons.prems(1) s1(1)] Cons.prems(2) by simp
  from Cons.IH[OF this _ s1(2)] Cons.prems(2) show ?case by simp
qed simp

text \<open>Two places that hold connections hold different ones.\<close>

lemma phase_conn_elsewhere:
  assumes "finite (dom (co_tasks s))" "co_tasks s t = Some ph"
  shows "ids s = image_mset po_id (phase_conns ph) + image_mset po_id (mset (co_idle s))
    + image_mset po_id (sum_mset (image_mset phase_conns (phases ((co_tasks s)(t := None)))))"
  using phases_Some[OF assms] by (simp add: ids_def conns_def)

lemma count_le_1_disjoint:
  assumes "\<forall>i. count (A + B) i \<le> 1" "i \<in># A"
  shows "i \<notin># B"
proof
  assume "i \<in># B"
  with assms(2) have "1 \<le> count A i" "1 \<le> count B i" by (simp_all add: Suc_le_eq count_greater_zero_iff)
  with assms(1)[THEN spec, of i] show False by simp
qed

text \<open>
  C5. In every interleaving of checkouts, releases, drops, cancelled futures and prewarming, fewer than \<open>2^64 - 1\<close> steps
  long, there are never more sessions than the pool's maximum; no connection is in two places: not
  twice in the idle list, not in two sessions, and not in a session and idle at once; and no permit
  is lost: when no task is left, all of them are free again, whatever failed on the way.
\<close>

theorem pool_is_exclusive:
  assumes "connector_new cfg = Return s0" and "pool_run cfg es s0 = Some s" and "length es < 2 ^ 64 - 1"
  shows "card {t. \<exists>p. co_tasks s t = Some (InSession p)} \<le> cc_max_size cfg \<and>
    distinct (map po_id (co_idle s)) \<and>
    (\<forall>t p. co_tasks s t = Some (InSession p) \<longrightarrow>
       po_id p \<notin> po_id ` set (co_idle s) \<and>
       (\<forall>u q. u \<noteq> t \<and> co_tasks s u = Some (InSession q) \<longrightarrow> po_id q \<noteq> po_id p)) \<and>
    (co_tasks s = Map.empty \<longrightarrow> co_permits s = cc_max_size cfg)"
proof -
  have s0: "s0 = empty_pool cfg" using assms(1) by (simp add: connector_new_Return)
  have inv: "pool_inv cfg (length es) s" using pool_run_inv[OF pool_inv_new _ assms(2)[unfolded s0]] assms(3) by simp
  then have fin: "finite (dom (co_tasks s))" and one: "\<forall>i. count (ids s) i \<le> 1"
    and per: "co_permits s + size (filter_mset holds_permit (phases (co_tasks s))) = cc_max_size cfg"
    by (auto simp: pool_inv_def)
  have "card {t. \<exists>p. co_tasks s t = Some (InSession p)} \<le> card {t \<in> dom (co_tasks s). holds_permit (the (co_tasks s t))}"
    using fin by (intro card_mono) auto
  also have "\<dots> = size (filter_mset holds_permit (phases (co_tasks s)))"
    using fin by (simp add: phases_def filter_mset_image_mset filter_mset_mset_set)
  finally have "card {t. \<exists>p. co_tasks s t = Some (InSession p)} \<le> cc_max_size cfg" using per by simp
  moreover have "count (mset (map po_id (co_idle s))) i \<le> 1" for i
    using one[THEN spec, of i] by (simp add: ids_def conns_def)
  then have "distinct (map po_id (co_idle s))"
    by (metis distinct_count_atmost_1 count_mset_0_iff le_antisym less_one not_less)
  moreover have "po_id p \<notin> po_id ` set (co_idle s) \<and>
       (\<forall>u q. u \<noteq> t \<and> co_tasks s u = Some (InSession q) \<longrightarrow> po_id q \<noteq> po_id p)"
    if t: "co_tasks s t = Some (InSession p)" for t p
  proof -
    let ?rest = "(co_tasks s)(t := None)"
    have split: "ids s = {#po_id p#} + (image_mset po_id (mset (co_idle s))
        + image_mset po_id (sum_mset (image_mset phase_conns (phases ?rest))))"
      using phase_conn_elsewhere[OF fin t] by simp
    from count_le_1_disjoint[OF one[unfolded split], of "po_id p"]
    have out: "po_id p \<notin> po_id ` set (co_idle s)"
      "po_id p \<notin># image_mset po_id (sum_mset (image_mset phase_conns (phases ?rest)))" by auto
    have "po_id q \<noteq> po_id p" if u: "u \<noteq> t" "co_tasks s u = Some (InSession q)" for u q
    proof -
      have "InSession q \<in># phases ?rest" using phases_in[of ?rest] fin u by auto
      then obtain M where "phases ?rest = add_mset (InSession q) M" by (meson multi_member_split)
      then show ?thesis using out(2) by auto
    qed
    then show ?thesis using out(1) by blast
  qed
  moreover have "co_tasks s = Map.empty \<longrightarrow> co_permits s = cc_max_size cfg" using per by auto
  ultimately show ?thesis by blast
qed

theorem pool_is_exclusive_witness:
  "\<exists>s0 s. connector_new connector_config_default = Return s0 \<and>
    pool_run connector_config_default
      [Acquire 0, TakeIdle 0 0, Connected 0 (Some ()) 0, Acquire 1, TakeIdle 1 0, Connected 1 None 0,
       Release 0, Released 0 True () 5, Finished 0] s0 = Some s \<and>
    co_tasks s = Map.empty \<and> co_permits s = 10 \<and> distinct (map po_id (co_idle s))"
proof -
  let ?es = "[Acquire 0, TakeIdle 0 0, Connected 0 (Some ()) 0, Acquire 1, TakeIdle 1 0, Connected 1 None 0,
       Release 0, Released 0 True () 5, Finished 0] :: unit event list"
  have new: "connector_new connector_config_default = Return (empty_pool connector_config_default :: unit connector)"
    by (simp add: connector_new_def connector_config_default_def max_permits_def)
  obtain s where s: "pool_run connector_config_default ?es (empty_pool connector_config_default) = Some s"
    "co_tasks s = Map.empty"
    by (simp add: empty_pool_def connector_config_default_def set_task_def take_idle_def new_pooled_def
        release_permit_def give_back_def return_idle_def fun_eq_iff)
  with pool_is_exclusive[OF new s(1)] new show ?thesis
    by (intro exI[of _ "empty_pool connector_config_default"] exI[of _ s]) (auto simp: connector_config_default_def)
qed

section \<open>The number of open connections\<close>

fun claims_conn :: "'c phase \<Rightarrow> bool" where
  "claims_conn (Checking p) = True"
| "claims_conn Connecting = True"
| "claims_conn (InSession p) = True"
| "claims_conn (Releasing p) = True"
| "claims_conn _ = False"

fun returning_or_adding :: "'c phase \<Rightarrow> bool" where
  "returning_or_adding (Returning p) = True"
| "returning_or_adding Adding = True"
| "returning_or_adding _ = False"

fun released_only :: "'c event \<Rightarrow> bool" where
  "released_only (DropSession t) = False"
| "released_only (TryAddOne t) = False"
| "released_only _ = True"

definition bound_inv :: "connector_config \<Rightarrow> 'c connector \<Rightarrow> bool" where
  "bound_inv cfg s \<longleftrightarrow>
     finite (dom (co_tasks s)) \<and>
     co_permits s + size (phases (co_tasks s)) = cc_max_size cfg \<and>
     (\<forall>ph \<in># phases (co_tasks s). \<not> returning_or_adding ph) \<and>
     length (co_idle s) + size (filter_mset claims_conn (phases (co_tasks s))) \<le> cc_max_size cfg"

lemma bound_step:
  assumes "bound_inv cfg s" "pool_step cfg e s = Some s'" "released_only e"
  shows "bound_inv cfg s'"
proof -
  have fin: "finite (dom (co_tasks s))" and per: "co_permits s + size (phases (co_tasks s)) = cc_max_size cfg"
    and calm: "\<forall>ph \<in># phases (co_tasks s). \<not> returning_or_adding ph"
    and le: "length (co_idle s) + size (filter_mset claims_conn (phases (co_tasks s))) \<le> cc_max_size cfg"
    using assms(1) by (auto simp: bound_inv_def)
  note ph = phases_Some[OF fin] phases_upd[OF fin] none_upd
  note bnd = bound_inv_def set_task_def release_permit_def give_back_def return_idle_def new_pooled_def
  show ?thesis
  proof (cases e)
    case (Acquire t)
    then show ?thesis using assms(2) fin per calm le by (auto simp: bnd ph(2,3) split: if_splits)
  next
    case (CheckoutTimeout t)
    then show ?thesis using assms(1,2) by (auto split: if_splits)
  next
    case (TakeIdle t now)
    then have t: "co_tasks s t = Some Waiting" using assms(2) by (auto split: option.splits phase.splits)
    let ?M = "phases ((co_tasks s)(t := None))"
    have less: "size (filter_mset claims_conn ?M) \<le> size ?M" by (rule size_filter_mset_lesseq)
    show ?thesis
    proof (cases rule: take_idle_cases[of s])
      case none
      then have "s' = set_task t (Some Connecting) s" using assms(2) TakeIdle t by simp
      then show ?thesis using fin per calm ph(1)[OF t] none(2)
        by (simp add: bnd ph(2)) (use less in linarith)
    next
      case (some p)
      then have s': "s' = set_task t (Some (if should_recycle cfg now p then Connecting else Checking p))
          (s\<lparr>co_idle := butlast (co_idle s)\<rparr>)"
        using assms(2) TakeIdle t by (auto split: if_splits)
      have "length (co_idle s) = Suc (length (butlast (co_idle s)))"
        using some(2) by (metis size_add_mset size_mset)
      then show ?thesis using fin per calm le ph(1)[OF t] by (simp add: s' bnd ph(2))
    qed
  next
    case (Healthy t ok c)
    then obtain p where t: "co_tasks s t = Some (Checking p)" using assms(2) by (auto split: option.splits phase.splits)
    then have "s' = set_task t (Some (if ok then InSession (p\<lparr>po_conn := c\<rparr>) else Connecting)) s" using Healthy assms(2) by simp
    then show ?thesis using fin per calm le ph(1)[OF t] by (simp add: bnd ph(2))
  next
    case (Connected t conn now)
    then have t: "co_tasks s t = Some Connecting" using assms(2) by (auto split: option.splits phase.splits)
    then show ?thesis using Connected assms(2) fin per calm le ph(1)[OF t]
      by (auto simp: bnd ph(2) split: option.splits)
  next
    case (UseConn t c)
    then obtain p where t: "co_tasks s t = Some (InSession p)" using assms(2) by (auto split: option.splits phase.splits)
    then show ?thesis using UseConn assms(2) fin per calm le ph(1)[OF t] by (auto simp: bnd ph(2))
  next
    case (Release t)
    then obtain p where t: "co_tasks s t = Some (InSession p)" using assms(2) by (auto split: option.splits phase.splits)
    then show ?thesis using Release assms(2) fin per calm le ph(1)[OF t] by (auto simp: bnd ph(2))
  next
    case (Released t reset_ok c now)
    then obtain p where t: "co_tasks s t = Some (Releasing p)" using assms(2) by (auto split: option.splits phase.splits)
    then show ?thesis using Released assms(2) fin per calm le ph(1)[OF t]
      by (cases "reset_ok \<and> \<not> should_recycle cfg now (p\<lparr>po_conn := c\<rparr>)") (auto simp: bnd ph(2))
  next
    case (Finished t)
    then have t: "co_tasks s t = Some Finishing" using assms(2) by (auto split: option.splits phase.splits)
    then show ?thesis using Finished assms(2) fin per calm le ph(1)[OF t] by (auto simp: bnd)
  next
    case (DropReturned t reset_ok c now)
    then obtain p where t: "co_tasks s t = Some (Returning p)" using assms(2) by (auto split: option.splits phase.splits)
    then show ?thesis using calm ph(1)[OF t] by simp
  next
    case (Added t conn now)
    then have t: "co_tasks s t = Some Adding" using assms(2) by (auto split: option.splits phase.splits)
    then show ?thesis using calm ph(1)[OF t] by simp
  next
    case (Cancelled t)
    then obtain x where t: "co_tasks s t = Some x" "cancellable x" "s' = set_task t None (release_permit s)"
      using assms(2) by (auto split: option.splits if_splits)
    then show ?thesis using fin per calm le ph(1)[OF t(1)] by (cases x) (auto simp: bnd)
  qed (use assms(3) in simp_all)
qed

lemma bound_run:
  "bound_inv cfg s \<Longrightarrow> list_all released_only es \<Longrightarrow> pool_run cfg es s = Some s' \<Longrightarrow> bound_inv cfg s'"
proof (induction es arbitrary: s)
  case (Cons e es)
  then obtain s1 where s1: "pool_step cfg e s = Some s1" "pool_run cfg es s1 = Some s'" by (auto split: option.splits)
  then show ?case using Cons bound_step[OF Cons.prems(1) s1(1)] by simp
qed simp

lemma conns_le:
  assumes "\<forall>ph \<in># phases (co_tasks s). \<not> returning_or_adding ph"
  shows "size (conns s) \<le> length (co_idle s) + size (filter_mset claims_conn (phases (co_tasks s)))"
proof -
  have "\<forall>ph \<in># M. \<not> returning_or_adding ph \<Longrightarrow>
      size (sum_mset (image_mset phase_conns M)) \<le> size (filter_mset claims_conn M)" for M :: "'a phase multiset"
  proof (induction M)
    case (add ph M)
    then show ?case by (cases ph) simp_all
  qed simp
  from this[OF assms] show ?thesis by (simp add: conns_def)
qed

text \<open>
  As long as sessions are given back by \<open>release\<close> and nothing is prewarmed, the pool never has more
  connections open, idle or in use, than its maximum, in any interleaving and however many
  connections are closed and replaced.
\<close>

theorem released_pool_is_bounded:
  assumes "pool_run cfg es (empty_pool cfg) = Some s" and "list_all released_only es"
  shows "size (conns s) \<le> cc_max_size cfg"
proof -
  have "bound_inv cfg (empty_pool cfg)" by (simp add: bound_inv_def empty_pool_def)
  from bound_run[OF this assms(2,1)] have le: "bound_inv cfg s" .
  then show ?thesis using conns_le[of s] by (simp add: bound_inv_def)
qed

theorem released_pool_is_bounded_witness:
  "\<exists>s. pool_run (connector_config_default\<lparr>cc_max_size := 1\<rparr>)
      [Acquire 0, TakeIdle 0 0, Connected 0 (Some ()) 0, Release 0, Released 0 True () 5, Finished 0,
       Acquire 1, TakeIdle 1 9, Healthy 1 True ()] (empty_pool (connector_config_default\<lparr>cc_max_size := 1\<rparr>)) = Some s \<and>
    size (conns s) \<le> 1"
proof -
  let ?cfg = "connector_config_default\<lparr>cc_max_size := 1\<rparr>"
  let ?es = "[Acquire 0, TakeIdle 0 0, Connected 0 (Some ()) 0, Release 0, Released 0 True () 5, Finished 0,
       Acquire 1, TakeIdle 1 9, Healthy 1 True ()] :: unit event list"
  obtain s where s: "pool_run ?cfg ?es (empty_pool ?cfg) = Some s"
    by (simp add: empty_pool_def connector_config_default_def set_task_def take_idle_def new_pooled_def
        release_permit_def give_back_def return_idle_def should_recycle_def from_secs_def)
  with released_pool_is_bounded[OF s] show ?thesis by auto
qed

lemma pool_run_append:
  "pool_run cfg (es @ fs) s = (case pool_run cfg es s of None \<Rightarrow> None | Some s1 \<Rightarrow> pool_run cfg fs s1)"
  by (induction es arbitrary: s) (auto split: option.splits)

lemma drop_round:
  assumes "co_tasks s t = None" "0 < co_permits s" "co_idle s = []" "finite (dom (co_tasks s))"
  shows "\<exists>s'. pool_run cfg [Acquire t, TakeIdle t 0, Connected t (Some c) 0, DropSession t] s = Some s' \<and>
    co_permits s' = co_permits s \<and> co_idle s' = [] \<and> dom (co_tasks s') = insert t (dom (co_tasks s)) \<and>
    size (conns s') = Suc (size (conns s))"
proof -
  have same: "(co_tasks s)(t := None) = co_tasks s" using assms(1) by auto
  show ?thesis
    using assms
    by (simp add: set_task_def take_idle_def new_pooled_def release_permit_def conns_def phases_upd same)
qed

text \<open>
  C37. A session that is dropped frees its permit before its connection is back, so the maximum does
  not bound the open connections: however many connections one names, some run of any pool that
  admits a session opens that many, while it never has more than one session at a time.
\<close>

theorem dropped_sessions_exceed_the_maximum:
  assumes "connector_new cfg = Return (s0 :: 'c connector)" and "0 < cc_max_size cfg"
  shows "\<exists>es s. pool_run cfg es s0 = Some s \<and> size (conns s) = n \<and> co_permits s = cc_max_size cfg"
proof -
  have s0: "s0 = empty_pool cfg" using assms(1) by (simp add: connector_new_Return)
  have "\<exists>es (s :: 'c connector). pool_run cfg es (empty_pool cfg) = Some s \<and> co_permits s = cc_max_size cfg \<and> co_idle s = [] \<and>
      dom (co_tasks s) = {..<n} \<and> size (conns s) = n"
  proof (induction n)
    case 0
    then show ?case by (intro exI[of _ "[]"]) (simp add: empty_pool_def conns_def)
  next
    case (Suc n)
    then obtain es and s :: "'c connector" where s: "pool_run cfg es (empty_pool cfg) = Some s" "co_permits s = cc_max_size cfg"
      "co_idle s = []" "dom (co_tasks s) = {..<n}" "size (conns s) = n"
      by blast
    have "n \<notin> dom (co_tasks s)" unfolding s(4) by simp
    then have t: "co_tasks s n = None" by (simp add: domIff)
    have pos: "0 < co_permits s" unfolding s(2) by (rule assms(2))
    have fin: "finite (dom (co_tasks s))" unfolding s(4) by simp
    obtain s' where r: "pool_run cfg [Acquire n, TakeIdle n 0, Connected n (Some undefined) 0, DropSession n] s = Some s'"
      "co_permits s' = co_permits s" "co_idle s' = []" "dom (co_tasks s') = insert n (dom (co_tasks s))"
      "size (conns s') = Suc (size (conns s))"
      using drop_round[OF t pos s(3) fin] by blast
    have "pool_run cfg (es @ [Acquire n, TakeIdle n 0, Connected n (Some undefined) 0, DropSession n]) (empty_pool cfg) = Some s'"
      unfolding pool_run_append s(1) option.case by (rule r(1))
    moreover have "dom (co_tasks s') = {..<Suc n}" unfolding r(4) s(4) by (simp add: lessThan_Suc)
    ultimately show ?case using r(2,3,5)[unfolded s(2,5)] by (intro exI conjI)
  qed
  then show ?thesis unfolding s0 by (elim exE conjE) (intro exI conjI)
qed

theorem dropped_sessions_exceed_the_maximum_witness:
  "\<exists>s0 es s :: unit connector. connector_new (connector_config_default\<lparr>cc_max_size := 1\<rparr>) = Return s0 \<and>
     pool_run (connector_config_default\<lparr>cc_max_size := 1\<rparr>) es s0 = Some s \<and> size (conns s) = 5"
proof -
  let ?cfg = "connector_config_default\<lparr>cc_max_size := 1\<rparr>"
  have new: "connector_new ?cfg = Return (empty_pool ?cfg :: unit connector)"
    by (simp add: connector_new_def max_permits_def)
  show ?thesis using dropped_sessions_exceed_the_maximum[OF new, of 5] new by auto
qed

section \<open>Recycling\<close>

text \<open>
  The idle limit is measured from the last return, not from the time a connection was idle, and a
  checkout does not refresh it: a connection given back healthy is kept only when its session,
  from the connection on, took no longer than the limit. A connection that was in use all along is
  closed for having been idle.
\<close>

theorem busy_connections_are_recycled:
  assumes "0 < cc_max_size cfg" and "cc_max_idle cfg = Some d" and "start \<le> end_time"
  shows "\<exists>s. pool_run cfg [Acquire 0, TakeIdle 0 start, Connected 0 (Some c) start, Release 0, Released 0 True c end_time,
      Finished 0] (empty_pool cfg) = Some s \<and>
    (co_idle s = [] \<longleftrightarrow> as_nanos d < end_time - start)"
  using assms
  by (simp add: empty_pool_def set_task_def take_idle_def new_pooled_def release_permit_def give_back_def
      return_idle_def should_recycle_def)

theorem busy_connections_are_recycled_witness:
  "\<exists>s. pool_run connector_config_default [Acquire 0, TakeIdle 0 0, Connected 0 (Some ()) 0, Release 0,
      Released 0 True () (301 * 10 ^ 9), Finished 0] (empty_pool connector_config_default) = Some s \<and> co_idle s = []"
  using busy_connections_are_recycled[of connector_config_default "from_secs 300" 0 "301 * 10 ^ 9" "()"]
  by (simp add: connector_config_default_def from_secs_def del: pool_run.simps)

end
