(* ===== verification/Db_Config_Properties.thy ===== *)
theory Db_Config_Properties
  imports Connector_Properties
begin

text \<open>
  The builder and the validation of a client configuration against their reference, and what a
  configuration that passes means for the pool made from it.
\<close>

section \<open>The builder\<close>

text \<open>The reference: each field is what its last setter said, the options a map of their entries.\<close>

fun last_set :: "(builder_op \<Rightarrow> 'a option) \<Rightarrow> builder_op list \<Rightarrow> 'a \<Rightarrow> 'a" where
  "last_set f [] old = old"
| "last_set f (op # ops) old = last_set f ops (case f op of None \<Rightarrow> old | Some a \<Rightarrow> a)"

fun option_entry :: "builder_op \<Rightarrow> (string \<times> string) option" where
  "option_entry (OptionEntry k v) = Some (k, v)"
| "option_entry _ = None"

definition configured :: "builder_op list \<Rightarrow> client_config" where
  "configured ops =
     \<lparr>cl_application_name = last_set (\<lambda>op. case op of ApplicationName n \<Rightarrow> Some (Some n) | _ \<Rightarrow> None) ops None,
      cl_topology = last_set (\<lambda>op. case op of Topology t \<Rightarrow> Some t | _ \<Rightarrow> None) ops topology_default,
      cl_auth = last_set (\<lambda>op. case op of Auth a \<Rightarrow> Some a | _ \<Rightarrow> None) ops auth_default,
      cl_tls = last_set (\<lambda>op. case op of Tls t \<Rightarrow> Some t | _ \<Rightarrow> None) ops tls_default,
      cl_pooling = last_set (\<lambda>op. case op of Pooling p \<Rightarrow> Some p | _ \<Rightarrow> None) ops pooling_default,
      cl_timeouts = last_set (\<lambda>op. case op of Timeouts t \<Rightarrow> Some t | _ \<Rightarrow> None) ops timeout_default,
      cl_session = last_set (\<lambda>op. case op of SessionPolicy s \<Rightarrow> Some s | _ \<Rightarrow> None) ops session_default,
      cl_observability = last_set (\<lambda>op. case op of Observability s \<Rightarrow> Some s | _ \<Rightarrow> None) ops observability_default,
      cl_options = map_of (rev (List.map_filter option_entry ops))\<rparr>"

lemma last_set_snoc: "last_set f (ops @ [op]) old = (case f op of None \<Rightarrow> last_set f ops old | Some a \<Rightarrow> a)"
  by (induction f ops old rule: last_set.induct) (simp_all split: option.splits)

lemma builder_fold: "cb_cfg (fold builder_apply ops builder_new) = configured ops"
proof (induction ops rule: rev_induct)
  case Nil
  then show ?case by (simp add: builder_new_def client_config_default_def configured_def map_filter_simps)
next
  case (snoc op ops)
  then show ?case
    by (cases op) (simp_all add: configured_def last_set_snoc map_filter_def)
qed

text \<open>
  C25. A configuration built by any sequence of setters holds in each field what its setter said last,
  and the union of the options given. It is accepted exactly when no check of the table applies,
  and refused with the message of the first that does, in the order of the table.
\<close>

theorem build_reports_first_failure:
  "builder_build (fold builder_apply ops builder_new) =
     (case List.find fst (checks (configured ops)) of
        None \<Rightarrow> Ok (configured ops)
      | Some (_, msg) \<Rightarrow> Err (Invalid msg))"
  by (simp add: builder_build_def builder_fold client_validate_checks first_failure_def split: option.splits)

section \<open>From a configuration to a pool\<close>

lemma empty_pool_run:
  "cc_max_size cfg = 0 \<Longrightarrow> co_permits s = 0 \<Longrightarrow> co_tasks s = Map.empty \<Longrightarrow> pool_run cfg es s = Some s' \<Longrightarrow>
   co_tasks s' = Map.empty"
proof (induction es arbitrary: s)
  case (Cons e es)
  then obtain s1 where s1: "pool_step cfg e s = Some s1" "pool_run cfg es s1 = Some s'" by (auto split: option.splits)
  have "s1 = s" using s1(1) Cons.prems(2,3) by (cases e) (auto split: if_splits)
  then show ?case using Cons.IH[OF Cons.prems(1-3)] s1(2) by simp
qed simp

text \<open>
  C38. A configuration that validates gives a pool that can serve, with two exceptions that validation
  lets pass: a maximum above what a semaphore counts, for which making the pool panics, and pooling
  switched off with a maximum of zero, for which no checkout of the pool can ever succeed.
\<close>

theorem validated_pool_serves:
  assumes "client_validate c = Ok ()"
  shows "(connector_new (connector_config_of c) = (Panic :: 'c connector exec) \<longleftrightarrow> max_permits < pl_max_size (cl_pooling c)) \<and>
    (\<forall>s0 :: 'c connector. connector_new (connector_config_of c) = Return s0 \<longrightarrow>
       (0 < pl_max_size (cl_pooling c) \<longleftrightarrow>
         (\<exists>es s t p. pool_run (connector_config_of c) es s0 = Some s \<and> co_tasks s t = Some (InSession p)))) \<and>
    (pl_enabled (cl_pooling c) \<longrightarrow> 0 < pl_max_size (cl_pooling c) \<and> pl_min_size (cl_pooling c) \<le> pl_max_size (cl_pooling c))"
proof -
  let ?cfg = "connector_config_of c"
  have max: "cc_max_size ?cfg = pl_max_size (cl_pooling c)" by (simp add: connector_config_of_def)
  have "pooling_validate (cl_pooling c) = Ok ()"
    using assms by (simp add: client_validate_def and_then_Ok)
  then have pool: "pl_enabled (cl_pooling c) \<longrightarrow>
      0 < pl_max_size (cl_pooling c) \<and> pl_min_size (cl_pooling c) \<le> pl_max_size (cl_pooling c)"
    by (auto simp: pooling_validate_def split: if_splits)
  have "\<exists>s p. pool_run ?cfg [Acquire 0, TakeIdle 0 0, Connected 0 (Some conn) 0] (empty_pool ?cfg) = Some s \<and>
      co_tasks s 0 = Some (InSession p)" if "0 < pl_max_size (cl_pooling c)" for conn :: 'c
    using that by (simp add: empty_pool_def max set_task_def take_idle_def new_pooled_def)
  moreover have "co_tasks s t \<noteq> Some (InSession p)"
    if "pl_max_size (cl_pooling c) = 0" "pool_run ?cfg es (empty_pool ?cfg) = Some s" for es s t and p :: "'c pooled"
    using empty_pool_run[OF _ _ _ that(2)] that(1) max by (simp add: empty_pool_def)
  ultimately have "0 < pl_max_size (cl_pooling c) \<longleftrightarrow>
      (\<exists>es (s :: 'c connector) t p. pool_run ?cfg es (empty_pool ?cfg) = Some s \<and> co_tasks s t = Some (InSession p))" by blast
  then show ?thesis using pool max by (auto simp: connector_new_Return) (auto simp: connector_new_def split: if_splits)
qed

text \<open>Both exceptions: no sessions at all, and more than there are permits.\<close>

definition pool_of_size :: "bool \<Rightarrow> nat \<Rightarrow> client_config" where
  "pool_of_size enabled n = client_config_default\<lparr>cl_pooling := pooling_default\<lparr>pl_enabled := enabled, pl_max_size := n\<rparr>\<rparr>"

lemma pool_of_size_valid: "\<not> enabled \<or> 0 < n \<Longrightarrow> client_validate (pool_of_size enabled n) = Ok ()"
  by (auto simp: pool_of_size_def client_validate_def topology_validate_def auth_validate_def tls_validate_def pooling_validate_def
      timeout_validate_def session_validate_def observability_validate_def client_config_default_def topology_default_def
      endpoint_localhost_def endpoint_new_def endpoint_validate_def auth_default_def timeout_default_def dur_is_zero_def
      from_secs_def trim_def trim_start.simps trim_end.simps ws_back_def code_def pooling_default_def)

theorem validated_pool_serves_witness:
  "(\<exists>s0 :: unit connector. connector_new (connector_config_of (pool_of_size False 0)) = Return s0 \<and>
     \<not> (\<exists>es s t p. pool_run (connector_config_of (pool_of_size False 0)) es s0 = Some s \<and> co_tasks s t = Some (InSession p))) \<and>
   client_validate (pool_of_size True (2 ^ 61)) = Ok () \<and>
   connector_new (connector_config_of (pool_of_size True (2 ^ 61))) = (Panic :: unit connector exec)"
proof -
  have ok: "client_validate (pool_of_size False 0) = Ok ()" "client_validate (pool_of_size True (2 ^ 61)) = Ok ()"
    by (simp_all add: pool_of_size_valid)
  have size: "pl_max_size (cl_pooling (pool_of_size b n)) = n" for b n by (simp add: pool_of_size_def)
  have "connector_new (connector_config_of (pool_of_size False 0)) = Return (empty_pool (connector_config_of (pool_of_size False 0)) :: unit connector)"
    by (simp add: connector_new_def connector_config_of_def size)
  then show ?thesis
    using validated_pool_serves[OF ok(1), where 'c = unit] validated_pool_serves[OF ok(2), where 'c = unit] ok(2)
    by (auto simp: size max_permits_def)
qed

end
