(* ===== verification/Data_Points.thy ===== *)
theory Data_Points
  imports Rust_Str Float64
begin

text \<open>
  \<open>databases/abstractdatabase/src/model/serialization.rs\<close>: the values of datapoints with their types,
  and the registry of datapoints. The two maps of the registry sit behind one lock, so each of its
  methods is one atomic step. A \<open>BTreeMap\<close> inside a value is the list of its entries.
\<close>

section \<open>Types and values\<close>

datatype data_point_id = DataPointId string

datatype qualified_name = QualifiedName string

datatype value_type =
    TNull | TBool | TI64 | TU64 | TF64 | TString | TBytes
  | TTimestampMillis
  | TArray value_type
  | TObject
  | TDecimal u32 u32
  | TCustom string

datatype db_value =
    VNull
  | VBool bool
  | VI64 i64
  | VU64 u64
  | VF64 f64
  | VString string
  | VBytes "u8 list"
  | VTimestampMillis i64
  | VArray "db_value list"
  | VObject "(string \<times> db_value) list"

fun value_type_of :: "db_value \<Rightarrow> value_type" where
  "value_type_of VNull = TNull"
| "value_type_of (VBool b) = TBool"
| "value_type_of (VI64 i) = TI64"
| "value_type_of (VU64 u) = TU64"
| "value_type_of (VF64 f) = TF64"
| "value_type_of (VString s) = TString"
| "value_type_of (VBytes bs) = TBytes"
| "value_type_of (VTimestampMillis t) = TTimestampMillis"
| "value_type_of (VArray []) = TArray TNull"
| "value_type_of (VArray (v # vs)) = TArray (value_type_of v)"
| "value_type_of (VObject kvs) = TObject"

text \<open>The table of the match, by declared type; null goes with anything.\<close>

primrec type_compatible :: "value_type \<Rightarrow> value_type \<Rightarrow> bool" where
  "type_compatible TNull a \<longleftrightarrow> a = TNull"
| "type_compatible TBool a \<longleftrightarrow> a = TBool \<or> a = TNull"
| "type_compatible TI64 a \<longleftrightarrow> a = TI64 \<or> a = TNull"
| "type_compatible TU64 a \<longleftrightarrow> a = TU64 \<or> a = TNull"
| "type_compatible TF64 a \<longleftrightarrow> a = TF64 \<or> a = TNull \<or> a = TI64 \<or> a = TU64"
| "type_compatible TString a \<longleftrightarrow> a = TString \<or> a = TNull"
| "type_compatible TBytes a \<longleftrightarrow> a = TBytes \<or> a = TNull"
| "type_compatible TTimestampMillis a \<longleftrightarrow> a = TTimestampMillis \<or> a = TNull"
| "type_compatible (TArray dt) a \<longleftrightarrow>
     (case a of TArray at \<Rightarrow> type_compatible dt at | TNull \<Rightarrow> True | _ \<Rightarrow> False)"
| "type_compatible TObject a \<longleftrightarrow> a = TObject \<or> a = TNull"
| "type_compatible (TDecimal p s) a \<longleftrightarrow> a = TNull"
| "type_compatible (TCustom s) a \<longleftrightarrow> a = TNull"

section \<open>Metadata and state of a datapoint\<close>

datatype source_ref =
    SqlColumn "string option" string string
  | TimeSeriesField string string "string list"
  | KeyValue string
  | DocumentPath string string
  | SourceCustom "(string \<times> string) list"

record dp_constraints =
  ct_min :: "db_value option"
  ct_max :: "db_value option"
  ct_allowed :: "db_value list option"

record data_point_meta =
  dp_id :: data_point_id
  dp_name :: qualified_name
  dp_declared_type :: value_type
  dp_unit :: "string option"
  dp_description :: "string option"
  dp_tags :: "string \<rightharpoonup> string"
  dp_source :: "source_ref option"
  dp_constraints :: "dp_constraints option"

record timed_value =
  tv_ts_millis :: i64
  tv_value :: db_value

text \<open>\<open>now\<close>: the clock in milliseconds since the epoch; before it, zero.\<close>

definition timed_value_now :: "nat \<Rightarrow> db_value \<Rightarrow> timed_value" where
  "timed_value_now now v = \<lparr>tv_ts_millis = of_nat now, tv_value = v\<rparr>"

record data_point_state =
  ds_meta :: data_point_meta
  ds_current :: "timed_value option"

record dp_schema =
  sch_namespace :: "string option"
  sch_datapoints :: "data_point_meta list"
  sch_version :: "string option"

section \<open>The registry\<close>

record data_point_registry =
  reg_by_id :: "data_point_id \<rightharpoonup> data_point_state"
  reg_by_name :: "qualified_name \<rightharpoonup> data_point_id"

definition data_registry_new :: data_point_registry where
  "data_registry_new = \<lparr>reg_by_id = Map.empty, reg_by_name = Map.empty\<rparr>"

definition upsert_meta :: "data_point_meta \<Rightarrow> data_point_registry \<Rightarrow> data_point_registry" where
  "upsert_meta meta r =
     (let i = dp_id meta; name = dp_name meta;
          r1 = (case reg_by_id r i of
                  Some existing \<Rightarrow>
                    r\<lparr>reg_by_id := (reg_by_id r)(i \<mapsto> \<lparr>ds_meta = meta, ds_current = ds_current existing\<rparr>)\<rparr>
                | None \<Rightarrow> r\<lparr>reg_by_id := (reg_by_id r)(i \<mapsto> \<lparr>ds_meta = meta, ds_current = None\<rparr>)\<rparr>)
      in r1\<lparr>reg_by_name := (reg_by_name r1)(name \<mapsto> i)\<rparr>)"

definition apply_schema :: "dp_schema \<Rightarrow> data_point_registry \<Rightarrow> data_point_registry" where
  "apply_schema sch r = fold upsert_meta (sch_datapoints sch) r"

definition get_by_id :: "data_point_registry \<Rightarrow> data_point_id \<Rightarrow> data_point_state option" where
  "get_by_id r i = reg_by_id r i"

definition get_by_name :: "data_point_registry \<Rightarrow> qualified_name \<Rightarrow> data_point_state option" where
  "get_by_name r name =
     (case reg_by_name r name of None \<Rightarrow> None | Some i \<Rightarrow> reg_by_id r i)"

text \<open>The messages of the errors carry the debug output of their arguments; the arguments are kept.\<close>

datatype set_error =
    TypeMismatch qualified_name value_type value_type
  | UnknownDatapoint data_point_id

definition set_value ::
  "data_point_id \<Rightarrow> timed_value \<Rightarrow> bool \<Rightarrow> qualified_name option \<Rightarrow> (string \<rightharpoonup> string) \<Rightarrow> data_point_registry
   \<Rightarrow> (set_error, unit) result \<times> data_point_registry" where
  "set_value i v auto_define default_name default_tags r =
     (case reg_by_id r i of
        Some dp \<Rightarrow>
          (let declared = dp_declared_type (ds_meta dp); actual = value_type_of (tv_value v) in
           if \<not> type_compatible declared actual
           then (Err (TypeMismatch (dp_name (ds_meta dp)) declared actual), r)
           else (Ok (), r\<lparr>reg_by_id := (reg_by_id r)(i \<mapsto> dp\<lparr>ds_current := Some v\<rparr>)\<rparr>))
      | None \<Rightarrow>
          if \<not> auto_define then (Err (UnknownDatapoint i), r)
          else
            (let name = (case default_name of Some n \<Rightarrow> n | None \<Rightarrow> (case i of DataPointId s \<Rightarrow> QualifiedName s));
                 meta = \<lparr>dp_id = i, dp_name = name, dp_declared_type = value_type_of (tv_value v), dp_unit = None,
                         dp_description = None, dp_tags = default_tags, dp_source = None, dp_constraints = None\<rparr>;
                 r1 = r\<lparr>reg_by_name := (reg_by_name r)(name \<mapsto> i)\<rparr>
             in (Ok (), r1\<lparr>reg_by_id := (reg_by_id r1)(i \<mapsto> \<lparr>ds_meta = meta, ds_current = Some v\<rparr>)\<rparr>)))"

text \<open>\<open>order\<close>: the order in which the iterator of the hash map produced the ids.\<close>

definition list_datapoints :: "data_point_id list \<Rightarrow> data_point_registry \<Rightarrow> data_point_state list" where
  "list_datapoints order r = List.map_filter (reg_by_id r) order"

section \<open>Histories\<close>

datatype dp_op =
    UpsertMeta data_point_meta
  | SetValue data_point_id timed_value bool "qualified_name option" "string \<rightharpoonup> string"

fun dp_step :: "dp_op \<Rightarrow> data_point_registry \<Rightarrow> data_point_registry" where
  "dp_step (UpsertMeta meta) r = upsert_meta meta r"
| "dp_step (SetValue i v auto name tags) r = snd (set_value i v auto name tags r)"

definition dp_run :: "dp_op list \<Rightarrow> data_point_registry" where
  "dp_run ops = fold dp_step ops data_registry_new"

text \<open>Every entry is filed under its own id, and every name leads to an entry.\<close>

definition dp_inv :: "data_point_registry \<Rightarrow> bool" where
  "dp_inv r \<longleftrightarrow>
     (\<forall>i st. reg_by_id r i = Some st \<longrightarrow> dp_id (ds_meta st) = i \<and> reg_by_name r (dp_name (ds_meta st)) \<noteq> None) \<and>
     (\<forall>n i. reg_by_name r n = Some i \<longrightarrow> reg_by_id r i \<noteq> None)"

lemma dp_inv_new: "dp_inv data_registry_new"
  by (simp add: dp_inv_def data_registry_new_def)

lemma upsert_meta_simps:
  "reg_by_id (upsert_meta meta r) =
     (reg_by_id r)(dp_id meta \<mapsto>
        \<lparr>ds_meta = meta, ds_current = (case reg_by_id r (dp_id meta) of None \<Rightarrow> None | Some st \<Rightarrow> ds_current st)\<rparr>)"
  "reg_by_name (upsert_meta meta r) = (reg_by_name r)(dp_name meta \<mapsto> dp_id meta)"
  by (simp_all add: upsert_meta_def Let_def split: option.splits)

lemma upsert_meta_inv: "dp_inv r \<Longrightarrow> dp_inv (upsert_meta meta r)"
  by (auto simp: dp_inv_def upsert_meta_simps split: if_splits)

lemma set_value_cases:
  obtains (mismatch) dp where "reg_by_id r i = Some dp" "\<not> type_compatible (dp_declared_type (ds_meta dp)) (value_type_of (tv_value v))"
      "set_value i v auto name tags r =
         (Err (TypeMismatch (dp_name (ds_meta dp)) (dp_declared_type (ds_meta dp)) (value_type_of (tv_value v))), r)"
  | (stored) dp where "reg_by_id r i = Some dp" "type_compatible (dp_declared_type (ds_meta dp)) (value_type_of (tv_value v))"
      "set_value i v auto name tags r = (Ok (), r\<lparr>reg_by_id := (reg_by_id r)(i \<mapsto> dp\<lparr>ds_current := Some v\<rparr>)\<rparr>)"
  | (unknown) "reg_by_id r i = None" "\<not> auto" "set_value i v auto name tags r = (Err (UnknownDatapoint i), r)"
  | (defined) meta where "reg_by_id r i = None" "auto" "dp_id meta = i"
      "dp_declared_type meta = value_type_of (tv_value v)"
      "set_value i v auto name tags r =
         (Ok (), r\<lparr>reg_by_name := (reg_by_name r)(dp_name meta \<mapsto> i),
                   reg_by_id := (reg_by_id r)(i \<mapsto> \<lparr>ds_meta = meta, ds_current = Some v\<rparr>)\<rparr>)"
proof (cases "reg_by_id r i")
  case None
  let ?name = "case name of Some n \<Rightarrow> n | None \<Rightarrow> (case i of DataPointId s \<Rightarrow> QualifiedName s)"
  let ?meta = "\<lparr>dp_id = i, dp_name = ?name, dp_declared_type = value_type_of (tv_value v), dp_unit = None,
                         dp_description = None, dp_tags = tags, dp_source = None, dp_constraints = None\<rparr>"
  show ?thesis
    using None unknown defined[of ?meta] by (cases auto) (simp_all add: set_value_def Let_def)
next
  case (Some dp)
  then show ?thesis
    using mismatch[of dp] stored[of dp]
    by (cases "type_compatible (dp_declared_type (ds_meta dp)) (value_type_of (tv_value v))")
      (simp_all add: set_value_def Let_def)
qed

lemma set_value_inv:
  assumes "dp_inv r"
  shows "dp_inv (snd (set_value i v auto name tags r))"
  by (cases rule: set_value_cases[of r i v auto name tags])
    (use assms in \<open>auto simp: dp_inv_def split: if_splits\<close>)

lemma dp_step_inv: "dp_inv r \<Longrightarrow> dp_inv (dp_step op r)"
  by (cases op) (simp_all add: upsert_meta_inv set_value_inv)

lemma dp_run_inv: "dp_inv (dp_run ops)"
proof -
  have "dp_inv r \<Longrightarrow> dp_inv (fold dp_step ops r)" for r
    by (induction ops arbitrary: r) (simp_all add: dp_step_inv)
  then show ?thesis using dp_inv_new by (simp add: dp_run_def)
qed

section \<open>Compatibility\<close>

text \<open>The types some value has, apart from null.\<close>

fun storable :: "value_type \<Rightarrow> bool" where
  "storable (TArray t) = storable t"
| "storable (TDecimal p s) = False"
| "storable (TCustom s) = False"
| "storable _ = True"

lemma value_type_storable: "storable (value_type_of v)"
  by (induction v rule: value_type_of.induct) simp_all

lemma compatible_refl: "storable t \<Longrightarrow> type_compatible t t"
  by (induction t) simp_all

lemma compatible_null [simp]: "type_compatible t TNull"
  by (cases t) simp_all

lemma array_compatible:
  "type_compatible (TArray dt) a \<longleftrightarrow> a = TNull \<or> (\<exists>at. a = TArray at \<and> type_compatible dt at)"
  by (cases a) simp_all

lemma compatible_trans:
  "type_compatible a b \<Longrightarrow> type_compatible b c \<Longrightarrow> type_compatible a c"
proof (induction a arbitrary: b c)
  case (TArray a)
  then consider "b = TNull" | b' where "b = TArray b'" "type_compatible a b'" by (auto simp only: array_compatible)
  then show ?case
  proof cases
    case 2
    then show ?thesis using TArray by (auto simp only: array_compatible)
  qed (use TArray.prems in simp)
qed auto

lemma compatible_antisym:
  "type_compatible a b \<Longrightarrow> type_compatible b a \<Longrightarrow> a = b"
proof (induction a arbitrary: b)
  case (TArray a)
  then show ?case by (cases b) auto
qed auto

end
