(* ===== verification/Data_Point_Properties.thy ===== *)
theory Data_Point_Properties
  imports Data_Points
begin

text \<open>
  The datapoint registry over its histories: the types of the stored values, the outcome of every
  update, and which declared types can hold a value at all.
\<close>

section \<open>Typed values\<close>

text \<open>A history in which no definition changes the declared type of a datapoint that exists.\<close>

fun types_stable :: "dp_op list \<Rightarrow> data_point_registry \<Rightarrow> bool" where
  "types_stable [] r \<longleftrightarrow> True"
| "types_stable (op # ops) r \<longleftrightarrow>
     (case op of
        UpsertMeta meta \<Rightarrow>
          (case reg_by_id r (dp_id meta) of
             None \<Rightarrow> True
           | Some st \<Rightarrow> dp_declared_type (ds_meta st) = dp_declared_type meta)
      | SetValue i v auto name tags \<Rightarrow> True) \<and> types_stable ops (dp_step op r)"

definition well_typed :: "data_point_registry \<Rightarrow> bool" where
  "well_typed r \<longleftrightarrow>
     (\<forall>i st v. reg_by_id r i = Some st \<and> ds_current st = Some v \<longrightarrow>
        type_compatible (dp_declared_type (ds_meta st)) (value_type_of (tv_value v)))"

lemma well_typed_step:
  assumes "well_typed r" and "types_stable [op] r"
  shows "well_typed (dp_step op r)"
proof (cases op)
  case (UpsertMeta meta)
  then show ?thesis
    using assms by (auto simp: well_typed_def upsert_meta_simps split: option.splits if_splits) metis
next
  case (SetValue i v auto name tags)
  show ?thesis
    by (cases rule: set_value_cases[of r i v auto name tags])
      (use assms(1) SetValue in \<open>auto simp: well_typed_def compatible_refl value_type_storable split: if_splits\<close>)
qed

lemma well_typed_run: "well_typed r \<Longrightarrow> types_stable ops r \<Longrightarrow> well_typed (fold dp_step ops r)"
proof (induction ops arbitrary: r)
  case (Cons op ops)
  then show ?case using well_typed_step[of r op] by simp
qed simp

text \<open>
  C22. As long as no definition changes the declared type of an existing datapoint, every current value
  in the registry has a type that the declared one admits, whether the datapoint was declared or
  came into being with its first value; and every datapoint is filed under its own id.
\<close>

theorem current_values_fit_their_type:
  assumes "types_stable ops data_registry_new" and "get_by_id (dp_run ops) i = Some st"
    and "ds_current st = Some v"
  shows "type_compatible (dp_declared_type (ds_meta st)) (value_type_of (tv_value v)) \<and> dp_id (ds_meta st) = i"
proof -
  have "well_typed data_registry_new" by (simp add: well_typed_def data_registry_new_def)
  from well_typed_run[OF this assms(1)] have "well_typed (dp_run ops)" by (simp add: dp_run_def)
  then show ?thesis
    using assms(2,3) dp_run_inv[of ops] by (auto simp: well_typed_def get_by_id_def dp_inv_def)
qed

definition sample_meta :: "string \<Rightarrow> string \<Rightarrow> value_type \<Rightarrow> data_point_meta" where
  "sample_meta i n t =
     \<lparr>dp_id = DataPointId i, dp_name = QualifiedName n, dp_declared_type = t, dp_unit = None, dp_description = None,
      dp_tags = Map.empty, dp_source = None, dp_constraints = None\<rparr>"

theorem current_values_fit_their_type_witness:
  "let ops = [UpsertMeta (sample_meta ''a'' ''x'' TF64),
              SetValue (DataPointId ''a'') \<lparr>tv_ts_millis = 1, tv_value = VI64 7\<rparr> False None Map.empty,
              SetValue (DataPointId ''a'') \<lparr>tv_ts_millis = 2, tv_value = VBool True\<rparr> False None Map.empty]
   in \<exists>st. get_by_id (dp_run ops) (DataPointId ''a'') = Some st \<and>
        ds_current st = Some \<lparr>tv_ts_millis = 1, tv_value = VI64 7\<rparr> \<and> type_compatible (dp_declared_type (ds_meta st)) TI64"
proof -
  let ?ops = "[UpsertMeta (sample_meta ''a'' ''x'' TF64),
              SetValue (DataPointId ''a'') \<lparr>tv_ts_millis = 1, tv_value = VI64 7\<rparr> False None Map.empty,
              SetValue (DataPointId ''a'') \<lparr>tv_ts_millis = 2, tv_value = VBool True\<rparr> False None Map.empty]"
  have "types_stable ?ops data_registry_new" by (simp add: data_registry_new_def)
  moreover obtain st where "get_by_id (dp_run ?ops) (DataPointId ''a'') = Some st"
    "ds_current st = Some \<lparr>tv_ts_millis = 1, tv_value = VI64 7\<rparr>"
    by (simp add: dp_run_def get_by_id_def upsert_meta_def set_value_def data_registry_new_def sample_meta_def Let_def)
  ultimately show ?thesis using current_values_fit_their_type[of ?ops "DataPointId ''a''" st] by (auto simp: Let_def)
qed

section \<open>The outcome of an update\<close>

text \<open>
  In every registry a history leaves, an update of a value either fails, exactly when the datapoint
  is unknown and may not be defined or its declared type refuses the value, and then changes
  nothing; or the datapoint has that value as its current one and no other datapoint changes. A
  name that is known always leads to a datapoint, through any later update or definition.
\<close>

theorem set_value_outcome:
  "let r = dp_run ops; (res, r') = set_value i v auto name tags r in
     (case get_by_id r i of
        None \<Rightarrow> res = (if auto then Ok () else Err (UnknownDatapoint i))
      | Some dp \<Rightarrow>
          res = (if type_compatible (dp_declared_type (ds_meta dp)) (value_type_of (tv_value v)) then Ok ()
                 else Err (TypeMismatch (dp_name (ds_meta dp)) (dp_declared_type (ds_meta dp)) (value_type_of (tv_value v))))) \<and>
     (if is_ok res
      then (\<exists>st. get_by_id r' i = Some st \<and> ds_current st = Some v \<and> get_by_name r' (dp_name (ds_meta st)) \<noteq> None) \<and>
        get_by_id r' |` (- {i}) = get_by_id r |` (- {i})
      else r' = r) \<and>
     {n. get_by_name r n \<noteq> None} \<subseteq> {n. get_by_name (fold dp_step ops' r') n \<noteq> None}"
proof -
  let ?r = "dp_run ops" and ?r' = "snd (set_value i v auto name tags (dp_run ops))"
  have inv: "dp_inv ?r" and inv': "dp_inv ?r'" using dp_run_inv set_value_inv by blast+
  have known: "{n. get_by_name q n \<noteq> None} = dom (reg_by_name q)" if "dp_inv q" for q
    using that by (auto simp: get_by_name_def dp_inv_def dom_def split: option.splits)
  have kept: "dom (reg_by_name q) \<subseteq> dom (reg_by_name (dp_step op q))" for q op
  proof (cases op)
    case (SetValue i v auto name tags)
    then show ?thesis by (cases rule: set_value_cases[of q i v auto name tags]) auto
  qed (auto simp: upsert_meta_simps)
  have kepts: "dp_inv q \<Longrightarrow> dp_inv (fold dp_step os q) \<and> dom (reg_by_name q) \<subseteq> dom (reg_by_name (fold dp_step os q))" for os q
  proof (induction os arbitrary: q)
    case (Cons op os)
    have "dom (reg_by_name q) \<subseteq> dom (reg_by_name (dp_step op q))" by (rule kept)
    also have "\<dots> \<subseteq> dom (reg_by_name (fold dp_step os (dp_step op q)))"
      using Cons.IH[OF dp_step_inv[OF Cons.prems]] by simp
    finally show ?case using Cons.IH[OF dp_step_inv[OF Cons.prems]] by simp
  qed simp
  have "{n. get_by_name ?r n \<noteq> None} \<subseteq> {n. get_by_name (fold dp_step ops' ?r') n \<noteq> None}"
    using kept[of ?r "SetValue i v auto name tags"] kepts[OF inv', of ops']
    unfolding known[OF inv] known[OF kepts[OF inv', THEN conjunct1]] dp_step.simps by blast
  moreover have "\<exists>st. reg_by_id ?r' i = Some st \<and> ds_current st = Some v \<and> get_by_name ?r' (dp_name (ds_meta st)) \<noteq> None"
    if "reg_by_id ?r' i = Some st" "ds_current st = Some v" for st
    using that inv' by (auto simp: dp_inv_def get_by_name_def split: option.splits)
  ultimately show ?thesis
    by (cases rule: set_value_cases[of ?r i v auto name tags])
      (auto simp: Let_def get_by_id_def[abs_def] restrict_map_def fun_eq_iff)
qed

section \<open>Types that hold no value\<close>

text \<open>
  A datapoint declared as decimal or custom, and one defined on the fly by a null, never takes a
  value other than null: these, and no other types, refuse everything else. And the type of an
  array is that of its first element alone, so an array of mixed elements passes as homogeneous.
\<close>

theorem only_null_fits:
  "((\<nexists>v. v \<noteq> VNull \<and> type_compatible t (value_type_of v)) \<longleftrightarrow>
      t = TNull \<or> (\<exists>p s. t = TDecimal p s) \<or> (\<exists>c. t = TCustom c)) \<and>
   set_value i \<lparr>tv_ts_millis = ts, tv_value = VNull\<rparr> True None Map.empty data_registry_new =
     (Ok (), dp_run [SetValue i \<lparr>tv_ts_millis = ts, tv_value = VNull\<rparr> True None Map.empty]) \<and>
   (\<exists>n. fst (set_value i \<lparr>tv_ts_millis = ts', tv_value = VF64 x\<rparr> True None Map.empty
      (dp_run [SetValue i \<lparr>tv_ts_millis = ts, tv_value = VNull\<rparr> True None Map.empty])) = Err (TypeMismatch n TNull TF64)) \<and>
   type_compatible (TArray TI64) (value_type_of (VArray [VI64 k, VString str]))"
proof -
  have type_null: "value_type_of v = TNull \<longleftrightarrow> v = VNull" for v
    by (cases v rule: value_type_of.cases) simp_all
  have fits: "(\<exists>v. v \<noteq> VNull \<and> type_compatible t (value_type_of v)) \<longleftrightarrow>
      \<not> (t = TNull \<or> (\<exists>p s. t = TDecimal p s) \<or> (\<exists>c. t = TCustom c))"
  proof (cases t)
    case TBool
    then show ?thesis by (auto intro: exI[of _ "VBool True"])
  next
    case TI64
    then show ?thesis by (auto intro: exI[of _ "VI64 0"])
  next
    case TU64
    then show ?thesis by (auto intro: exI[of _ "VU64 0"])
  next
    case TF64
    then show ?thesis by (auto intro: exI[of _ "VI64 0"])
  next
    case TString
    then show ?thesis by (auto intro: exI[of _ "VString []"])
  next
    case TBytes
    then show ?thesis by (auto intro: exI[of _ "VBytes []"])
  next
    case TTimestampMillis
    then show ?thesis by (auto intro: exI[of _ "VTimestampMillis 0"])
  next
    case TArray
    then show ?thesis by (auto intro: exI[of _ "VArray []"])
  next
    case TObject
    then show ?thesis by (auto intro: exI[of _ "VObject []"])
  qed (auto simp: type_null)
  then show ?thesis
    by (auto simp: set_value_def dp_run_def data_registry_new_def Let_def)
qed

end
