(* ===== verification/Protocol_Connection.thy ===== *)
theory Protocol_Connection
  imports Connector
begin

text \<open>
  \<open>databases/abstractdatabase/src/client/protocol.rs\<close>: the connection the pool manages, a transport,
  a codec and the hooks of a protocol. The traits are records of methods on the implementor's state:
  \<open>'t\<close> of the transport, \<open>'k\<close> of the codec; \<open>'m\<close> is what the transport carries, \<open>'f\<close> the protocol's
  frames. A protocol hook gets the connection as a \<open>ProtocolIo\<close>, so it only sends and receives: its
  methods are functions of the two methods and the state they act on, and the private flag
  \<open>healthy\<close> is out of their reach. An error is an \<open>anyhow\<close> error, its message.
\<close>

section \<open>The traits\<close>

record ('t, 'mi, 'mo) transport =
  tr_send :: "'mo \<Rightarrow> 't \<Rightarrow> (string, unit) result \<times> 't"
  tr_recv :: "'t \<Rightarrow> (string, 'mi) result \<times> 't"
  tr_close :: "'t \<Rightarrow> (string, unit) result \<times> 't"

record ('k, 'mi, 'mo, 'fi, 'fo) codec =
  cd_decode :: "'mi \<Rightarrow> 'k \<Rightarrow> (string, 'fi) result \<times> 'k"
  cd_encode :: "'fo \<Rightarrow> 'k \<Rightarrow> (string, 'mo) result \<times> 'k"

record ('s, 'fi, 'fo) protocol_io =
  io_send :: "'fo \<Rightarrow> 's \<Rightarrow> (string, unit) result \<times> 's"
  io_recv :: "'s \<Rightarrow> (string, 'fi) result \<times> 's"

record ('s, 'fi, 'fo) protocol =
  pr_handshake :: "('s, 'fi, 'fo) protocol_io \<Rightarrow> 's \<Rightarrow> (string, unit) result \<times> 's"
  pr_ping :: "('s, 'fi, 'fo) protocol_io \<Rightarrow> 's \<Rightarrow> (string, unit) result \<times> 's"
  pr_reset :: "('s, 'fi, 'fo) protocol_io \<Rightarrow> 's \<Rightarrow> (string, unit) result \<times> 's"
  pr_on_close :: "('s, 'fi, 'fo) protocol_io \<Rightarrow> 's \<Rightarrow> (string, unit) result \<times> 's"

text \<open>The three that a connection is made of.\<close>

record ('t, 'k, 'mi, 'mo, 'fi, 'fo) stack =
  st_transport :: "('t, 'mi, 'mo) transport"
  st_codec :: "('k, 'mi, 'mo, 'fi, 'fo) codec"
  st_protocol :: "('t \<times> 'k, 'fi, 'fo) protocol"

section \<open>The connection\<close>

record ('t, 'k) protocol_connection =
  pc_transport :: 't
  pc_codec :: 'k
  pc_healthy :: bool

definition protocol_connection_new :: "'t \<Rightarrow> 'k \<Rightarrow> ('t, 'k) protocol_connection" where
  "protocol_connection_new t k = \<lparr>pc_transport = t, pc_codec = k, pc_healthy = True\<rparr>"

definition send_frame ::
  "('t, 'k, 'mi, 'mo, 'fi, 'fo) stack \<Rightarrow> 'fo \<Rightarrow> 't \<times> 'k \<Rightarrow> (string, unit) result \<times> 't \<times> 'k" where
  "send_frame S f s =
     (case cd_encode (st_codec S) f (snd s) of
        (Err e, k) \<Rightarrow> (Err e, fst s, k)
      | (Ok m, k) \<Rightarrow> (case tr_send (st_transport S) m (fst s) of (r, t) \<Rightarrow> (r, t, k)))"

definition recv_frame ::
  "('t, 'k, 'mi, 'mo, 'fi, 'fo) stack \<Rightarrow> 't \<times> 'k \<Rightarrow> (string, 'fi) result \<times> 't \<times> 'k" where
  "recv_frame S s =
     (case tr_recv (st_transport S) (fst s) of
        (Err e, t) \<Rightarrow> (Err e, t, snd s)
      | (Ok m, t) \<Rightarrow> (case cd_decode (st_codec S) m (snd s) of (r, k) \<Rightarrow> (r, t, k)))"

definition conn_io :: "('t, 'k, 'mi, 'mo, 'fi, 'fo) stack \<Rightarrow> ('t \<times> 'k, 'fi, 'fo) protocol_io" where
  "conn_io S = \<lparr>io_send = send_frame S, io_recv = recv_frame S\<rparr>"

text \<open>Calling a hook on the connection.\<close>

definition on_io ::
  "('t \<times> 'k \<Rightarrow> (string, 'a) result \<times> 't \<times> 'k) \<Rightarrow> ('t, 'k) protocol_connection
   \<Rightarrow> (string, 'a) result \<times> ('t, 'k) protocol_connection" where
  "on_io f c =
     (case f (pc_transport c, pc_codec c) of (r, t, k) \<Rightarrow> (r, c\<lparr>pc_transport := t, pc_codec := k\<rparr>))"

definition handshake ::
  "('t, 'k, 'mi, 'mo, 'fi, 'fo) stack \<Rightarrow> ('t, 'k) protocol_connection
   \<Rightarrow> (string, unit) result \<times> ('t, 'k) protocol_connection" where
  "handshake S c = on_io (pr_handshake (st_protocol S) (conn_io S)) c"

definition ping ::
  "('t, 'k, 'mi, 'mo, 'fi, 'fo) stack \<Rightarrow> ('t, 'k) protocol_connection
   \<Rightarrow> (string, unit) result \<times> ('t, 'k) protocol_connection" where
  "ping S c = on_io (pr_ping (st_protocol S) (conn_io S)) c"

definition reset_session ::
  "('t, 'k, 'mi, 'mo, 'fi, 'fo) stack \<Rightarrow> ('t, 'k) protocol_connection
   \<Rightarrow> (string, unit) result \<times> ('t, 'k) protocol_connection" where
  "reset_session S c = on_io (pr_reset (st_protocol S) (conn_io S)) c"

text \<open>\<open>ManagedConnection\<close>: \<open>close\<close>, \<open>is_healthy\<close> and \<open>reset\<close>.\<close>

definition conn_close ::
  "('t, 'k, 'mi, 'mo, 'fi, 'fo) stack \<Rightarrow> ('t, 'k) protocol_connection
   \<Rightarrow> (string, unit) result \<times> ('t, 'k) protocol_connection" where
  "conn_close S c =
     (case tr_close (st_transport S) (pc_transport c) of (r, t) \<Rightarrow> (r, c\<lparr>pc_transport := t\<rparr>))"

definition close_gracefully ::
  "('t, 'k, 'mi, 'mo, 'fi, 'fo) stack \<Rightarrow> ('t, 'k) protocol_connection
   \<Rightarrow> (string, unit) result \<times> ('t, 'k) protocol_connection" where
  "close_gracefully S c = conn_close S (snd (on_io (pr_on_close (st_protocol S) (conn_io S)) c))"

definition conn_is_healthy ::
  "('t, 'k, 'mi, 'mo, 'fi, 'fo) stack \<Rightarrow> ('t, 'k) protocol_connection
   \<Rightarrow> bool \<times> ('t, 'k) protocol_connection" where
  "conn_is_healthy S c =
     (if \<not> pc_healthy c then (False, c)
      else (case ping S c of (r, c1) \<Rightarrow> (is_ok r, c1\<lparr>pc_healthy := is_ok r\<rparr>)))"

definition conn_reset ::
  "('t, 'k, 'mi, 'mo, 'fi, 'fo) stack \<Rightarrow> ('t, 'k) protocol_connection
   \<Rightarrow> (string, unit) result \<times> ('t, 'k) protocol_connection" where
  "conn_reset S c =
     (case reset_session S c of
        (Err e, c1) \<Rightarrow> (Err e, c1\<lparr>pc_healthy := False\<rparr>)
      | (Ok _, c1) \<Rightarrow> (Ok (), c1))"

section \<open>The factory\<close>

text \<open>
  \<open>ProtocolFactory\<close>: it holds a connect timeout, which \<open>connect\<close> does not read. The
  transport factory is its only method, a function of the client's configuration.
\<close>

record ('t, 'k) protocol_factory =
  pf_cfg :: client_config
  pf_transport_factory :: "client_config \<Rightarrow> (string, 't) result"
  pf_codec :: 'k
  pf_connect_timeout :: "duration option"

definition factory_connect ::
  "('t, 'k, 'mi, 'mo, 'fi, 'fo) stack \<Rightarrow> ('t, 'k) protocol_factory
   \<Rightarrow> (string, ('t, 'k) protocol_connection) result" where
  "factory_connect S F =
     (case pf_transport_factory F (pf_cfg F) of
        Err e \<Rightarrow> Err e
      | Ok t \<Rightarrow>
          (case handshake S (protocol_connection_new t (pf_codec F)) of
             (Err e, c) \<Rightarrow> Err e
           | (Ok _, c) \<Rightarrow> Ok c))"

text \<open>The answers the pool sees: how the hooks of a connection went.\<close>

definition reset_answer ::
  "('t, 'k, 'mi, 'mo, 'fi, 'fo) stack \<Rightarrow> ('t, 'k) protocol_connection
   \<Rightarrow> bool \<times> ('t, 'k) protocol_connection" where
  "reset_answer S c = map_prod is_ok id (conn_reset S c)"

text \<open>
  A connection the factory may produce: what the transport factory answers is up to the network,
  so any answer of it will do.
\<close>

definition is_fresh ::
  "('t, 'k, 'mi, 'mo, 'fi, 'fo) stack \<Rightarrow> ('t, 'k) protocol_factory \<Rightarrow> ('t, 'k) protocol_connection \<Rightarrow> bool" where
  "is_fresh S F c \<longleftrightarrow> (\<exists>answer. factory_connect S (F\<lparr>pf_transport_factory := answer\<rparr>) = Ok c)"

section \<open>Lemmas\<close>

lemma on_io_healthy [simp]: "pc_healthy (snd (on_io f c)) = pc_healthy c"
  by (simp add: on_io_def split: prod.splits)

lemma on_io_healthy_eq: "on_io f c = (r, c') \<Longrightarrow> pc_healthy c' = pc_healthy c"
  using on_io_healthy[of f c] by simp

lemmas hook_healthy = on_io_healthy_eq[where f = "pr_handshake (st_protocol S) (conn_io S)" for S,
    folded handshake_def]
  on_io_healthy_eq[where f = "pr_ping (st_protocol S) (conn_io S)" for S, folded ping_def]
  on_io_healthy_eq[where f = "pr_reset (st_protocol S) (conn_io S)" for S, folded reset_session_def]

lemma factory_healthy: "factory_connect S F = Ok c \<Longrightarrow> pc_healthy c"
  by (auto simp: factory_connect_def protocol_connection_new_def dest: hook_healthy(1)
      split: sum.splits prod.splits)

lemma is_healthy_answer: "conn_is_healthy S c = (b, c') \<Longrightarrow> pc_healthy c' \<longleftrightarrow> b"
  by (auto simp: conn_is_healthy_def split: if_splits prod.splits)

lemma reset_answer_dead:
  "reset_answer S c = (b, c') \<Longrightarrow> pc_healthy c' \<Longrightarrow> b \<and> pc_healthy c"
  by (auto simp: reset_answer_def conn_reset_def dest: hook_healthy(3) split: sum.splits prod.splits)

interpretation protocol_pool: managed_connection "conn_is_healthy S" "reset_answer S" pc_healthy "is_fresh S F"
  for S :: "('t, 'k, 'mi, 'mo, 'fi, 'fo) stack" and F :: "('t, 'k) protocol_factory"
proof unfold_locales
  fix c c' :: "('t, 'k) protocol_connection" and b
  show "conn_is_healthy S c = (b, c') \<Longrightarrow> pc_healthy c' \<longleftrightarrow> b" by (rule is_healthy_answer)
  show "\<not> pc_healthy c \<Longrightarrow> conn_is_healthy S c = (False, c)" by (simp add: conn_is_healthy_def)
  show "reset_answer S c = (b, c') \<Longrightarrow> pc_healthy c' \<Longrightarrow> b \<and> pc_healthy c" by (rule reset_answer_dead)
  show "is_fresh S F c \<Longrightarrow> pc_healthy c" by (auto simp: is_fresh_def dest: factory_healthy)
qed

end
