(* ===== verification/Protocol_Properties.thy ===== *)
theory Protocol_Properties
  imports Protocol_Connection
begin

text \<open>
  The pool over protocol connections. The connection's part is its memory of a failure: the flag
  \<open>healthy\<close>, once down, stays down whatever is done with the connection.
\<close>

section \<open>What is done with a connection\<close>

datatype 'fo conn_op = OpHandshake | OpPing | OpResetSession | OpSend 'fo | OpRecv
  | OpIsHealthy | OpReset | OpClose | OpCloseGracefully

fun conn_op_step ::
  "('t, 'k, 'mi, 'mo, 'fi, 'fo) stack \<Rightarrow> 'fo conn_op \<Rightarrow> ('t, 'k) protocol_connection
   \<Rightarrow> ('t, 'k) protocol_connection" where
  "conn_op_step S OpHandshake c = snd (handshake S c)"
| "conn_op_step S OpPing c = snd (ping S c)"
| "conn_op_step S OpResetSession c = snd (reset_session S c)"
| "conn_op_step S (OpSend f) c = snd (on_io (send_frame S f) c)"
| "conn_op_step S OpRecv c = snd (on_io (recv_frame S) c)"
| "conn_op_step S OpIsHealthy c = snd (conn_is_healthy S c)"
| "conn_op_step S OpReset c = snd (conn_reset S c)"
| "conn_op_step S OpClose c = snd (conn_close S c)"
| "conn_op_step S OpCloseGracefully c = snd (close_gracefully S c)"

lemma conn_close_healthy [simp]: "pc_healthy (snd (conn_close S c)) = pc_healthy c"
  by (simp add: conn_close_def split: prod.splits)

lemma conn_op_stays_down: "\<not> pc_healthy c \<Longrightarrow> \<not> pc_healthy (conn_op_step S op c)"
  by (cases op)
    (auto simp: handshake_def ping_def reset_session_def conn_is_healthy_def conn_reset_def close_gracefully_def
      dest: on_io_healthy_eq split: prod.splits sum.splits)

lemma conn_ops_stay_down: "\<not> pc_healthy c \<Longrightarrow> \<not> pc_healthy (fold (conn_op_step S) ops c)"
  by (induction ops arbitrary: c) (simp_all add: conn_op_stays_down)

section \<open>Properties\<close>

lemma release_answer_Ok:
  assumes "release_answer (conn_is_healthy S) (reset_answer S) c = (True, c')"
  shows "\<exists>c c1. pc_healthy c \<and> reset_session S c = (Ok (), c1) \<and> ping S c1 = (Ok (), c')"
proof -
  obtain c1 where c1: "reset_answer S c = (True, c1)" "conn_is_healthy S c1 = (True, c')"
    using assms by (auto simp: release_answer_def split: prod.splits if_splits)
  have reset: "reset_session S c = (Ok (), c1)"
    using c1(1) by (auto simp: reset_answer_def conn_reset_def split: prod.splits sum.splits)
  have up: "pc_healthy c1" using c1(2) by (auto simp: conn_is_healthy_def split: if_splits)
  obtain r c2 where ping: "ping S c1 = (r, c2)" by fastforce
  have "pc_healthy c2" using hook_healthy(2)[OF ping] up by simp
  then have "c' = c2" "is_ok r" using c1(2) up ping by (auto simp: conn_is_healthy_def)
  then have "ping S c1 = (Ok (), c')" using ping by (cases r) simp_all
  then show ?thesis using reset up hook_healthy(3)[OF reset] by auto
qed

text \<open>
  C18. Composition of the pool with protocol connections. Whatever tasks check connections out, use,
  release and drop them, in any interleaving, a connection that lies idle in the pool is just as its last
  check left it: either it was made in advance, by a connect whose handshake succeeded, and was never
  used; or the session that had it gave it back, the protocol's reset succeeded on it and then its ping,
  and neither had failed on it before (its flag was up).
\<close>

theorem idle_connections_are_healthy:
  assumes "connector_new cfg = Return s0" and "pool_run cfg es s0 = Some s"
    and "answered_run (conn_is_healthy S) (reset_answer S) (is_fresh S F) cfg es s0"
    and "p \<in> set (co_idle s)"
  shows "(\<exists>t. handshake S (protocol_connection_new t (pf_codec F)) = (Ok (), po_conn p)) \<or>
    (\<exists>c c1. pc_healthy c \<and> reset_session S c = (Ok (), c1) \<and> ping S c1 = (Ok (), po_conn p))"
proof -
  have s0: "s0 = empty_pool cfg" using assms(1) by (simp add: connector_new_Return)
  consider "is_fresh S F (po_conn p)" | c where "release_answer (conn_is_healthy S) (reset_answer S) c = (True, po_conn p)"
    using protocol_pool.pool_keeps_answered[OF assms(2,3)[unfolded s0]] assms(4) by blast
  then show ?thesis
  proof cases
    case 1
    then obtain answer where made: "factory_connect S (F\<lparr>pf_transport_factory := answer\<rparr>) = Ok (po_conn p)"
      by (auto simp: is_fresh_def)
    then obtain t where t: "answer (pf_cfg F) = Ok t" by (cases "answer (pf_cfg F)") (simp_all add: factory_connect_def)
    obtain r c where "handshake S (protocol_connection_new t (pf_codec F)) = (r, c)" by fastforce
    then show ?thesis using made t by (cases r) (auto simp: factory_connect_def)
  next
    case 2
    then show ?thesis using release_answer_Ok by blast
  qed
qed

text \<open>A transport that carries so many messages more, and a protocol that pings with one of them.\<close>

definition demo_stack :: "(nat, unit, nat, nat, nat, nat) stack" where
  "demo_stack =
     \<lparr>st_transport = \<lparr>tr_send = (\<lambda>m t. if t = 0 then (Err ''broken pipe'', t) else (Ok (), t - 1)),
        tr_recv = (\<lambda>t. (Ok 7, t)), tr_close = (\<lambda>t. (Ok (), 0))\<rparr>,
      st_codec = \<lparr>cd_decode = (\<lambda>m k. (Ok m, k)), cd_encode = (\<lambda>f k. (Ok f, k))\<rparr>,
      st_protocol = \<lparr>pr_handshake = (\<lambda>io s. io_send io 1 s), pr_ping = (\<lambda>io s. io_send io 2 s),
        pr_reset = (\<lambda>io s. (Ok (), s)), pr_on_close = (\<lambda>io s. (Ok (), s))\<rparr>\<rparr>"

definition demo_factory :: "(nat, unit) protocol_factory" where
  "demo_factory =
     \<lparr>pf_cfg = client_config_default, pf_transport_factory = (\<lambda>cfg. Ok 3), pf_codec = (), pf_connect_timeout = None\<rparr>"

definition demo_conn :: "nat \<Rightarrow> (nat, unit) protocol_connection" where
  "demo_conn n = \<lparr>pc_transport = n, pc_codec = (), pc_healthy = True\<rparr>"

definition demo_events :: "(nat, unit) protocol_connection event list" where
  "demo_events =
     [Acquire 0, TakeIdle 0 5, Connected 0 (Some (demo_conn 2)) 6, Release 0,
      Released 0 True (demo_conn 1) 7, Finished 0]"

lemmas demo_defs = demo_stack_def demo_factory_def demo_conn_def demo_events_def

lemma demo_connect: "factory_connect demo_stack demo_factory = Ok (demo_conn 2)"
  by (simp add: demo_defs factory_connect_def protocol_connection_new_def handshake_def on_io_def conn_io_def
      send_frame_def)

lemma demo_fresh: "is_fresh demo_stack demo_factory (demo_conn 2)"
  unfolding is_fresh_def
  by (rule exI[of _ "pf_transport_factory demo_factory"]) (simp add: demo_connect)

lemma demo_release: "release_answer (conn_is_healthy demo_stack) (reset_answer demo_stack) (demo_conn 2) = (True, demo_conn 1)"
  by (simp add: release_answer_def demo_stack_def demo_conn_def reset_answer_def conn_reset_def reset_session_def
      conn_is_healthy_def ping_def on_io_def conn_io_def send_frame_def)

lemmas pool_eval = set_task_def take_idle_def release_permit_def give_back_def return_idle_def new_pooled_def
  should_recycle_def empty_pool_def connector_config_default_def from_secs_def

lemma pool_demo_run:
  "\<exists>s. pool_run connector_config_default demo_events (empty_pool connector_config_default) = Some s \<and>
     map (pc_transport \<circ> po_conn) (co_idle s) = [1] \<and>
     answered_run (conn_is_healthy demo_stack) (reset_answer demo_stack) (is_fresh demo_stack demo_factory)
       connector_config_default demo_events (empty_pool connector_config_default)"
  using demo_fresh demo_release by (simp add: demo_events_def pool_eval) (simp add: demo_conn_def)

theorem idle_connections_are_healthy_witness:
  "\<exists>s0 s p. connector_new connector_config_default = Return s0 \<and>
     pool_run connector_config_default demo_events s0 = Some s \<and> co_idle s = [p] \<and> pc_transport (po_conn p) = 1 \<and>
     ((\<exists>t. handshake demo_stack (protocol_connection_new t ()) = (Ok (), po_conn p)) \<or>
      (\<exists>c c1. pc_healthy c \<and> reset_session demo_stack c = (Ok (), c1) \<and> ping demo_stack c1 = (Ok (), po_conn p)))"
proof -
  let ?new = "empty_pool connector_config_default :: (nat, unit) protocol_connection connector"
  have new: "connector_new connector_config_default = Return ?new"
    by (simp add: connector_new_def connector_config_default_def max_permits_def)
  obtain s :: "(nat, unit) protocol_connection connector" where s: "pool_run connector_config_default demo_events ?new = Some s"
      "map (pc_transport \<circ> po_conn) (co_idle s) = [1]"
      "answered_run (conn_is_healthy demo_stack) (reset_answer demo_stack) (is_fresh demo_stack demo_factory)
         connector_config_default demo_events ?new"
    by (rule exE[OF pool_demo_run]) (elim conjE, rule that)
  then obtain p where p: "co_idle s = [p]" "pc_transport (po_conn p) = 1" by (auto simp: map_eq_Cons_conv)
  show ?thesis
    using idle_connections_are_healthy[OF new s(1,3), of p] p new s(1)
    by (intro exI[of _ ?new] exI[of _ s] exI[of _ p]) simp
qed

text \<open>
  A connection marked unhealthy by a failed ping or reset never becomes healthy again, whatever
  is then done with it, and from then on the health check answers no without sending anything.
\<close>

theorem unhealthy_is_final:
  assumes "conn_is_healthy S c = (False, c1) \<or> (\<exists>e. conn_reset S c = (Err e, c1))"
  shows "conn_is_healthy S (fold (conn_op_step S) ops c1) = (False, fold (conn_op_step S) ops c1)"
proof -
  have "\<not> pc_healthy c1"
    using assms is_healthy_answer[of S c False c1] by (auto simp: conn_reset_def split: prod.splits sum.splits)
  then show ?thesis using conn_ops_stay_down[of c1 S ops] by (simp add: conn_is_healthy_def)
qed

theorem unhealthy_is_final_witness:
  "conn_is_healthy demo_stack (demo_conn 0) = (False, (demo_conn 0)\<lparr>pc_healthy := False\<rparr>) \<and>
   conn_is_healthy demo_stack (fold (conn_op_step demo_stack) [OpHandshake, OpReset] ((demo_conn 0)\<lparr>pc_healthy := False\<rparr>)) =
     (False, fold (conn_op_step demo_stack) [OpHandshake, OpReset] ((demo_conn 0)\<lparr>pc_healthy := False\<rparr>))"
proof -
  have "conn_is_healthy demo_stack (demo_conn 0) = (False, (demo_conn 0)\<lparr>pc_healthy := False\<rparr>)"
    by (simp add: demo_stack_def demo_conn_def conn_is_healthy_def ping_def on_io_def conn_io_def send_frame_def)
  with unhealthy_is_final[of demo_stack "demo_conn 0"] show ?thesis by blast
qed

end
