(* ===== verification/Result_Handler.thy ===== *)
theory Result_Handler
  imports Data_Points
begin

text \<open>
  \<open>databases/abstractdatabase/src/controller/resulthandler.rs\<close>: the envelopes of results and errors, the
  handlers that forward them and the sinks they forward to. A trait is a record of methods on the state
  \<open>'s\<close> of the implementor; a protocol's native payload is \<open>'p\<close>, the source of an error \<open>'x\<close>.
\<close>

section \<open>Envelopes\<close>

record operation_meta =
  om_op_id :: string
  om_namespace :: "string option"
  om_name :: "string option"
  om_timeout :: "duration option"
  om_tags :: "(string \<times> string) list"

definition operation_meta_new :: "string \<Rightarrow> operation_meta" where
  "operation_meta_new op_id =
     \<lparr>om_op_id = op_id, om_namespace = None, om_name = None, om_timeout = None, om_tags = []\<rparr>"

definition operation_tag :: "string \<Rightarrow> string \<Rightarrow> operation_meta \<Rightarrow> operation_meta" where
  "operation_tag k v m = m\<lparr>om_tags := om_tags m @ [(k, v)]\<rparr>"

record result_column_meta =
  cm_name :: string
  cm_declared_type :: "string option"

definition result_column_meta_new :: "string \<Rightarrow> result_column_meta" where
  "result_column_meta_new name = \<lparr>cm_name = name, cm_declared_type = None\<rparr>"

datatype 'p db_result =
    ScalarResult db_value
  | ObjectResult "(string \<times> db_value) list"
  | TableResult "result_column_meta list" "db_value list list"
  | PointsResult "(data_point_id \<times> timed_value) list"
  | AckResult "u64 option" "string option" "(string \<times> db_value) list"
  | NativeResult 'p

datatype db_error_kind =
    KTransport | KTimeout | KAuthentication | KAuthorization | KNotFound | KConflict
  | KConstraintViolation | KSerialization | KDeserialization | KProtocol | KServer | KClient | KUnknown

record 'x db_error_envelope =
  de_code :: "string option"
  de_message :: string
  de_kind :: db_error_kind
  de_retryable :: bool
  de_source :: "'x option"

definition db_error_new :: "string \<Rightarrow> db_error_kind \<Rightarrow> 'x db_error_envelope" where
  "db_error_new message kind =
     \<lparr>de_code = None, de_message = message, de_kind = kind, de_retryable = False, de_source = None\<rparr>"

definition with_code :: "string \<Rightarrow> 'x db_error_envelope \<Rightarrow> 'x db_error_envelope" where
  "with_code c e = e\<lparr>de_code := Some c\<rparr>"

definition retryable :: "bool \<Rightarrow> 'x db_error_envelope \<Rightarrow> 'x db_error_envelope" where
  "retryable v e = e\<lparr>de_retryable := v\<rparr>"

definition with_source :: "'x \<Rightarrow> 'x db_error_envelope \<Rightarrow> 'x db_error_envelope" where
  "with_source err e = e\<lparr>de_source := Some err\<rparr>"

section \<open>Sinks and handlers\<close>

record ('s, 'p, 'x) engine_sink =
  sink_result :: "operation_meta \<Rightarrow> 'p db_result \<Rightarrow> 's \<Rightarrow> (string, unit) result \<times> 's"
  sink_error :: "operation_meta \<Rightarrow> 'x db_error_envelope \<Rightarrow> 's \<Rightarrow> (string, unit) result \<times> 's"

type_synonym ('s, 'p, 'x) result_handler =
  "operation_meta \<Rightarrow> 'p db_result \<Rightarrow> ('s, 'p, 'x) engine_sink \<Rightarrow> 's \<Rightarrow> (string, unit) result \<times> 's"

type_synonym ('s, 'p, 'x) error_handler =
  "operation_meta \<Rightarrow> 'x db_error_envelope \<Rightarrow> ('s, 'p, 'x) engine_sink \<Rightarrow> 's \<Rightarrow> (string, unit) result \<times> 's"

record ('s, 'p, 'x) handlers =
  hd_result :: "('s, 'p, 'x) result_handler"
  hd_error :: "('s, 'p, 'x) error_handler"

definition handlers_new ::
  "('s, 'p, 'x) result_handler \<Rightarrow> ('s, 'p, 'x) error_handler \<Rightarrow> ('s, 'p, 'x) handlers" where
  "handlers_new r e = \<lparr>hd_result = r, hd_error = e\<rparr>"

definition forward_result_handler :: "('s, 'p, 'x) result_handler" where
  "forward_result_handler meta res engine s = sink_result engine meta res s"

definition forward_error_handler :: "('s, 'p, 'x) error_handler" where
  "forward_error_handler meta err engine s = sink_error engine meta err s"

definition noop_engine_sink :: "('s, 'p, 'x) engine_sink" where
  "noop_engine_sink = \<lparr>sink_result = \<lambda>meta res s. (Ok (), s), sink_error = \<lambda>meta err s. (Ok (), s)\<rparr>"

datatype ('p, 'x) engine_message =
    EngineResult operation_meta "'p db_result"
  | EngineError operation_meta "'x db_error_envelope"

text \<open>
  \<open>send\<close> is that of the \<open>tokio\<close> channel once it has room: whether the receiver was still there. The
  sink drops its result.
\<close>

definition channel_engine_sink ::
  "(('p, 'x) engine_message \<Rightarrow> 'ch \<Rightarrow> bool \<times> 'ch) \<Rightarrow> ('ch, 'p, 'x) engine_sink" where
  "channel_engine_sink send =
     \<lparr>sink_result = \<lambda>meta res ch. (Ok (), snd (send (EngineResult meta res) ch)),
      sink_error = \<lambda>meta err ch. (Ok (), snd (send (EngineError meta err) ch))\<rparr>"

section \<open>A run of handled outcomes\<close>

text \<open>What the protocol layer hands to the handlers: a message, by its kind.\<close>

fun handle_outcome ::
  "('s, 'p, 'x) handlers \<Rightarrow> ('s, 'p, 'x) engine_sink \<Rightarrow> ('p, 'x) engine_message \<Rightarrow> 's \<Rightarrow> (string, unit) result \<times> 's" where
  "handle_outcome h engine (EngineResult meta res) s = hd_result h meta res engine s"
| "handle_outcome h engine (EngineError meta err) s = hd_error h meta err engine s"

fun handle_all ::
  "('s, 'p, 'x) handlers \<Rightarrow> ('s, 'p, 'x) engine_sink \<Rightarrow> ('p, 'x) engine_message list \<Rightarrow> 's
   \<Rightarrow> (string, unit) result list \<times> 's" where
  "handle_all h engine [] s = ([], s)"
| "handle_all h engine (m # ms) s =
     (case handle_outcome h engine m s of
        (r, s1) \<Rightarrow> (case handle_all h engine ms s1 of (rs, s2) \<Rightarrow> (r # rs, s2)))"

definition forwarding :: "('s, 'p, 'x) handlers" where
  "forwarding = handlers_new forward_result_handler forward_error_handler"

lemma forward_step:
  "handle_outcome forwarding (channel_engine_sink send) m ch = (Ok (), snd (send m ch))"
  by (cases m)
    (simp_all add: forwarding_def handlers_new_def forward_result_handler_def forward_error_handler_def channel_engine_sink_def)

lemma forward_all:
  "send_law send contents gone \<Longrightarrow>
   \<exists>n ch'. handle_all forwarding (channel_engine_sink send) ms ch = (replicate (length ms) (Ok ()), ch') \<and>
     contents ch' = contents ch @ take n ms \<and> (n < length ms \<longrightarrow> gone ch') \<and> n \<le> length ms \<and> (gone ch \<longrightarrow> n = 0)"
proof (induction ms arbitrary: ch)
  case (Cons m ms)
  obtain b ch1 where send: "send m ch = (b, ch1)" by (meson surj_pair)
  note step = send_law_step[OF Cons.prems send]
  from Cons.IH[OF Cons.prems, of ch1] obtain n ch' where n:
      "handle_all forwarding (channel_engine_sink send) ms ch1 = (replicate (length ms) (Ok ()), ch')"
      "contents ch' = contents ch1 @ take n ms" "n < length ms \<longrightarrow> gone ch'" "n \<le> length ms" "gone ch1 \<longrightarrow> n = 0"
    by blast
  show ?case
  proof (cases b)
    case True
    then show ?thesis
      using step n send by (intro exI[of _ "Suc n"] exI[of _ ch']) (simp add: forward_step)
  next
    case False
    then have "contents ch' = contents ch \<and> gone ch'"
      using step n by (cases ms) auto
    then show ?thesis
      using n send by (intro exI[of _ 0] exI[of _ ch']) (simp add: forward_step)
  qed
qed simp

section \<open>The property\<close>

text \<open>
  C40. What the protocol layer hands to the default handlers reaches the engine in order, results and
  errors alike and unchanged, until the engine stops receiving; from then on everything is lost, and
  the handlers answer success all the same: no caller can tell.
\<close>

theorem forwarding_hides_losses:
  assumes "send_law send contents gone"
  shows "\<exists>n ch'. handle_all forwarding (channel_engine_sink send) ms ch = (replicate (length ms) (Ok ()), ch') \<and>
     contents ch' = contents ch @ take n ms \<and> n \<le> length ms \<and> (n < length ms \<longrightarrow> gone ch') \<and> (gone ch \<longrightarrow> n = 0)"
  using forward_all[OF assms, of ms ch] by blast

definition three_outcomes :: "(unit, unit) engine_message list" where
  "three_outcomes =
     [EngineResult (operation_meta_new ''a'') (NativeResult ()), EngineError (operation_meta_new ''b'') (db_error_new ''x'' KTimeout),
      EngineResult (operation_meta_new ''c'') (ScalarResult VNull)]"

lemma three_outcomes_run:
  "handle_all forwarding (channel_engine_sink leaving_send) three_outcomes ([], 1) =
     (replicate 3 (Ok ()), [hd three_outcomes], 0)"
  by (simp add: three_outcomes_def forward_step leaving_send_def numeral_3_eq_3 del: handle_outcome.simps)

theorem forwarding_hides_losses_witness:
  "handle_all forwarding (channel_engine_sink leaving_send) three_outcomes ([], 1) =
     (replicate 3 (Ok ()), [hd three_outcomes], 0) \<and>
   (\<exists>n \<le> length three_outcomes. [hd three_outcomes] = take n three_outcomes)"
proof -
  from forwarding_hides_losses[OF leaving_send_law, of three_outcomes "([], 1)"]
  have "\<exists>n \<le> length three_outcomes. [hd three_outcomes] = take n three_outcomes"
    unfolding three_outcomes_run by auto
  with three_outcomes_run show ?thesis ..
qed

end
