(* ===== verification/Service_Lifecycle.thy ===== *)
theory Service_Lifecycle
  imports Nonrt_Traits
begin

text \<open>
  The contract of \<open>NonRtService::start\<close> and \<open>stop\<close> (\<open>services/nonrtservices/src/traits.rs\<close>), as the
  services of the crate keep it: a running service refuses to start, an idle one to stop, and what
  the rest of the program does meanwhile does not change whether it runs. A start may fail or panic.
\<close>

datatype lifecycle_mark = Started | Stopped

fun alternating :: "bool \<Rightarrow> lifecycle_mark list \<Rightarrow> bool" where
  "alternating running [] \<longleftrightarrow> True"
| "alternating running (m # ms) \<longleftrightarrow> m = (if running then Stopped else Started) \<and> alternating (\<not> running) ms"

lemma alternating_nth: "alternating b ms \<Longrightarrow> i < length ms \<Longrightarrow> ms ! i = (if even i = b then Stopped else Started)"
proof (induction ms arbitrary: b i)
  case (Cons m ms)
  then show ?case by (cases i) auto
qed simp

locale service_lifecycle =
  fixes start :: "timestamp \<Rightarrow> 'w \<Rightarrow> ((service_error, unit) result \<times> 'w) exec"
    and stop :: "'w \<Rightarrow> (service_error, unit) result \<times> 'w"
    and running :: "'w \<Rightarrow> bool"
    and env :: "'w \<Rightarrow> 'w \<Rightarrow> bool"
  assumes start_running: "running w \<Longrightarrow> start now w = Return (Err AlreadyRunning, w)"
    and start_ok: "start now w = Return (Ok u, w') \<Longrightarrow> running w'"
    and start_failed: "start now w = Return (Err e, w') \<Longrightarrow> running w' = running w"
    and stop_running: "running w \<Longrightarrow> fst (stop w) = Ok () \<and> \<not> running (snd (stop w))"
    and stop_idle: "\<not> running w \<Longrightarrow> stop w = (Err NotRunning, w)"
    and env_running: "env w w' \<Longrightarrow> running w' = running w"
begin

text \<open>A history of calls, with what took effect.\<close>

inductive history :: "'w \<Rightarrow> lifecycle_mark list \<Rightarrow> 'w \<Rightarrow> bool" where
  none: "history w [] w"
| started: "start now w = Return (Ok u, w1) \<Longrightarrow> history w1 ms w2 \<Longrightarrow> history w (Started # ms) w2"
| refused: "start now w = Return (Err e, w1) \<Longrightarrow> history w1 ms w2 \<Longrightarrow> history w ms w2"
| stopped: "stop w = (Ok u, w1) \<Longrightarrow> history w1 ms w2 \<Longrightarrow> history w (Stopped # ms) w2"
| idle: "stop w = (Err e, w1) \<Longrightarrow> history w1 ms w2 \<Longrightarrow> history w ms w2"
| other: "env w w1 \<Longrightarrow> history w1 ms w2 \<Longrightarrow> history w ms w2"

lemma start_from_idle: "start now w = Return (Ok u, w') \<Longrightarrow> \<not> running w"
  using start_running by fastforce

lemma stop_Ok: "stop w = (Ok u, w') \<Longrightarrow> running w \<and> \<not> running w'"
  using stop_running[of w] stop_idle[of w] by auto

lemma stop_Err: "stop w = (Err e, w') \<Longrightarrow> \<not> running w \<and> w' = w"
  using stop_running[of w] stop_idle[of w] by (cases "running w") auto

lemma effects_alternate:
  "history w ms w' \<Longrightarrow> alternating (running w) ms \<and> running w' = (running w = even (length ms))"
proof (induction rule: history.induct)
  case (started now w u w1 ms w2)
  then show ?case using start_from_idle[OF started(1)] start_ok[OF started(1)] by auto
next
  case (refused now w e w1 ms w2)
  then show ?case using start_failed[OF refused(1)] by simp
next
  case (stopped w u w1 ms w2)
  then show ?case using stop_Ok[OF stopped(1)] by auto
next
  case (idle w e w1 ms w2)
  then show ?case using stop_Err[OF idle(1)] by simp
next
  case (other w w1 ms w2)
  then show ?case using env_running[OF other(1)] by simp
qed simp

end

end
