(* ===== verification/Channels.thy ===== *)
theory Channels
  imports Prelude
begin

text \<open>
  The bounded channels of \<open>tokio\<close> (\<open>mpsc\<close>) as the components use them: a state \<open>'ch\<close> with the record of
  its methods, the laws its documentation promises, and a list that keeps them.
\<close>

section \<open>The methods of a channel\<close>

datatype 'm recv_outcome = Received 'm | AllSendersDropped | NothingYet

record ('m, 'ch) mpsc =
  mp_new :: "nat \<Rightarrow> 'ch"
  mp_try_send :: "'m \<Rightarrow> 'ch \<Rightarrow> 'm try_send_outcome \<times> 'ch"
  mp_recv :: "'ch \<Rightarrow> 'm recv_outcome \<times> 'ch"
  mp_clone_sender :: "'ch \<Rightarrow> 'ch"
  mp_drop_sender :: "'ch \<Rightarrow> 'ch"
  mp_drop_receiver :: "'ch \<Rightarrow> 'ch"
  mp_display :: "'m try_send_outcome \<Rightarrow> string"

text \<open>
  First in, first out; a closed channel takes nothing; nothing but a receive or the drop of the
  receiver takes a message out.
\<close>

definition mpsc_laws :: "('m, 'ch) mpsc \<Rightarrow> ('ch \<Rightarrow> 'm list) \<Rightarrow> ('ch \<Rightarrow> bool) \<Rightarrow> bool" where
  "mpsc_laws mp contents closed \<longleftrightarrow>
     (\<forall>cap. contents (mp_new mp cap) = [] \<and> \<not> closed (mp_new mp cap)) \<and>
     (\<forall>m ch. case mp_try_send mp m ch of
        (Sent, ch') \<Rightarrow> \<not> closed ch \<and> contents ch' = contents ch @ [m] \<and> \<not> closed ch'
      | (_, ch') \<Rightarrow> contents ch' = contents ch \<and> closed ch' = closed ch) \<and>
     (\<forall>ch. case mp_recv mp ch of
        (Received m, ch') \<Rightarrow> contents ch = m # contents ch' \<and> closed ch' = closed ch
      | (_, ch') \<Rightarrow> contents ch = [] \<and> contents ch' = [] \<and> closed ch' = closed ch) \<and>
     (\<forall>ch. contents (mp_clone_sender mp ch) = contents ch \<and> closed (mp_clone_sender mp ch) = closed ch \<and>
        contents (mp_drop_sender mp ch) = contents ch \<and> closed (mp_drop_sender mp ch) = closed ch \<and>
        closed (mp_drop_receiver mp ch))"

section \<open>The channel laws, one by one\<close>

lemma law_new: "mpsc_laws mp contents closed \<Longrightarrow> contents (mp_new mp cap) = [] \<and> \<not> closed (mp_new mp cap)"
  by (simp add: mpsc_laws_def)

lemma law_send:
  assumes "mpsc_laws mp contents closed" and "mp_try_send mp m ch = (outcome, ch')"
  shows "contents ch' = contents ch @ (if outcome = Sent then [m] else []) \<and> closed ch' = closed ch \<and>
    (outcome = Sent \<longrightarrow> \<not> closed ch)"
proof -
  have "case mp_try_send mp m ch of
      (Sent, ch') \<Rightarrow> \<not> closed ch \<and> contents ch' = contents ch @ [m] \<and> \<not> closed ch'
    | (_, ch') \<Rightarrow> contents ch' = contents ch \<and> closed ch' = closed ch"
    using assms(1) by (simp add: mpsc_laws_def)
  then show ?thesis using assms(2) by (cases outcome) simp_all
qed

lemma law_recv:
  assumes "mpsc_laws mp contents closed" and "mp_recv mp ch = (outcome, ch')"
  shows "contents ch = (case outcome of Received m \<Rightarrow> [m] | _ \<Rightarrow> []) @ contents ch' \<and> closed ch' = closed ch \<and>
    ((\<nexists>m. outcome = Received m) \<longrightarrow> contents ch' = [])"
proof -
  have "case mp_recv mp ch of
      (Received m, ch') \<Rightarrow> contents ch = m # contents ch' \<and> closed ch' = closed ch
    | (_, ch') \<Rightarrow> contents ch = [] \<and> contents ch' = [] \<and> closed ch' = closed ch"
    using assms(1) by (simp add: mpsc_laws_def)
  then show ?thesis using assms(2) by (cases outcome) simp_all
qed

lemma law_senders:
  "mpsc_laws mp contents closed \<Longrightarrow>
   contents (mp_clone_sender mp ch) = contents ch \<and> closed (mp_clone_sender mp ch) = closed ch \<and>
   contents (mp_drop_sender mp ch) = contents ch \<and> closed (mp_drop_sender mp ch) = closed ch \<and>
   closed (mp_drop_receiver mp ch)"
  by (simp add: mpsc_laws_def)

section \<open>A channel as a list\<close>

text \<open>The queue, its capacity, whether the receiver is gone, and how many senders there are.\<close>

definition list_mpsc :: "('m, 'm list \<times> nat \<times> bool \<times> nat) mpsc" where
  "list_mpsc =
     \<lparr>mp_new = (\<lambda>cap. ([], cap, False, 1)),
      mp_try_send = (\<lambda>m (q, cap, gone, n).
        if gone then (SendClosed m, (q, cap, gone, n))
        else if length q < cap then (Sent, (q @ [m], cap, gone, n)) else (SendFull m, (q, cap, gone, n))),
      mp_recv = (\<lambda>(q, cap, gone, n).
        case q of m # q' \<Rightarrow> (Received m, (q', cap, gone, n))
        | [] \<Rightarrow> (if n = 0 then AllSendersDropped else NothingYet, (q, cap, gone, n))),
      mp_clone_sender = (\<lambda>(q, cap, gone, n). (q, cap, gone, n + 1)),
      mp_drop_sender = (\<lambda>(q, cap, gone, n). (q, cap, gone, n - 1)),
      mp_drop_receiver = (\<lambda>(q, cap, gone, n). ([], cap, True, n)),
      mp_display = (\<lambda>outcome. case outcome of SendFull _ \<Rightarrow> ''no available capacity'' | _ \<Rightarrow> ''channel closed'')\<rparr>"

lemma list_mpsc_lawful: "mpsc_laws list_mpsc fst (\<lambda>(q, cap, gone, n). gone)"
  unfolding mpsc_laws_def list_mpsc_def by (auto split: list.splits)

end
