(* ===== verification/Db_Writer.thy ===== *)
theory Db_Writer
  imports Service_Lifecycle Channels
begin

text \<open>
  \<open>services/nonrtservices/src/services/db_writer.rs\<close>: the service that takes write operations into a
  channel, and the task it spawns at each start, which works them off in batches. JSON values are \<open>'j\<close>.

  The \<open>tokio\<close> channel is the state \<open>'ch\<close> with the record of its methods (\<open>Channels\<close>). The channels and tasks of all starts are kept in one list, since an old task
  may still run when the service starts again; the handles the service holds are indices into it.
\<close>

section \<open>Operations and state\<close>

datatype 'j write_op =
    WriteInsert string 'j
  | WriteUpdate string string 'j
  | WriteDelete string string
  | WriteCustom string

record db_writer =
  dw_name :: string
  dw_status :: service_status
  dw_write_tx :: "nat option"
  dw_batch_size :: nat
  dw_channel_capacity :: nat
  dw_shutdown_tx :: "nat option"

definition db_writer_new :: "string \<Rightarrow> db_writer" where
  "db_writer_new name =
     \<lparr>dw_name = name, dw_status = service_status_new name, dw_write_tx = None, dw_batch_size = 100,
      dw_channel_capacity = 10000, dw_shutdown_tx = None\<rparr>"

definition with_batch_size :: "nat \<Rightarrow> db_writer \<Rightarrow> db_writer" where
  "with_batch_size n s = s\<lparr>dw_batch_size := n\<rparr>"

definition with_channel_capacity :: "nat \<Rightarrow> db_writer \<Rightarrow> db_writer" where
  "with_channel_capacity n s = s\<lparr>dw_channel_capacity := n\<rparr>"

text \<open>
  The task of one start: its end of the channel, whether the shutdown signal is there, the batch, and
  the batches it handed to \<open>process_batch\<close>. It ends by the signal or because the channel is closed.
\<close>

datatype task_end = ByShutdown | ByClose

record ('j, 'ch) writer_task =
  wt_chan :: 'ch
  wt_shutdown :: bool
  wt_batch_size :: nat
  wt_batch :: "'j write_op list"
  wt_processed :: "'j write_op list list"
  wt_ended :: "task_end option"

record ('j, 'ch) writer_world =
  ww_service :: db_writer
  ww_tasks :: "('j, 'ch) writer_task list"

section \<open>The service\<close>

definition set_chan :: "nat \<Rightarrow> 'ch \<Rightarrow> ('j, 'ch) writer_world \<Rightarrow> ('j, 'ch) writer_world" where
  "set_chan i ch w = w\<lparr>ww_tasks := (ww_tasks w)[i := (ww_tasks w ! i)\<lparr>wt_chan := ch\<rparr>]\<rparr>"

definition signal :: "nat \<Rightarrow> ('j, 'ch) writer_world \<Rightarrow> ('j, 'ch) writer_world" where
  "signal i w = w\<lparr>ww_tasks := (ww_tasks w)[i := (ww_tasks w ! i)\<lparr>wt_shutdown := True\<rparr>]\<rparr>"

definition send_failed :: "('j write_op, 'ch) mpsc \<Rightarrow> 'j write_op try_send_outcome \<Rightarrow> service_error" where
  "send_failed mp outcome = Internal (''Channel send failed: '' @ mp_display mp outcome)"

definition writer_try_submit ::
  "('j write_op, 'ch) mpsc \<Rightarrow> 'j write_op \<Rightarrow> ('j, 'ch) writer_world
   \<Rightarrow> (service_error, unit) result \<times> ('j, 'ch) writer_world" where
  "writer_try_submit mp op w =
     (case dw_write_tx (ww_service w) of
        Some i \<Rightarrow>
          (case mp_try_send mp op (wt_chan (ww_tasks w ! i)) of
             (Sent, ch) \<Rightarrow> (Ok (), set_chan i ch w)
           | (outcome, ch) \<Rightarrow> (Err (send_failed mp outcome), set_chan i ch w))
      | None \<Rightarrow> (Err NotRunning, w))"

text \<open>\<open>submit\<close> waits while the channel is full: then there is no step.\<close>

definition writer_submit ::
  "('j write_op, 'ch) mpsc \<Rightarrow> 'j write_op \<Rightarrow> ('j, 'ch) writer_world
   \<Rightarrow> ((service_error, unit) result \<times> ('j, 'ch) writer_world) option" where
  "writer_submit mp op w =
     (case dw_write_tx (ww_service w) of
        Some i \<Rightarrow>
          (case mp_try_send mp op (wt_chan (ww_tasks w ! i)) of
             (Sent, ch) \<Rightarrow> Some (Ok (), set_chan i ch w)
           | (SendFull m, ch) \<Rightarrow> None
           | (SendClosed m, ch) \<Rightarrow> Some (Err (send_failed mp (SendClosed m)), set_chan i ch w))
      | None \<Rightarrow> Some (Err NotRunning, w))"

text \<open>A clone of the sender, for use outside the service: the index of its channel.\<close>

definition writer_sender ::
  "('j write_op, 'ch) mpsc \<Rightarrow> ('j, 'ch) writer_world \<Rightarrow> nat option \<times> ('j, 'ch) writer_world" where
  "writer_sender mp w =
     (case dw_write_tx (ww_service w) of
        Some i \<Rightarrow> (Some i, set_chan i (mp_clone_sender mp (wt_chan (ww_tasks w ! i))) w)
      | None \<Rightarrow> (None, w))"

text \<open>\<open>mpsc::channel\<close> panics on a capacity of zero and on one above the permits of a semaphore.\<close>

definition writer_start ::
  "('j write_op, 'ch) mpsc \<Rightarrow> timestamp \<Rightarrow> ('j, 'ch) writer_world
   \<Rightarrow> ((service_error, unit) result \<times> ('j, 'ch) writer_world) exec" where
  "writer_start mp now w =
     (let s = ww_service w in
      if ss_running (dw_status s) then Return (Err AlreadyRunning, w)
      else if \<not> channel_size (dw_channel_capacity s) then Panic
      else
        (let i = length (ww_tasks w);
             task = \<lparr>wt_chan = mp_new mp (dw_channel_capacity s), wt_shutdown = False,
                     wt_batch_size = dw_batch_size s, wt_batch = [], wt_processed = [], wt_ended = None\<rparr>
         in Return (Ok (),
              \<lparr>ww_service = s\<lparr>dw_write_tx := Some i, dw_shutdown_tx := Some i,
                 dw_status := (dw_status s)\<lparr>ss_running := True, ss_started_at := Some now\<rparr>\<rparr>,
               ww_tasks = ww_tasks w @ [task]\<rparr>)))"

definition writer_stop ::
  "('j write_op, 'ch) mpsc \<Rightarrow> ('j, 'ch) writer_world \<Rightarrow> (service_error, unit) result \<times> ('j, 'ch) writer_world" where
  "writer_stop mp w =
     (let s = ww_service w in
      if \<not> ss_running (dw_status s) then (Err NotRunning, w)
      else
        (let w1 = (case dw_shutdown_tx s of Some i \<Rightarrow> signal i w | None \<Rightarrow> w);
             w2 = (case dw_write_tx s of
                     Some i \<Rightarrow> set_chan i (mp_drop_sender mp (wt_chan (ww_tasks w1 ! i))) w1 | None \<Rightarrow> w1)
         in (Ok (), w2\<lparr>ww_service := s\<lparr>dw_shutdown_tx := None, dw_write_tx := None,
                dw_status := (dw_status s)\<lparr>ss_running := False\<rparr>\<rparr>\<rparr>)))"

definition writer_health_check :: "db_writer \<Rightarrow> bool" where
  "writer_health_check s \<longleftrightarrow> ss_running (dw_status s) \<and> dw_write_tx s \<noteq> None"

section \<open>The task\<close>

text \<open>What \<open>process_batch\<close> does with a batch: one trace line each; \<open>dbg\<close> prints a JSON value.\<close>

fun op_line :: "('j \<Rightarrow> string) \<Rightarrow> string \<Rightarrow> 'j write_op \<Rightarrow> string" where
  "op_line dbg name (WriteInsert table data) = name @ '': INSERT into '' @ table @ '' - '' @ dbg data"
| "op_line dbg name (WriteUpdate table i data) =
     name @ '': UPDATE '' @ table @ '' WHERE id='' @ i @ '' - '' @ dbg data"
| "op_line dbg name (WriteDelete table i) = name @ '': DELETE FROM '' @ table @ '' WHERE id='' @ i"
| "op_line dbg name (WriteCustom sql) = name @ '': CUSTOM SQL: '' @ sql"

definition process_batch :: "('j \<Rightarrow> string) \<Rightarrow> string \<Rightarrow> 'j write_op list \<Rightarrow> string list" where
  "process_batch dbg name batch = map (op_line dbg name) batch"

definition hand_over :: "('j, 'ch) writer_task \<Rightarrow> ('j, 'ch) writer_task" where
  "hand_over t = t\<lparr>wt_processed := wt_processed t @ [wt_batch t]\<rparr>"

definition finish_task ::
  "('j write_op, 'ch) mpsc \<Rightarrow> task_end \<Rightarrow> ('j, 'ch) writer_task \<Rightarrow> ('j, 'ch) writer_task" where
  "finish_task mp e t =
     (let t1 = (if wt_batch t = [] then t else hand_over t)
      in t1\<lparr>wt_ended := Some e, wt_chan := mp_drop_receiver mp (wt_chan t1)\<rparr>)"

text \<open>
  One turn of the loop. \<open>select!\<close> takes either branch that is ready: the shutdown signal or a receive.
\<close>

datatype branch = ShutdownBranch | RecvBranch

definition writer_turn ::
  "('j write_op, 'ch) mpsc \<Rightarrow> branch \<Rightarrow> ('j, 'ch) writer_task \<Rightarrow> ('j, 'ch) writer_task option" where
  "writer_turn mp b t =
     (if wt_ended t \<noteq> None then None
      else
        (case b of
           ShutdownBranch \<Rightarrow> if wt_shutdown t then Some (finish_task mp ByShutdown t) else None
         | RecvBranch \<Rightarrow>
             (case mp_recv mp (wt_chan t) of
                (Received op, ch) \<Rightarrow>
                  (let t1 = t\<lparr>wt_chan := ch, wt_batch := wt_batch t @ [op]\<rparr>
                   in Some (if wt_batch_size t \<le> length (wt_batch t1) then (hand_over t1)\<lparr>wt_batch := []\<rparr> else t1))
              | (AllSendersDropped, ch) \<Rightarrow> Some (finish_task mp ByClose (t\<lparr>wt_chan := ch\<rparr>))
              | (NothingYet, ch) \<Rightarrow> None)))"

section \<open>Interleaved runs\<close>

text \<open>
  The events of the service, its users and its tasks. \<open>SendClone\<close> and \<open>DropClone\<close> act through clones of
  the sender; \<open>Turn\<close> is a turn of the task of the start \<open>i\<close>.
\<close>

datatype 'j writer_event =
    Start timestamp
  | Stop
  | TrySubmit "'j write_op"
  | Submit "'j write_op"
  | Sender
  | SendClone nat "'j write_op"
  | DropClone nat
  | Turn nat branch

definition clone_send ::
  "('j write_op, 'ch) mpsc \<Rightarrow> nat \<Rightarrow> 'j write_op \<Rightarrow> ('j, 'ch) writer_world \<Rightarrow> ('j, 'ch) writer_world" where
  "clone_send mp i op w = set_chan i (snd (mp_try_send mp op (wt_chan (ww_tasks w ! i)))) w"

fun writer_step ::
  "('j write_op, 'ch) mpsc \<Rightarrow> 'j writer_event \<Rightarrow> ('j, 'ch) writer_world \<Rightarrow> ('j, 'ch) writer_world option" where
  "writer_step mp (Start now) w = (case writer_start mp now w of Panic \<Rightarrow> None | Return (r, w') \<Rightarrow> Some w')"
| "writer_step mp Stop w = Some (snd (writer_stop mp w))"
| "writer_step mp (TrySubmit op) w = Some (snd (writer_try_submit mp op w))"
| "writer_step mp (Submit op) w = map_option snd (writer_submit mp op w)"
| "writer_step mp Sender w = Some (snd (writer_sender mp w))"
| "writer_step mp (SendClone i op) w = (if i < length (ww_tasks w) then Some (clone_send mp i op w) else None)"
| "writer_step mp (DropClone i) w =
     (if i < length (ww_tasks w)
      then Some (set_chan i (mp_drop_sender mp (wt_chan (ww_tasks w ! i))) w) else None)"
| "writer_step mp (Turn i b) w =
     (if i < length (ww_tasks w)
      then map_option (\<lambda>t. w\<lparr>ww_tasks := (ww_tasks w)[i := t]\<rparr>) (writer_turn mp b (ww_tasks w ! i)) else None)"

fun writer_run ::
  "('j write_op, 'ch) mpsc \<Rightarrow> 'j writer_event list \<Rightarrow> ('j, 'ch) writer_world \<Rightarrow> ('j, 'ch) writer_world option" where
  "writer_run mp [] w = Some w"
| "writer_run mp (e # es) w = (case writer_step mp e w of None \<Rightarrow> None | Some w' \<Rightarrow> writer_run mp es w')"

definition writer_world_new :: "db_writer \<Rightarrow> ('j, 'ch) writer_world" where
  "writer_world_new s = \<lparr>ww_service = s, ww_tasks = []\<rparr>"

section \<open>The lifecycle contract\<close>

definition writer_running :: "('j, 'ch) writer_world \<Rightarrow> bool" where
  "writer_running w \<longleftrightarrow> ss_running (dw_status (ww_service w))"

text \<open>What happens besides the calls of \<open>start\<close> and \<open>stop\<close>.\<close>

definition writer_env :: "('j write_op, 'ch) mpsc \<Rightarrow> ('j, 'ch) writer_world \<Rightarrow> ('j, 'ch) writer_world \<Rightarrow> bool" where
  "writer_env mp w w' \<longleftrightarrow> (\<exists>e. (\<forall>now. e \<noteq> Start now) \<and> e \<noteq> Stop \<and> writer_step mp e w = Some w')"

lemma service_unchanged [simp]:
  "ww_service (set_chan i ch w) = ww_service w" "ww_service (signal i w) = ww_service w"
  by (simp_all add: set_chan_def signal_def)

lemma submit_service [simp]:
  "ww_service (snd (writer_try_submit mp op w)) = ww_service w"
  "writer_submit mp op w = Some (r, w') \<Longrightarrow> ww_service w' = ww_service w"
  "ww_service (snd (writer_sender mp w)) = ww_service w"
  by (auto simp: writer_try_submit_def writer_submit_def writer_sender_def
      split: option.splits prod.splits try_send_outcome.splits)

lemma env_keeps_running: "writer_env mp w w' \<Longrightarrow> writer_running w' = writer_running w"
  unfolding writer_env_def
proof (elim exE conjE)
  fix e
  assume "\<forall>now. e \<noteq> Start now" "e \<noteq> Stop" "writer_step mp e w = Some w'"
  then show ?thesis
    by (cases e) (auto simp: writer_running_def clone_send_def split: if_splits option.splits)
qed

interpretation writer_life: service_lifecycle "writer_start mp" "writer_stop mp" writer_running "writer_env mp"
  for mp :: "('j write_op, 'ch) mpsc"
  by unfold_locales
    (auto simp: writer_running_def writer_start_def writer_stop_def Let_def env_keeps_running[unfolded writer_running_def]
      split: if_splits option.splits)

end
