(* ===== verification/Db_Writer_Properties.thy ===== *)
theory Db_Writer_Properties
  imports Db_Writer
begin

text \<open>
  What becomes of the write operations the service accepts, over every interleaving of the service,
  its users and the tasks of all its starts.
\<close>

section \<open>One task\<close>

definition full :: "('j, 'ch) writer_task \<Rightarrow> 'j write_op list \<Rightarrow> bool" where
  "full t b \<longleftrightarrow> length b = max 1 (wt_batch_size t)"

definition task_inv ::
  "('ch \<Rightarrow> 'j write_op list) \<Rightarrow> ('ch \<Rightarrow> bool) \<Rightarrow> 'j write_op list \<Rightarrow> ('j, 'ch) writer_task \<Rightarrow> bool" where
  "task_inv contents closed acc t \<longleftrightarrow>
     (case wt_ended t of
        None \<Rightarrow>
          concat (wt_processed t) @ wt_batch t @ contents (wt_chan t) = acc \<and>
          length (wt_batch t) < max 1 (wt_batch_size t) \<and> list_all (full t) (wt_processed t)
      | Some e \<Rightarrow>
          closed (wt_chan t) \<and>
          (\<exists>rest. concat (wt_processed t) @ rest = acc \<and> (e = ByClose \<longrightarrow> rest = [])) \<and>
          (\<exists>bs b. wt_processed t = bs @ b \<and> list_all (full t) bs \<and>
             (b = [] \<or> (\<exists>x. b = [x] \<and> x \<noteq> [] \<and> length x < max 1 (wt_batch_size t)))))"

lemma task_inv_new:
  "mpsc_laws mp contents closed \<Longrightarrow>
   task_inv contents closed [] \<lparr>wt_chan = mp_new mp cap, wt_shutdown = False, wt_batch_size = n, wt_batch = [],
     wt_processed = [], wt_ended = None\<rparr>"
  by (simp add: task_inv_def law_new)

lemma full_chan [simp]: "full (t\<lparr>wt_chan := ch\<rparr>) = full t" "full (t\<lparr>wt_shutdown := b\<rparr>) = full t"
  by (simp_all add: full_def fun_eq_iff)

lemma task_inv_send:
  assumes "mpsc_laws mp contents closed" "task_inv contents closed acc t" "mp_try_send mp m (wt_chan t) = (outcome, ch)"
  shows "task_inv contents closed (acc @ (if outcome = Sent then [m] else [])) (t\<lparr>wt_chan := ch\<rparr>)"
  using assms(2) law_send[OF assms(1,3)]
  by (cases "wt_ended t") (auto simp: task_inv_def)

lemma task_inv_chan:
  assumes "task_inv contents closed acc t" "contents ch = contents (wt_chan t)" "closed ch = closed (wt_chan t)"
  shows "task_inv contents closed acc (t\<lparr>wt_chan := ch\<rparr>)"
  using assms by (simp add: task_inv_def split: option.splits)

lemma task_inv_signal: "task_inv contents closed acc t \<Longrightarrow> task_inv contents closed acc (t\<lparr>wt_shutdown := b\<rparr>)"
  by (simp add: task_inv_def split: option.splits)

text \<open>The end of a task: the batch in progress is handed over, and what is still queued is dropped.\<close>

lemma task_inv_finish:
  assumes "mpsc_laws mp contents closed" "task_inv contents closed acc t" "wt_ended t = None"
    and "e = ByClose \<Longrightarrow> contents (wt_chan t) = []"
  shows "task_inv contents closed acc (finish_task mp e t)"
proof -
  let ?t = "finish_task mp e t"
  have proc: "wt_processed ?t = wt_processed t @ (if wt_batch t = [] then [] else [wt_batch t])"
    "wt_ended ?t = Some e" "wt_batch_size ?t = wt_batch_size t" "closed (wt_chan ?t)"
    using law_senders[OF assms(1)] by (simp_all add: finish_task_def hand_over_def Let_def)
  have full: "full ?t = full t" by (simp add: full_def fun_eq_iff proc)
  have "concat (wt_processed ?t) @ contents (wt_chan t) = acc \<and> length (wt_batch t) < max 1 (wt_batch_size t) \<and>
      list_all (full t) (wt_processed t)"
    using assms(2,3) by (auto simp: task_inv_def proc)
  note base = this
  have "\<exists>rest. concat (wt_processed ?t) @ rest = acc \<and> (e = ByClose \<longrightarrow> rest = [])"
    using base assms(4) by (intro exI[of _ "contents (wt_chan t)"]) simp
  moreover have "\<exists>bs b. wt_processed ?t = bs @ b \<and> list_all (full t) bs \<and>
      (b = [] \<or> (\<exists>x. b = [x] \<and> x \<noteq> [] \<and> length x < max 1 (wt_batch_size t)))"
    using base proc(1)
    by (intro exI[of _ "wt_processed t"] exI[of _ "if wt_batch t = [] then [] else [wt_batch t]"]) simp
  ultimately show ?thesis unfolding task_inv_def proc(2,3) option.case full using proc(4) by blast
qed

lemma task_inv_turn:
  assumes "mpsc_laws mp contents closed" "task_inv contents closed acc t" "writer_turn mp b t = Some t'"
  shows "task_inv contents closed acc t'"
proof -
  have running: "wt_ended t = None" using assms(3) by (auto simp: writer_turn_def split: if_splits)
  note inv = assms(2)[unfolded task_inv_def running, simplified]
  show ?thesis
  proof (cases b)
    case ShutdownBranch
    then have "t' = finish_task mp ByShutdown t" using assms(3) running by (auto simp: writer_turn_def split: if_splits)
    then show ?thesis using task_inv_finish[OF assms(1,2) running, of ByShutdown] by simp
  next
    case RecvBranch
    obtain outcome ch where r: "mp_recv mp (wt_chan t) = (outcome, ch)" by (meson surj_pair)
    note law = law_recv[OF assms(1) r]
    show ?thesis
    proof (cases outcome)
      case (Received op)
      then show ?thesis
        using assms(3) RecvBranch running r law inv
        by (auto simp: writer_turn_def task_inv_def hand_over_def full_def[abs_def] Let_def split: if_splits)
    next
      case AllSendersDropped
      then have t': "t' = finish_task mp ByClose (t\<lparr>wt_chan := ch\<rparr>)"
        using assms(3) RecvBranch running r by (simp add: writer_turn_def)
      have "task_inv contents closed acc (t\<lparr>wt_chan := ch\<rparr>)"
        using AllSendersDropped law by (intro task_inv_chan[OF assms(2)]) simp_all
      then show ?thesis
        unfolding t' using AllSendersDropped law running by (intro task_inv_finish[OF assms(1)]) simp_all
    next
      case NothingYet
      then show ?thesis using assms(3) RecvBranch running r by (simp add: writer_turn_def)
    qed
  qed
qed

section \<open>All tasks\<close>

text \<open>The operations the channel of the start \<open>i\<close> took, in a step and over a run.\<close>

fun accepted_by ::
  "('j write_op, 'ch) mpsc \<Rightarrow> 'j writer_event \<Rightarrow> ('j, 'ch) writer_world \<Rightarrow> nat \<Rightarrow> 'j write_op list" where
  "accepted_by mp (TrySubmit op) w i =
     (if dw_write_tx (ww_service w) = Some i \<and> fst (mp_try_send mp op (wt_chan (ww_tasks w ! i))) = Sent then [op] else [])"
| "accepted_by mp (Submit op) w i =
     (if dw_write_tx (ww_service w) = Some i \<and> fst (mp_try_send mp op (wt_chan (ww_tasks w ! i))) = Sent then [op] else [])"
| "accepted_by mp (SendClone j op) w i =
     (if j = i \<and> fst (mp_try_send mp op (wt_chan (ww_tasks w ! i))) = Sent then [op] else [])"
| "accepted_by mp _ w i = []"

fun accepted_run ::
  "('j write_op, 'ch) mpsc \<Rightarrow> 'j writer_event list \<Rightarrow> ('j, 'ch) writer_world \<Rightarrow> nat \<Rightarrow> 'j write_op list" where
  "accepted_run mp [] w i = []"
| "accepted_run mp (e # es) w i =
     accepted_by mp e w i @ (case writer_step mp e w of None \<Rightarrow> [] | Some w' \<Rightarrow> accepted_run mp es w' i)"

definition world_inv ::
  "('ch \<Rightarrow> 'j write_op list) \<Rightarrow> ('ch \<Rightarrow> bool) \<Rightarrow> (nat \<Rightarrow> 'j write_op list) \<Rightarrow> ('j, 'ch) writer_world \<Rightarrow> bool" where
  "world_inv contents closed acc w \<longleftrightarrow>
     (\<forall>i < length (ww_tasks w). task_inv contents closed (acc i) (ww_tasks w ! i)) \<and>
     (\<forall>i \<ge> length (ww_tasks w). acc i = []) \<and>
     (\<forall>i. dw_write_tx (ww_service w) = Some i \<or> dw_shutdown_tx (ww_service w) = Some i \<longrightarrow> i < length (ww_tasks w))"

lemma world_inv_task:
  assumes "world_inv contents closed acc w" "i < length (ww_tasks w)" "task_inv contents closed acc' t"
  shows "world_inv contents closed (acc(i := acc')) (w\<lparr>ww_tasks := (ww_tasks w)[i := t]\<rparr>)"
  using assms by (auto simp: world_inv_def nth_list_update)

lemma world_inv_service:
  assumes "world_inv contents closed acc w" "dw_write_tx s = None" "dw_shutdown_tx s = None"
  shows "world_inv contents closed acc (w\<lparr>ww_service := s\<rparr>)"
  using assms by (simp add: world_inv_def)

lemma world_inv_send:
  assumes "mpsc_laws mp contents closed" "world_inv contents closed acc w" "i < length (ww_tasks w)"
    and "mp_try_send mp op (wt_chan (ww_tasks w ! i)) = (outcome, ch)"
  shows "world_inv contents closed (\<lambda>j. acc j @ (if j = i \<and> outcome = Sent then [op] else [])) (set_chan i ch w)"
proof -
  have "task_inv contents closed (acc i) (ww_tasks w ! i)" using assms(2,3) by (simp add: world_inv_def)
  from world_inv_task[OF assms(2,3) task_inv_send[OF assms(1) this assms(4)]]
  have "world_inv contents closed (acc(i := acc i @ (if outcome = Sent then [op] else []))) (set_chan i ch w)"
    by (simp add: set_chan_def)
  moreover have "acc(i := acc i @ (if outcome = Sent then [op] else [])) =
      (\<lambda>j. acc j @ (if j = i \<and> outcome = Sent then [op] else []))"
    by (simp add: fun_eq_iff)
  ultimately show ?thesis by simp
qed

lemma world_inv_chan:
  assumes "world_inv contents closed acc w" "i < length (ww_tasks w)"
    and "contents ch = contents (wt_chan (ww_tasks w ! i))" "closed ch = closed (wt_chan (ww_tasks w ! i))"
  shows "world_inv contents closed acc (set_chan i ch w)"
proof -
  have "task_inv contents closed (acc i) (ww_tasks w ! i)" using assms(1,2) by (simp add: world_inv_def)
  from world_inv_task[OF assms(1,2) task_inv_chan[OF this assms(3,4)]] show ?thesis by (simp add: set_chan_def)
qed

lemma world_inv_signal:
  "world_inv contents closed acc w \<Longrightarrow> i < length (ww_tasks w) \<Longrightarrow> world_inv contents closed acc (signal i w)"
  using world_inv_task[of contents closed acc w i "acc i" "(ww_tasks w ! i)\<lparr>wt_shutdown := True\<rparr>"]
  by (simp add: signal_def task_inv_signal world_inv_def)

lemma tasks_length [simp]: "length (ww_tasks (set_chan i ch w)) = length (ww_tasks w)"
  "length (ww_tasks (signal i w)) = length (ww_tasks w)"
  by (simp_all add: set_chan_def signal_def)

lemma world_inv_submit:
  assumes "mpsc_laws mp contents closed" "world_inv contents closed acc w"
  shows "world_inv contents closed (\<lambda>i. acc i @ accepted_by mp (TrySubmit op) w i) (snd (writer_try_submit mp op w))"
proof (cases "dw_write_tx (ww_service w)")
  case None
  then show ?thesis using assms(2) by (simp add: writer_try_submit_def)
next
  case (Some i)
  obtain outcome ch where r: "mp_try_send mp op (wt_chan (ww_tasks w ! i)) = (outcome, ch)" by (meson surj_pair)
  have "i < length (ww_tasks w)" using assms(2) Some by (simp add: world_inv_def)
  note sent = world_inv_send[OF assms this r]
  have acc: "accepted_by mp (TrySubmit op) w = (\<lambda>j. if j = i \<and> outcome = Sent then [op] else [])"
    using r Some by (auto simp: fun_eq_iff)
  have "snd (writer_try_submit mp op w) = set_chan i ch w"
    using r Some by (cases outcome) (simp_all add: writer_try_submit_def)
  with sent show ?thesis unfolding acc by simp
qed

lemma writer_submit_step:
  assumes "writer_submit mp op w = Some (r, w')"
  shows "snd (writer_try_submit mp op w) = w'"
proof (cases "dw_write_tx (ww_service w)")
  case None
  then show ?thesis using assms by (simp add: writer_submit_def writer_try_submit_def)
next
  case (Some i)
  obtain outcome ch where "mp_try_send mp op (wt_chan (ww_tasks w ! i)) = (outcome, ch)" by (meson surj_pair)
  then show ?thesis
    using assms Some by (cases outcome) (simp_all add: writer_submit_def writer_try_submit_def)
qed

lemma world_inv_start:
  assumes "mpsc_laws mp contents closed" "world_inv contents closed acc w" "writer_start mp now w = Return (r, w')"
  shows "world_inv contents closed acc w'"
proof (cases "ss_running (dw_status (ww_service w))")
  case True
  then show ?thesis using assms by (simp add: writer_start_def)
next
  case False
  then obtain n where w': "ww_tasks w' = ww_tasks w @ [\<lparr>wt_chan = mp_new mp (dw_channel_capacity (ww_service w)),
        wt_shutdown = False, wt_batch_size = n, wt_batch = [], wt_processed = [], wt_ended = None\<rparr>]"
      "dw_write_tx (ww_service w') = Some (length (ww_tasks w))" "dw_shutdown_tx (ww_service w') = Some (length (ww_tasks w))"
    using assms(3) by (auto simp: writer_start_def Let_def split: if_splits)
  have "task_inv contents closed (acc i) (ww_tasks w' ! i)" if "i < length (ww_tasks w')" for i
  proof (cases "i = length (ww_tasks w)")
    case True
    then show ?thesis using assms(2) task_inv_new[OF assms(1)] by (simp add: w' world_inv_def)
  next
    case False
    then show ?thesis using that assms(2) by (simp add: w' world_inv_def nth_append)
  qed
  then show ?thesis using assms(2) by (simp add: world_inv_def w')
qed

lemma world_inv_stop:
  assumes "mpsc_laws mp contents closed" "world_inv contents closed acc w"
  shows "world_inv contents closed acc (snd (writer_stop mp w))"
proof (cases "ss_running (dw_status (ww_service w))")
  case False
  then show ?thesis using assms by (simp add: writer_stop_def)
next
  case True
  let ?w1 = "case dw_shutdown_tx (ww_service w) of Some i \<Rightarrow> signal i w | None \<Rightarrow> w"
  have w1: "world_inv contents closed acc ?w1" "ww_service ?w1 = ww_service w" "length (ww_tasks ?w1) = length (ww_tasks w)"
    using assms(2) world_inv_signal[OF assms(2)] by (auto simp: world_inv_def split: option.splits)
  let ?w2 = "case dw_write_tx (ww_service w) of
      Some i \<Rightarrow> set_chan i (mp_drop_sender mp (wt_chan (ww_tasks ?w1 ! i))) ?w1 | None \<Rightarrow> ?w1"
  have "world_inv contents closed acc ?w2"
  proof (cases "dw_write_tx (ww_service w)")
    case (Some i)
    then have "i < length (ww_tasks ?w1)" using assms(2) w1(3) by (simp add: world_inv_def)
    from world_inv_chan[OF w1(1) this, of "mp_drop_sender mp (wt_chan (ww_tasks ?w1 ! i))"] show ?thesis
      using law_senders[OF assms(1)] Some by simp
  qed (simp add: w1)
  from world_inv_service[OF this] show ?thesis using True by (simp add: writer_stop_def Let_def)
qed

lemma world_inv_step:
  assumes "mpsc_laws mp contents closed" "world_inv contents closed acc w" "writer_step mp e w = Some w'"
  shows "world_inv contents closed (\<lambda>i. acc i @ accepted_by mp e w i) w'"
proof (cases e)
  case (Start now)
  then show ?thesis
    using assms world_inv_start[OF assms(1,2)] by (auto split: exec.splits)
next
  case Stop
  then show ?thesis using assms(3) world_inv_stop[OF assms(1,2)] by auto
next
  case (TrySubmit op)
  then show ?thesis using assms(3) world_inv_submit[OF assms(1,2), of op] by (auto simp del: accepted_by.simps)
next
  case (Submit op)
  then obtain r where "writer_submit mp op w = Some (r, w')" using assms(3) by auto
  from writer_submit_step[OF this] show ?thesis
    using world_inv_submit[OF assms(1,2), of op] by (simp add: Submit)
next
  case Sender
  have "world_inv contents closed acc (snd (writer_sender mp w))"
  proof (cases "dw_write_tx (ww_service w)")
    case (Some i)
    then have "i < length (ww_tasks w)" using assms(2) by (simp add: world_inv_def)
    from world_inv_chan[OF assms(2) this] show ?thesis
      using Some law_senders[OF assms(1)] by (simp add: writer_sender_def)
  qed (simp add: writer_sender_def assms(2))
  then show ?thesis using assms(3) Sender by auto
next
  case (SendClone i op)
  obtain outcome ch where r: "mp_try_send mp op (wt_chan (ww_tasks w ! i)) = (outcome, ch)" by (meson surj_pair)
  have i: "i < length (ww_tasks w)" using assms(3) SendClone by (simp split: if_splits)
  have acc: "accepted_by mp (SendClone i op) w = (\<lambda>j. if j = i \<and> outcome = Sent then [op] else [])"
    using r by (auto simp: fun_eq_iff)
  show ?thesis
    using world_inv_send[OF assms(1,2) i r] assms(3) SendClone i r unfolding acc[folded SendClone]
    by (simp add: clone_send_def)
next
  case (DropClone i)
  then have "i < length (ww_tasks w)" using assms(3) by (simp split: if_splits)
  from world_inv_chan[OF assms(2) this] show ?thesis
    using DropClone assms(3) law_senders[OF assms(1)] by (auto split: if_splits)
next
  case (Turn i b)
  then have i: "i < length (ww_tasks w)" using assms(3) by (simp split: if_splits)
  then obtain t where t: "writer_turn mp b (ww_tasks w ! i) = Some t" "w' = w\<lparr>ww_tasks := (ww_tasks w)[i := t]\<rparr>"
    using assms(3) Turn by auto
  have "task_inv contents closed (acc i) (ww_tasks w ! i)" using assms(2) i by (simp add: world_inv_def)
  from world_inv_task[OF assms(2) i task_inv_turn[OF assms(1) this t(1)]] show ?thesis
    using Turn t(2) by simp
qed

lemma world_inv_run:
  "mpsc_laws mp contents closed \<Longrightarrow> world_inv contents closed acc w \<Longrightarrow> writer_run mp es w = Some w' \<Longrightarrow>
   world_inv contents closed (\<lambda>i. acc i @ accepted_run mp es w i) w'"
proof (induction es arbitrary: acc w)
  case (Cons e es)
  then obtain w1 where w1: "writer_step mp e w = Some w1" "writer_run mp es w1 = Some w'"
    by (auto split: option.splits)
  from Cons.IH[OF Cons.prems(1) world_inv_step[OF Cons.prems(1,2) w1(1)] w1(2)] show ?case
    using w1(1) by simp
qed simp

definition configured_writer :: "string \<Rightarrow> nat \<Rightarrow> nat \<Rightarrow> ('j, 'ch) writer_world" where
  "configured_writer name batch capacity =
     writer_world_new (with_channel_capacity capacity (with_batch_size batch (db_writer_new name)))"

lemmas configured_defs = configured_writer_def writer_world_new_def with_channel_capacity_def with_batch_size_def
  db_writer_new_def

lemma world_run_new:
  assumes "mpsc_laws mp contents closed" "writer_run mp es (configured_writer name n cap) = Some w"
  shows "world_inv contents closed (accepted_run mp es (configured_writer name n cap)) w"
proof -
  have "world_inv contents closed (\<lambda>_. []) (configured_writer name n cap)"
    by (simp add: world_inv_def configured_defs)
  from world_inv_run[OF assms(1) this assms(2)] show ?thesis by simp
qed

lemma world_run_task:
  assumes "mpsc_laws mp contents closed" "writer_run mp es (configured_writer name n cap) = Some w" "i < length (ww_tasks w)"
  shows "task_inv contents closed (accepted_run mp es (configured_writer name n cap) i) (ww_tasks w ! i)"
  using world_run_new[OF assms(1,2)] assms(3) by (simp add: world_inv_def)

section \<open>A channel for the examples\<close>

section \<open>Properties\<close>

text \<open>
  C15. Whatever the service, its users and its tasks do in whatever order, the task of each start works
  off what its channel accepted: in the order of acceptance, nothing twice and nothing that was
  not submitted. While it runs, what is not yet processed is in its batch or still queued; a task
  that ends because all senders are gone has processed everything.
\<close>

theorem accepted_writes_in_order:
  assumes "mpsc_laws mp contents closed" and "writer_run mp es (configured_writer name n cap) = Some w"
    and "i < length (ww_tasks w)"
  shows "\<exists>rest. accepted_run mp es (configured_writer name n cap) i = concat (wt_processed (ww_tasks w ! i)) @ rest \<and>
     (wt_ended (ww_tasks w ! i) = None \<longrightarrow>
        rest = wt_batch (ww_tasks w ! i) @ contents (wt_chan (ww_tasks w ! i))) \<and>
     (wt_ended (ww_tasks w ! i) = Some ByClose \<longrightarrow> rest = [])"
proof (cases "wt_ended (ww_tasks w ! i)")
  case None
  then show ?thesis using world_run_task[OF assms] by (simp add: task_inv_def)
next
  case (Some e)
  then obtain rest where "concat (wt_processed (ww_tasks w ! i)) @ rest = accepted_run mp es (configured_writer name n cap) i"
      "e = ByClose \<longrightarrow> rest = []"
    using world_run_task[OF assms] unfolding task_inv_def by (simp del: concat_append) blast
  then show ?thesis using Some by (intro exI[of _ rest]) simp
qed

definition demo_writes :: "nat write_op list" where
  "demo_writes = [WriteInsert ''a'' 1, WriteUpdate ''a'' ''7'' 2, WriteDelete ''a'' ''7'']"

definition writer_demo_run :: "nat writer_event list" where
  "writer_demo_run = Start 0 # Sender # map Submit demo_writes @
     [Turn 0 RecvBranch, Turn 0 RecvBranch, Turn 0 RecvBranch, Stop, DropClone 0, Turn 0 ShutdownBranch]"

lemmas writer_eval = writer_start_def writer_submit_def writer_stop_def writer_turn_def writer_sender_def finish_task_def
  hand_over_def set_chan_def signal_def service_status_new_def configured_defs

lemma writer_demo_run_end:
  "\<exists>w. writer_run list_mpsc writer_demo_run (configured_writer ''w'' 2 10) = Some w \<and> length (ww_tasks w) = 1 \<and>
     wt_processed (ww_tasks w ! 0) = [take 2 demo_writes, drop 2 demo_writes]"
  by (simp add: writer_demo_run_def demo_writes_def writer_eval list_mpsc_def)

theorem accepted_writes_in_order_witness:
  "\<exists>w rest. writer_run list_mpsc writer_demo_run (configured_writer ''w'' 2 10) = Some w \<and>
     accepted_run list_mpsc writer_demo_run (configured_writer ''w'' 2 10) 0 = concat [take 2 demo_writes, drop 2 demo_writes] @ rest"
proof (rule exE[OF writer_demo_run_end], elim conjE)
  fix w
  assume run: "writer_run list_mpsc writer_demo_run (configured_writer ''w'' 2 10) = Some w"
    and tasks: "length (ww_tasks w) = 1" "wt_processed (ww_tasks w ! 0) = [take 2 demo_writes, drop 2 demo_writes]"
  have "0 < length (ww_tasks w)" using tasks(1) by simp
  from accepted_writes_in_order[OF list_mpsc_lawful run this] show ?thesis
    using run unfolding tasks(2) by (elim exE conjE) (intro exI conjI)
qed

text \<open>
  A task hands over full batches only, of the configured size, or of one operation when the size
  is zero; the one exception is the last batch of a task that ended, which is smaller but never
  empty. What waits in the batch is always less than a full one.
\<close>

theorem batches_are_full:
  assumes "mpsc_laws mp contents closed" and "writer_run mp es (configured_writer name n cap) = Some w"
    and "i < length (ww_tasks w)"
  shows "\<exists>bs b. wt_processed (ww_tasks w ! i) = bs @ b \<and>
     (\<forall>x \<in> set bs. length x = max 1 (wt_batch_size (ww_tasks w ! i))) \<and>
     (b = [] \<or> wt_ended (ww_tasks w ! i) \<noteq> None \<and>
        (\<exists>x. b = [x] \<and> x \<noteq> [] \<and> length x < max 1 (wt_batch_size (ww_tasks w ! i)))) \<and>
     (wt_ended (ww_tasks w ! i) = None \<longrightarrow> length (wt_batch (ww_tasks w ! i)) < max 1 (wt_batch_size (ww_tasks w ! i)))"
proof -
  let ?t = "ww_tasks w ! i"
  note inv = world_run_task[OF assms, unfolded task_inv_def]
  show ?thesis
  proof (cases "wt_ended ?t")
    case None
    then show ?thesis
      using inv by (intro exI[of _ "wt_processed ?t"] exI[of _ "[]"]) (simp add: full_def list_all_iff)
  next
    case (Some e)
    then show ?thesis using inv by (simp add: full_def list_all_iff)
  qed
qed

theorem batches_are_full_witness:
  "\<exists>w bs b. writer_run list_mpsc writer_demo_run (configured_writer ''w'' 2 10) = Some w \<and>
     wt_processed (ww_tasks w ! 0) = bs @ b \<and> (\<forall>x \<in> set bs. length x = max 1 (wt_batch_size (ww_tasks w ! 0)))"
proof (rule exE[OF writer_demo_run_end], elim conjE)
  fix w
  assume run: "writer_run list_mpsc writer_demo_run (configured_writer ''w'' 2 10) = Some w" and tasks: "length (ww_tasks w) = 1"
  have "0 < length (ww_tasks w)" using tasks by simp
  from batches_are_full[OF list_mpsc_lawful run this] show ?thesis
    using run by (elim exE conjE) (intro exI conjI)
qed

text \<open>
  C39. \<open>stop\<close> answers success while writes it accepted may be lost: it signals the task, which may take
  the signal before it has received what is queued. The same calls with the branches taken in the
  other order process the write; so which it is is the choice of \<open>select!\<close> alone. The capacity is any with
  which \<open>start\<close> does not panic.
\<close>

theorem stop_can_lose_accepted_writes:
  assumes "mpsc_laws mp contents closed" and "fst (mp_try_send mp op (mp_new mp cap)) = Sent" and "channel_size cap" and "1 < n"
  shows "(\<exists>w. writer_run mp [Start 0, Submit op, Stop, Turn 0 ShutdownBranch] (configured_writer name n cap) = Some w \<and>
      accepted_run mp [Start 0, Submit op, Stop, Turn 0 ShutdownBranch] (configured_writer name n cap) 0 = [op] \<and>
      wt_ended (ww_tasks w ! 0) = Some ByShutdown \<and> wt_processed (ww_tasks w ! 0) = []) \<and>
    (\<exists>w. writer_run mp [Start 0, Submit op, Stop, Turn 0 RecvBranch, Turn 0 ShutdownBranch]
        (configured_writer name n cap) = Some w \<and>
      wt_ended (ww_tasks w ! 0) = Some ByShutdown \<and> wt_processed (ww_tasks w ! 0) = [[op]])"
proof (rule conjI)
  obtain ch where sent: "mp_try_send mp op (mp_new mp cap) = (Sent, ch)" using assms(2) by (cases "mp_try_send mp op (mp_new mp cap)") auto
  have ch: "contents (mp_drop_sender mp ch) = [op]"
    using law_send[OF assms(1) sent] law_new[OF assms(1)] law_senders[OF assms(1)] by simp
  obtain outcome ch' where r: "mp_recv mp (mp_drop_sender mp ch) = (outcome, ch')" by (meson surj_pair)
  have outcome: "outcome = Received op" using law_recv[OF assms(1) r] ch by (cases outcome) auto
  show "\<exists>w. writer_run mp [Start 0, Submit op, Stop, Turn 0 ShutdownBranch] (configured_writer name n cap) = Some w \<and>
      accepted_run mp [Start 0, Submit op, Stop, Turn 0 ShutdownBranch] (configured_writer name n cap) 0 = [op] \<and>
      wt_ended (ww_tasks w ! 0) = Some ByShutdown \<and> wt_processed (ww_tasks w ! 0) = []"
    using assms(3) by (simp add: writer_eval sent)
  show "\<exists>w. writer_run mp [Start 0, Submit op, Stop, Turn 0 RecvBranch, Turn 0 ShutdownBranch]
        (configured_writer name n cap) = Some w \<and>
      wt_ended (ww_tasks w ! 0) = Some ByShutdown \<and> wt_processed (ww_tasks w ! 0) = [[op]]"
    using assms(3,4) r by (simp add: writer_eval sent outcome)
qed

theorem stop_can_lose_accepted_writes_witness:
  "\<exists>w. writer_run list_mpsc [Start 0, Submit (WriteCustom ''x''), Stop, Turn 0 ShutdownBranch]
       (configured_writer ''w'' 100 10000 :: (unit, _) writer_world) = Some w \<and>
     accepted_run list_mpsc [Start 0, Submit (WriteCustom ''x''), Stop, Turn 0 ShutdownBranch]
       (configured_writer ''w'' 100 10000 :: (unit, _) writer_world) 0 = [WriteCustom ''x''] \<and>
     wt_ended (ww_tasks w ! 0) = Some ByShutdown \<and> wt_processed (ww_tasks w ! 0) = []"
  by (rule stop_can_lose_accepted_writes[OF list_mpsc_lawful, THEN conjunct1]) (simp_all add: list_mpsc_def)

text \<open>The calls of \<open>start\<close> and \<open>stop\<close> that took effect in a run.\<close>

fun effects :: "('j write_op, 'ch) mpsc \<Rightarrow> 'j writer_event list \<Rightarrow> ('j, 'ch) writer_world \<Rightarrow> lifecycle_mark list" where
  "effects mp [] w = []"
| "effects mp (e # es) w =
     (case e of
        Start now \<Rightarrow> (case writer_start mp now w of Return (Inr u, w') \<Rightarrow> [Started] | _ \<Rightarrow> [])
      | Stop \<Rightarrow> if is_ok (fst (writer_stop mp w)) then [Stopped] else []
      | _ \<Rightarrow> []) @
     (case writer_step mp e w of None \<Rightarrow> [] | Some w' \<Rightarrow> effects mp es w')"

lemma effects_history: "writer_run mp es w = Some w' \<Longrightarrow> writer_life.history mp w (effects mp es w) w'"
proof (induction es arbitrary: w)
  case Nil
  then show ?case by (simp add: writer_life.history.none)
next
  case (Cons e es)
  then obtain w1 where w1: "writer_step mp e w = Some w1" "writer_run mp es w1 = Some w'"
    by (auto split: option.splits)
  note IH = Cons.IH[OF w1(2)]
  show ?case
  proof (cases "\<exists>now. e = Start now")
    case True
    then obtain now r where "e = Start now" "writer_start mp now w = Return (r, w1)"
      using w1(1) by (auto split: exec.splits)
    then show ?thesis
      using IH w1(1) by (cases r) (auto intro: writer_life.history.started writer_life.history.refused)
  next
    case no_start: False
    show ?thesis
    proof (cases "e = Stop")
      case True
      obtain r where "writer_stop mp w = (r, w1)" using w1(1) True by (cases "writer_stop mp w") auto
      then show ?thesis
        using IH w1(1) True by (cases r) (auto intro: writer_life.history.stopped writer_life.history.idle)
    next
      case False
      then have "writer_env mp w w1" using no_start w1(1) by (auto simp: writer_env_def)
      then show ?thesis
        using writer_life.history.other[OF _ IH] False no_start w1(1) by (cases e) (auto simp del: writer_step.simps)
    qed
  qed
qed

text \<open>
  In any run the calls of \<open>start\<close> and \<open>stop\<close> that take effect alternate, beginning with a start,
  and the service runs exactly after a start that was not followed by a stop. Every other call answers \<open>AlreadyRunning\<close> or \<open>NotRunning\<close> and changes nothing.
\<close>

theorem writer_starts_and_stops_alternate:
  assumes "writer_run mp es (configured_writer name n cap) = Some w"
  shows "let ms = effects mp es (configured_writer name n cap) in
     (\<forall>i < length ms. ms ! i = (if even i then Started else Stopped)) \<and>
     writer_running w = odd (length ms) \<and>
     (if writer_running w then writer_start mp now w = Return (Err AlreadyRunning, w) else writer_stop mp w = (Err NotRunning, w))"
proof -
  have "\<not> writer_running (configured_writer name n cap)"
    by (simp add: writer_running_def configured_defs service_status_new_def)
  then have "alternating False (effects mp es (configured_writer name n cap)) \<and>
      writer_running w = odd (length (effects mp es (configured_writer name n cap)))"
    using writer_life.effects_alternate[OF effects_history[OF assms]] by auto
  moreover have "if writer_running w then writer_start mp now w = Return (Err AlreadyRunning, w) else writer_stop mp w = (Err NotRunning, w)"
    using writer_life.start_running[of w mp now] writer_life.stop_idle[of w mp] by simp
  ultimately show ?thesis using alternating_nth[of False] unfolding Let_def by auto
qed

theorem writer_starts_and_stops_alternate_witness:
  "\<exists>w. writer_run list_mpsc [Stop, Start 0, Start 1, Stop, Start 2] (configured_writer ''w'' 2 10 :: (unit, _) writer_world) = Some w \<and>
     writer_running w \<and> writer_start list_mpsc 3 w = Return (Err AlreadyRunning, w)"
proof -
  let ?es = "[Stop, Start 0, Start 1, Stop, Start 2] :: unit writer_event list"
  have "\<exists>w. writer_run list_mpsc ?es (configured_writer ''w'' 2 10) = Some w \<and>
      length (effects list_mpsc ?es (configured_writer ''w'' 2 10)) = 3"
    by (simp add: writer_eval)
  then obtain w where w: "writer_run list_mpsc ?es (configured_writer ''w'' 2 10) = Some w"
      "length (effects list_mpsc ?es (configured_writer ''w'' 2 10)) = 3"
    by (elim exE conjE)
  have "writer_running w"
    using writer_starts_and_stops_alternate[OF w(1), of 3] unfolding Let_def w(2) by simp
  then show ?thesis
    using writer_starts_and_stops_alternate[OF w(1), of 3] w(1) unfolding Let_def by (intro exI[of _ w]) (simp del: effects.simps writer_run.simps)
qed

end
