(* ===== verification/Rest_Api.thy ===== *)
theory Rest_Api
  imports Service_Lifecycle
begin

text \<open>
  \<open>services/nonrtservices/src/rest_api.rs\<close>: the state the HTTP handlers share, the handlers as functions
  from a request to a response and the new state, the table of routes, and the service that runs the
  server. \<open>axum\<close> matches a request with its route and decodes its body; the model starts where a
  handler is called with the decoded arguments. JSON values are \<open>'j\<close>; a service is a trait object of
  state \<open>'n\<close> behind an \<open>Arc\<close>, an address of a cell.
\<close>

section \<open>The shared state\<close>

text \<open>The properties and the channel of events, when the engine is connected, are those it shares.\<close>

record ('n, 'ch) api_state =
  as_services :: "string \<rightharpoonup> nat"
  as_cells :: "nat \<rightharpoonup> 'n"
  as_next :: nat
  as_properties :: "properties option"
  as_event_tx :: "'ch option"

definition api_state_new :: "('n, 'ch) api_state" where
  "api_state_new =
     \<lparr>as_services = Map.empty, as_cells = Map.empty, as_next = 0, as_properties = None, as_event_tx = None\<rparr>"

definition with_properties :: "properties \<Rightarrow> ('n, 'ch) api_state \<Rightarrow> ('n, 'ch) api_state" where
  "with_properties p s = s\<lparr>as_properties := Some p\<rparr>"

definition with_event_tx :: "'ch \<Rightarrow> ('n, 'ch) api_state \<Rightarrow> ('n, 'ch) api_state" where
  "with_event_tx tx s = s\<lparr>as_event_tx := Some tx\<rparr>"

definition api_register_service ::
  "('n, 'j, 'c) nonrt_service \<Rightarrow> 'n \<Rightarrow> ('n, 'ch) api_state \<Rightarrow> ('n, 'ch) api_state" where
  "api_register_service u svc s =
     s\<lparr>as_services := (as_services s)(ns_name u svc \<mapsto> as_next s), as_cells := (as_cells s)(as_next s \<mapsto> svc),
       as_next := as_next s + 1\<rparr>"

definition api_get_service :: "('n, 'ch) api_state \<Rightarrow> string \<Rightarrow> nat option" where
  "api_get_service s name = as_services s name"

section \<open>Responses\<close>

datatype body =
    ServiceList "string list" nat
  | StatusBody service_status
  | ErrorBody string
  | HealthBody string timestamp
  | SpeedBody f64
  | AcceptedBody

record response =
  rs_status :: nat
  rs_body :: body

abbreviation "HTTP_OK \<equiv> (200 :: nat)"
abbreviation "NOT_FOUND \<equiv> (404 :: nat)"
abbreviation "INTERNAL_SERVER_ERROR \<equiv> (500 :: nat)"
abbreviation "SERVICE_UNAVAILABLE \<equiv> (503 :: nat)"

definition service_error_display :: "service_error \<Rightarrow> string" where
  "service_error_display e =
     (case e of
        StartFailed s \<Rightarrow> ''Service start failed: '' @ s
      | StopFailed s \<Rightarrow> ''Service stop failed: '' @ s
      | NotRunning \<Rightarrow> ''Service not running''
      | AlreadyRunning \<Rightarrow> ''Service already running''
      | ServiceNotFound s \<Rightarrow> ''Service not found: '' @ s
      | ServiceFailure s \<Rightarrow> ''Service failure: '' @ s
      | InvalidRequest s \<Rightarrow> ''Invalid request: '' @ s
      | Internal s \<Rightarrow> ''Internal error: '' @ s)"

definition not_found :: "string \<Rightarrow> response" where
  "not_found name =
     \<lparr>rs_status = NOT_FOUND, rs_body = ErrorBody (''Service '' @ [CHR 0x27] @ name @ [CHR 0x27] @ '' not found'')\<rparr>"

section \<open>Handlers\<close>

text \<open>\<open>names\<close>: the keys in the order in which the iterator of the hash map produced them.\<close>

definition list_services :: "string list \<Rightarrow> response" where
  "list_services names = \<lparr>rs_status = HTTP_OK, rs_body = ServiceList names (length names)\<rparr>"

definition service_status_response :: "('n, 'j, 'c) nonrt_service \<Rightarrow> ('n, 'ch) api_state \<Rightarrow> string \<Rightarrow> response" where
  "service_status_response u s name =
     (case api_get_service s name of
        Some a \<Rightarrow> \<lparr>rs_status = HTTP_OK, rs_body = StatusBody (ns_status u (the (as_cells s a)))\<rparr>
      | None \<Rightarrow> not_found name)"

definition get_service_status ::
  "('n, 'j, 'c) nonrt_service \<Rightarrow> string \<Rightarrow> ('n, 'ch) api_state \<Rightarrow> response \<times> ('n, 'ch) api_state" where
  "get_service_status u name s = (service_status_response u s name, s)"

text \<open>\<open>start_service\<close> and \<open>stop_service\<close> differ in the method \<open>f\<close> they call.\<close>

definition run_on_service ::
  "('n \<Rightarrow> (service_error, unit) result \<times> 'n) \<Rightarrow> ('n, 'j, 'c) nonrt_service \<Rightarrow> string \<Rightarrow> ('n, 'ch) api_state
   \<Rightarrow> response \<times> ('n, 'ch) api_state" where
  "run_on_service f u name s =
     (case api_get_service s name of
        Some a \<Rightarrow>
          (case f (the (as_cells s a)) of
             (Inr _, svc) \<Rightarrow>
               (\<lparr>rs_status = HTTP_OK, rs_body = StatusBody (ns_status u svc)\<rparr>, s\<lparr>as_cells := (as_cells s)(a \<mapsto> svc)\<rparr>)
           | (Inl e, svc) \<Rightarrow>
               (\<lparr>rs_status = INTERNAL_SERVER_ERROR, rs_body = ErrorBody (service_error_display e)\<rparr>,
                s\<lparr>as_cells := (as_cells s)(a \<mapsto> svc)\<rparr>))
      | None \<Rightarrow> (not_found name, s))"

definition start_service ::
  "('n, 'j, 'c) nonrt_service \<Rightarrow> string \<Rightarrow> ('n, 'ch) api_state \<Rightarrow> response \<times> ('n, 'ch) api_state" where
  "start_service u name s = run_on_service (ns_start u) u name s"

definition stop_service ::
  "('n, 'j, 'c) nonrt_service \<Rightarrow> string \<Rightarrow> ('n, 'ch) api_state \<Rightarrow> response \<times> ('n, 'ch) api_state" where
  "stop_service u name s = run_on_service (ns_stop u) u name s"

definition health_check :: "timestamp \<Rightarrow> response" where
  "health_check now = \<lparr>rs_status = HTTP_OK, rs_body = HealthBody ''healthy'' now\<rparr>"

definition unavailable :: "string \<Rightarrow> response" where
  "unavailable msg = \<lparr>rs_status = SERVICE_UNAVAILABLE, rs_body = ErrorBody msg\<rparr>"

definition rest_get_speed :: "('n, 'ch) api_state \<Rightarrow> response \<times> ('n, 'ch) api_state" where
  "rest_get_speed s =
     (case as_properties s of
        Some p \<Rightarrow> (\<lparr>rs_status = HTTP_OK, rs_body = SpeedBody (get_speed p)\<rparr>, s)
      | None \<Rightarrow> (unavailable ''Properties not available'', s))"

definition rest_set_speed :: "f64 \<Rightarrow> ('n, 'ch) api_state \<Rightarrow> response \<times> ('n, 'ch) api_state" where
  "rest_set_speed v s =
     (case as_properties s of
        Some p \<Rightarrow> (\<lparr>rs_status = HTTP_OK, rs_body = SpeedBody v\<rparr>, s\<lparr>as_properties := Some (set_speed v p)\<rparr>)
      | None \<Rightarrow> (unavailable ''Properties not available'', s))"

text \<open>\<open>POST /services/{name}\<close> answers the status of the service; it does not look at the body.\<close>

definition call_service ::
  "('n, 'j, 'c) nonrt_service \<Rightarrow> string \<Rightarrow> 'j \<Rightarrow> ('n, 'ch) api_state \<Rightarrow> response \<times> ('n, 'ch) api_state" where
  "call_service u name req s = (service_status_response u s name, s)"

text \<open>\<open>as_f64\<close> reads a JSON number. \<open>try_send\<close> is that of the event channel.\<close>

record 'j event_request =
  er_kind :: string
  er_payload :: 'j

definition event_of :: "('j \<Rightarrow> f64 option) \<Rightarrow> 'j event_request \<Rightarrow> 'j engine_event" where
  "event_of as_f64 req =
     (if er_kind req = ''SetSpeed''
      then SetSpeed (case as_f64 (er_payload req) of Some v \<Rightarrow> v | None \<Rightarrow> f64_zero False)
      else EngineCustom (er_kind req) (er_payload req))"

definition post_event ::
  "('j engine_event \<Rightarrow> 'ch \<Rightarrow> 'j engine_event try_send_outcome \<times> 'ch) \<Rightarrow> ('j \<Rightarrow> f64 option) \<Rightarrow> 'j event_request
   \<Rightarrow> ('n, 'ch) api_state \<Rightarrow> response \<times> ('n, 'ch) api_state" where
  "post_event try_send as_f64 req s =
     (case as_event_tx s of
        Some tx \<Rightarrow>
          (case try_send (event_of as_f64 req) tx of
             (Sent, tx') \<Rightarrow> (\<lparr>rs_status = HTTP_OK, rs_body = AcceptedBody\<rparr>, s\<lparr>as_event_tx := Some tx'\<rparr>)
           | (_, tx') \<Rightarrow> (unavailable ''Event channel full'', s\<lparr>as_event_tx := Some tx'\<rparr>))
      | None \<Rightarrow> (unavailable ''Event channel not available'', s))"

section \<open>Requests\<close>

datatype http_method = GET | POST | PUT

datatype route_handler =
    HHealth | HListServices | HStatus | HStart | HStop | HCall | HGetSpeed | HSetSpeed | HEvent

definition create_router :: "(string \<times> (http_method \<times> route_handler) list) list" where
  "create_router =
     [(''/health'', [(GET, HHealth)]),
      (''/services'', [(GET, HListServices)]),
      (''/services/:name/status'', [(GET, HStatus)]),
      (''/services/:name/start'', [(POST, HStart)]),
      (''/services/:name/stop'', [(POST, HStop)]),
      (''/services/:name'', [(POST, HCall)]),
      (''/properties/speed'', [(GET, HGetSpeed), (PUT, HSetSpeed)]),
      (''/events'', [(POST, HEvent)])]"

text \<open>A request as its handler sees it.\<close>

datatype 'j request =
    ReqHealth timestamp
  | ReqList "string list"
  | ReqStatus string
  | ReqStart string
  | ReqStop string
  | ReqCall string 'j
  | ReqGetSpeed
  | ReqSetSpeed f64
  | ReqEvent "'j event_request"

fun handle ::
  "('n, 'j, 'c) nonrt_service \<Rightarrow> ('j engine_event \<Rightarrow> 'ch \<Rightarrow> 'j engine_event try_send_outcome \<times> 'ch)
   \<Rightarrow> ('j \<Rightarrow> f64 option) \<Rightarrow> 'j request \<Rightarrow> ('n, 'ch) api_state \<Rightarrow> response \<times> ('n, 'ch) api_state" where
  "handle u try_send as_f64 (ReqHealth now) s = (health_check now, s)"
| "handle u try_send as_f64 (ReqList names) s = (list_services names, s)"
| "handle u try_send as_f64 (ReqStatus name) s = get_service_status u name s"
| "handle u try_send as_f64 (ReqStart name) s = start_service u name s"
| "handle u try_send as_f64 (ReqStop name) s = stop_service u name s"
| "handle u try_send as_f64 (ReqCall name req) s = call_service u name req s"
| "handle u try_send as_f64 ReqGetSpeed s = rest_get_speed s"
| "handle u try_send as_f64 (ReqSetSpeed v) s = rest_set_speed v s"
| "handle u try_send as_f64 (ReqEvent req) s = post_event try_send as_f64 req s"

section \<open>The service\<close>

text \<open>
  A server task: it binds the address and serves until the shutdown signal. A failing bind panics the
  task, not the service. The sender the service keeps is the index of its task, or one whose receiver
  is gone: \<open>start\<close> stores it before it parses the address.
\<close>

datatype server_phase = Binding | Serving | ServerPanicked | ServerDone

record 'addr server_task =
  sv_addr :: 'addr
  sv_signalled :: bool
  sv_phase :: server_phase

record rest_service =
  ra_name :: string
  ra_bind_addr :: string
  ra_status :: service_status
  ra_shutdown_tx :: "nat option option"

record 'addr rest_world =
  rw_service :: rest_service
  rw_servers :: "'addr server_task list"

definition rest_service_new :: "string \<Rightarrow> rest_service" where
  "rest_service_new bind_addr =
     \<lparr>ra_name = ''rest_api'', ra_bind_addr = bind_addr, ra_status = service_status_new ''rest_api'',
      ra_shutdown_tx = None\<rparr>"

text \<open>\<open>parse\<close> is \<open>SocketAddr::from_str\<close>, with the message of its error.\<close>

definition rest_start ::
  "(string \<Rightarrow> (string, 'addr) result) \<Rightarrow> timestamp \<Rightarrow> 'addr rest_world
   \<Rightarrow> (service_error, unit) result \<times> 'addr rest_world" where
  "rest_start parse now w =
     (let s = rw_service w in
      if ss_running (ra_status s) then (Err AlreadyRunning, w)
      else
        (case parse (ra_bind_addr s) of
           Inl e \<Rightarrow> (Err (StartFailed (''Invalid address: '' @ e)), w\<lparr>rw_service := s\<lparr>ra_shutdown_tx := Some None\<rparr>\<rparr>)
         | Inr addr \<Rightarrow>
             (Ok (),
              \<lparr>rw_service = s\<lparr>ra_shutdown_tx := Some (Some (length (rw_servers w))),
                 ra_status := (ra_status s)\<lparr>ss_running := True, ss_started_at := Some now\<rparr>\<rparr>,
               rw_servers = rw_servers w @ [\<lparr>sv_addr = addr, sv_signalled = False, sv_phase = Binding\<rparr>]\<rparr>)))"

definition rest_stop :: "'addr rest_world \<Rightarrow> (service_error, unit) result \<times> 'addr rest_world" where
  "rest_stop w =
     (let s = rw_service w in
      if \<not> ss_running (ra_status s) then (Err NotRunning, w)
      else
        (Ok (),
         \<lparr>rw_service = s\<lparr>ra_shutdown_tx := None, ra_status := (ra_status s)\<lparr>ss_running := False\<rparr>\<rparr>,
          rw_servers =
            (case ra_shutdown_tx s of
               Some (Some i) \<Rightarrow> (rw_servers w)[i := (rw_servers w ! i)\<lparr>sv_signalled := True\<rparr>]
             | _ \<Rightarrow> rw_servers w)\<rparr>))"

definition rest_health_check :: "'addr rest_world \<Rightarrow> bool" where
  "rest_health_check w \<longleftrightarrow> ss_running (ra_status (rw_service w))"

text \<open>A turn of a server task; \<open>bound\<close> is whether the bind succeeded.\<close>

definition server_turn :: "bool \<Rightarrow> 'addr server_task \<Rightarrow> 'addr server_task option" where
  "server_turn bound t =
     (case sv_phase t of
        Binding \<Rightarrow> Some (t\<lparr>sv_phase := (if bound then Serving else ServerPanicked)\<rparr>)
      | Serving \<Rightarrow> if sv_signalled t then Some (t\<lparr>sv_phase := ServerDone\<rparr>) else None
      | _ \<Rightarrow> None)"

datatype rest_event = RestStart timestamp | RestStop | ServerTurn nat bool

fun rest_step ::
  "(string \<Rightarrow> (string, 'addr) result) \<Rightarrow> rest_event \<Rightarrow> 'addr rest_world \<Rightarrow> 'addr rest_world option" where
  "rest_step parse (RestStart now) w = Some (snd (rest_start parse now w))"
| "rest_step parse RestStop w = Some (snd (rest_stop w))"
| "rest_step parse (ServerTurn i bound) w =
     (if i < length (rw_servers w)
      then map_option (\<lambda>t. w\<lparr>rw_servers := (rw_servers w)[i := t]\<rparr>) (server_turn bound (rw_servers w ! i)) else None)"

fun rest_run ::
  "(string \<Rightarrow> (string, 'addr) result) \<Rightarrow> rest_event list \<Rightarrow> 'addr rest_world \<Rightarrow> 'addr rest_world option" where
  "rest_run parse [] w = Some w"
| "rest_run parse (e # es) w = (case rest_step parse e w of None \<Rightarrow> None | Some w' \<Rightarrow> rest_run parse es w')"

definition rest_world_new :: "string \<Rightarrow> 'addr rest_world" where
  "rest_world_new bind_addr = \<lparr>rw_service = rest_service_new bind_addr, rw_servers = []\<rparr>"

text \<open>The servers that have not ended.\<close>

definition live_servers :: "'addr rest_world \<Rightarrow> nat" where
  "live_servers w = length (filter (\<lambda>t. sv_phase t \<in> {Binding, Serving} \<and> \<not> sv_signalled t) (rw_servers w))"

section \<open>The lifecycle contract\<close>

definition rest_env :: "'addr rest_world \<Rightarrow> 'addr rest_world \<Rightarrow> bool" where
  "rest_env w w' \<longleftrightarrow> (\<exists>servers. w' = w\<lparr>rw_servers := servers\<rparr>)"

interpretation rest_life: service_lifecycle "\<lambda>now w. Return (rest_start parse now w)" rest_stop rest_health_check rest_env
  for parse :: "string \<Rightarrow> (string, 'addr) result"
  by unfold_locales
    (auto simp: rest_health_check_def rest_start_def rest_stop_def rest_env_def Let_def split: if_splits sum.splits)

end
