(* ===== verification/Rest_Properties.thy ===== *)
theory Rest_Properties
  imports Rest_Api Manager_Properties
begin

text \<open>
  The handlers over the shared state, the way of a posted event into the engine, and the server task
  of the service over its starts and stops.
\<close>

section \<open>The services behind the handlers\<close>

text \<open>Every name leads to a cell of its own.\<close>

definition api_inv :: "('n, 'ch) api_state \<Rightarrow> bool" where
  "api_inv s \<longleftrightarrow>
     (\<forall>name a. as_services s name = Some a \<longrightarrow> a < as_next s \<and> as_cells s a \<noteq> None) \<and> inj_on (as_services s) (dom (as_services s))"

definition service_at :: "('n, 'ch) api_state \<Rightarrow> string \<Rightarrow> 'n option" where
  "service_at s name = Option.bind (as_services s name) (as_cells s)"

lemma api_inv_new: "api_inv api_state_new"
  by (simp add: api_inv_def api_state_new_def)

lemma api_inv_register:
  assumes "api_inv s"
  shows "api_inv (api_register_service u svc s)"
proof -
  have "as_services s name \<noteq> Some (as_next s)" for name using assms by (auto simp: api_inv_def)
  moreover from this have "Some (as_next s) \<noteq> as_services s name" for name by metis
  ultimately show ?thesis
    using assms unfolding api_inv_def
    by (auto simp: api_register_service_def inj_on_def less_Suc_eq dom_def)
qed

lemma service_at_register:
  "api_inv s \<Longrightarrow> service_at (api_register_service u svc s) name =
     (if name = ns_name u svc then Some svc else service_at s name)"
  by (auto simp: service_at_def api_register_service_def api_inv_def split: option.splits bind_splits)

lemma registered_service:
  assumes "api_inv s" "as_services s name = Some a"
  shows "\<exists>svc. as_cells s a = Some svc \<and> service_at s name = Some svc"
proof -
  have "as_cells s a \<noteq> None" using assms unfolding api_inv_def by blast
  then show ?thesis using assms(2) by (auto simp: service_at_def)
qed

lemma api_inv_cell:
  "api_inv s \<Longrightarrow> api_inv (s\<lparr>as_cells := (as_cells s)(a \<mapsto> svc)\<rparr>)"
  unfolding api_inv_def by simp

lemma service_at_cell:
  assumes "api_inv s" "as_services s name = Some a"
  shows "service_at (s\<lparr>as_cells := (as_cells s)(a \<mapsto> svc)\<rparr>) = (service_at s)(name \<mapsto> svc)"
proof
  fix n
  show "service_at (s\<lparr>as_cells := (as_cells s)(a \<mapsto> svc)\<rparr>) n = ((service_at s)(name \<mapsto> svc)) n"
  proof (cases "n = name")
    case True
    then show ?thesis using assms(2) by (simp add: service_at_def)
  next
    case False
    have "as_services s n \<noteq> Some a"
    proof
      assume "as_services s n = Some a"
      then have "n = name"
        using assms inj_onD[of "as_services s" "dom (as_services s)" n name] by (simp add: api_inv_def domIff)
      with False show False by simp
    qed
    then show ?thesis using False by (cases "as_services s n") (simp_all add: service_at_def)
  qed
qed

text \<open>What a request asks of a service: which, and the method called on it.\<close>

fun called :: "('n, 'j, 'c) nonrt_service \<Rightarrow> 'j request \<Rightarrow> (string \<times> ('n \<Rightarrow> (service_error, unit) result \<times> 'n)) option" where
  "called u (ReqStart name) = Some (name, ns_start u)"
| "called u (ReqStop name) = Some (name, ns_stop u)"
| "called u (ReqStatus name) = Some (name, \<lambda>n. (Ok (), n))"
| "called u (ReqCall name req) = Some (name, \<lambda>n. (Ok (), n))"
| "called u _ = None"

lemma service_at_None: "api_inv s \<Longrightarrow> service_at s name = None \<longleftrightarrow> as_services s name = None"
  by (auto simp: service_at_def api_inv_def split: bind_splits)

lemma run_on_service_spec:
  assumes "api_inv s"
  shows "case service_at s name of
      None \<Rightarrow> run_on_service f u name s = (not_found name, s)
    | Some svc \<Rightarrow>
        rs_status (fst (run_on_service f u name s)) = (if is_ok (fst (f svc)) then HTTP_OK else INTERNAL_SERVER_ERROR) \<and>
        (is_ok (fst (f svc)) \<longrightarrow> rs_body (fst (run_on_service f u name s)) = StatusBody (ns_status u (snd (f svc)))) \<and>
        service_at (snd (run_on_service f u name s)) = (service_at s)(name \<mapsto> snd (f svc)) \<and>
        api_inv (snd (run_on_service f u name s))"
proof (cases "as_services s name")
  case None
  then show ?thesis
    by (simp add: service_at_def run_on_service_def api_get_service_def)
next
  case (Some a)
  then obtain svc where svc: "as_cells s a = Some svc" "service_at s name = Some svc"
    using registered_service[OF assms] by blast
  obtain r svc' where r: "f svc = (r, svc')" by (meson surj_pair)
  have "snd (run_on_service f u name s) = s\<lparr>as_cells := (as_cells s)(a \<mapsto> svc')\<rparr>"
    using Some svc r by (cases r) (simp_all add: run_on_service_def api_get_service_def)
  then show ?thesis
    using Some svc r service_at_cell[OF assms Some] api_inv_cell[OF assms]
    by (cases r) (simp_all add: run_on_service_def api_get_service_def)
qed

lemma status_spec:
  assumes "api_inv s"
  shows "service_status_response u s name =
    (case service_at s name of None \<Rightarrow> not_found name
     | Some svc \<Rightarrow> \<lparr>rs_status = HTTP_OK, rs_body = StatusBody (ns_status u svc)\<rparr>)"
proof (cases "as_services s name")
  case (Some a)
  with registered_service[OF assms this] show ?thesis
    by (auto simp: service_status_response_def api_get_service_def)
qed (simp add: service_status_response_def api_get_service_def service_at_def)

lemma other_requests:
  assumes "called u req = None"
  shows "as_services (snd (handle u try_send as_f64 req s)) = as_services s"
    "as_cells (snd (handle u try_send as_f64 req s)) = as_cells s"
    "as_next (snd (handle u try_send as_f64 req s)) = as_next s"
  using assms
  by (cases req; auto simp: rest_get_speed_def rest_set_speed_def post_event_def
      split: option.splits prod.splits try_send_outcome.splits)+

lemma run_on_service_inv: "api_inv s \<Longrightarrow> api_inv (snd (run_on_service f u name s))"
  using run_on_service_spec[of s f u name] by (cases "service_at s name") simp_all

lemma handle_inv:
  assumes "api_inv s"
  shows "api_inv (snd (handle u try_send as_f64 req s))"
proof (cases "called u req")
  case None
  show ?thesis
    using assms unfolding api_inv_def other_requests[OF None, where try_send = try_send and ?as_f64.0 = as_f64 and s = s] .
next
  case (Some nf)
  then show ?thesis
    using assms run_on_service_inv[OF assms]
    by (cases req) (simp_all add: start_service_def stop_service_def get_service_status_def call_service_def)
qed

lemma api_run_inv: "api_inv s \<Longrightarrow> api_inv (fold (\<lambda>req s. snd (handle u try_send as_f64 req s)) reqs s)"
  by (induction reqs arbitrary: s) (simp_all add: handle_inv)

text \<open>The services a fresh state gets by registration.\<close>

definition api_with :: "('n, 'j, 'c) nonrt_service \<Rightarrow> 'n list \<Rightarrow> ('n, 'ch) api_state" where
  "api_with u svcs = fold (api_register_service u) svcs api_state_new"

lemma api_with_inv: "api_inv (api_with u svcs)"
proof -
  have "api_inv s \<Longrightarrow> api_inv (fold (api_register_service u) svcs s)" for s
    by (induction svcs arbitrary: s) (simp_all add: api_inv_register)
  then show ?thesis using api_inv_new by (auto simp: api_with_def)
qed

text \<open>Registration and requests decide which names are there.\<close>

lemma handle_names:
  assumes "api_inv s"
  shows "service_at (snd (handle u try_send as_f64 req s)) name = None \<longleftrightarrow> service_at s name = None"
proof (cases "called u req")
  case None
  then show ?thesis
    by (simp add: service_at_def other_requests[OF None, where try_send = try_send and ?as_f64.0 = as_f64 and s = s])
next
  case (Some nf)
  have "service_at (snd (run_on_service f u n s)) name = None \<longleftrightarrow> service_at s name = None" for f n
    using run_on_service_spec[OF assms, of f u n] by (cases "service_at s n") auto
  then show ?thesis
    using Some by (cases req) (simp_all add: start_service_def stop_service_def get_service_status_def call_service_def)
qed

lemma run_names:
  "api_inv s \<Longrightarrow>
   service_at (fold (\<lambda>req s. snd (handle u try_send as_f64 req s)) reqs s) name = None \<longleftrightarrow> service_at s name = None"
  by (induction reqs arbitrary: s) (simp_all add: handle_inv handle_names)

lemma api_with_names: "service_at (api_with u svcs) name = None \<longleftrightarrow> name \<notin> ns_name u ` set svcs"
proof -
  have "api_inv s \<Longrightarrow> service_at (fold (api_register_service u) svcs s) name = None \<longleftrightarrow>
      service_at s name = None \<and> name \<notin> ns_name u ` set svcs" for s
    by (induction svcs arbitrary: s) (auto simp: api_inv_register service_at_register)
  from this[OF api_inv_new] show ?thesis by (simp add: api_with_def service_at_def api_state_new_def)
qed

lemma service_request:
  assumes "api_inv s" "called u req = Some (name, f)"
  shows "case service_at s name of
      None \<Rightarrow> handle u try_send as_f64 req s = (not_found name, s)
    | Some svc \<Rightarrow>
        service_at (snd (handle u try_send as_f64 req s)) = (service_at s)(name \<mapsto> snd (f svc)) \<and>
        (if is_ok (fst (f svc))
         then fst (handle u try_send as_f64 req s) = \<lparr>rs_status = HTTP_OK, rs_body = StatusBody (ns_status u (snd (f svc)))\<rparr>
         else rs_status (fst (handle u try_send as_f64 req s)) = INTERNAL_SERVER_ERROR)"
proof (cases "service_at s name")
  case None
  then show ?thesis
    using assms(2) run_on_service_spec[OF assms(1), of f u name] status_spec[OF assms(1), of u name]
    by (cases req) (simp_all add: start_service_def stop_service_def get_service_status_def call_service_def)
next
  case (Some svc)
  have upd: "(service_at s)(name \<mapsto> svc) = service_at s" using Some by (simp add: fun_upd_idem)
  show ?thesis
    using assms(2) Some upd run_on_service_spec[OF assms(1), of f u name] status_spec[OF assms(1), of u name]
    by (cases req) (auto simp: start_service_def stop_service_def get_service_status_def call_service_def)
qed

text \<open>
  C21. After any requests to an API with any registered services: a request to a service answers 404 and
  changes nothing exactly when no service was registered under that name. Otherwise the method it
  asks for is called once, on that service alone; the answer is 200 with the status the service then
  has, or 500 when the service gave an error. Every other request leaves all services alone.
\<close>

theorem requests_reach_their_service:
  "let s = fold (\<lambda>req s. snd (handle u try_send as_f64 req s)) reqs (api_with u svcs);
       r = fst (handle u try_send as_f64 req s); s' = snd (handle u try_send as_f64 req s)
   in (case called u req of
         None \<Rightarrow> service_at s' = service_at s
       | Some (name, f) \<Rightarrow>
           (case service_at s name of
              None \<Rightarrow> r = not_found name \<and> s' = s \<and> name \<notin> ns_name u ` set svcs
            | Some svc \<Rightarrow>
                name \<in> ns_name u ` set svcs \<and> service_at s' = (service_at s)(name \<mapsto> snd (f svc)) \<and>
                (if is_ok (fst (f svc))
                 then r = \<lparr>rs_status = HTTP_OK, rs_body = StatusBody (ns_status u (snd (f svc)))\<rparr>
                 else rs_status r = INTERNAL_SERVER_ERROR)))"
proof -
  define s where "s = fold (\<lambda>req s. snd (handle u try_send as_f64 req s)) reqs (api_with u svcs)"
  have inv: "api_inv s" unfolding s_def by (rule api_run_inv[OF api_with_inv])
  have names: "service_at s name = None \<longleftrightarrow> name \<notin> ns_name u ` set svcs" for name
    unfolding s_def by (simp only: run_names[OF api_with_inv] api_with_names)
  show ?thesis
  proof (cases "called u req")
    case None
    then show ?thesis
      unfolding s_def[symmetric] Let_def
      by (simp add: service_at_def[abs_def]
          other_requests[OF None, where try_send = try_send and ?as_f64.0 = as_f64 and s = s])
  next
    case (Some nf)
    obtain name f where nf: "nf = (name, f)" by (cases nf)
    show ?thesis
      unfolding s_def[symmetric] Let_def
      using service_request[OF inv Some[unfolded nf], of try_send as_f64] names[of name] Some nf
      by (cases "service_at s name") simp_all
  qed
qed

section \<open>From a posted event to the engine\<close>

text \<open>A send that is accepted puts the event at the end; one that is not leaves the channel alone.\<close>

definition queue_send ::
  "('e \<Rightarrow> 'ch \<Rightarrow> 'e try_send_outcome \<times> 'ch) \<Rightarrow> ('ch \<Rightarrow> 'e list) \<Rightarrow> bool" where
  "queue_send try_send contents \<longleftrightarrow>
     (\<forall>ev ch. case try_send ev ch of
        (Sent, ch') \<Rightarrow> contents ch' = contents ch @ [ev]
      | (_, ch') \<Rightarrow> contents ch' = contents ch)"

lemma queue_sendD:
  assumes "queue_send try_send contents" "try_send ev ch = (outcome, ch')"
  shows "contents ch' = contents ch @ (if outcome = Sent then [ev] else [])"
proof -
  have "case try_send ev ch of
      (Sent, ch') \<Rightarrow> contents ch' = contents ch @ [ev] | (_, ch') \<Rightarrow> contents ch' = contents ch"
    using assms(1) by (simp add: queue_send_def)
  then show ?thesis using assms(2) by (cases outcome) simp_all
qed

fun post_all ::
  "('j engine_event \<Rightarrow> 'ch \<Rightarrow> 'j engine_event try_send_outcome \<times> 'ch) \<Rightarrow> ('j \<Rightarrow> f64 option) \<Rightarrow> 'j event_request list
   \<Rightarrow> ('n, 'ch) api_state \<Rightarrow> response list \<times> ('n, 'ch) api_state" where
  "post_all try_send as_f64 [] s = ([], s)"
| "post_all try_send as_f64 (req # reqs) s =
     (case post_event try_send as_f64 req s of
        (r, s1) \<Rightarrow> (case post_all try_send as_f64 reqs s1 of (rs, s2) \<Rightarrow> (r # rs, s2)))"

text \<open>The requests that were answered 200.\<close>

definition accepted_requests :: "'j event_request list \<Rightarrow> response list \<Rightarrow> 'j event_request list" where
  "accepted_requests reqs rs = map fst (filter (\<lambda>(req, r). rs_status r = HTTP_OK) (zip reqs rs))"

lemma post_event_queue:
  assumes "queue_send try_send contents" "as_event_tx s = Some ch"
  shows "\<exists>ch'. as_event_tx (snd (post_event try_send as_f64 req s)) = Some ch' \<and>
    contents ch' = contents ch @ (if rs_status (fst (post_event try_send as_f64 req s)) = HTTP_OK then [event_of as_f64 req] else [])"
proof -
  obtain outcome ch' where r: "try_send (event_of as_f64 req) ch = (outcome, ch')" by (meson surj_pair)
  show ?thesis
    using queue_sendD[OF assms(1) r] r assms(2)
    by (cases outcome) (simp_all add: post_event_def unavailable_def)
qed

lemma post_all_queue:
  "queue_send try_send contents \<Longrightarrow> as_event_tx s = Some ch \<Longrightarrow>
   \<exists>ch'. as_event_tx (snd (post_all try_send as_f64 reqs s)) = Some ch' \<and>
     contents ch' = contents ch @ map (event_of as_f64) (accepted_requests reqs (fst (post_all try_send as_f64 reqs s)))"
proof (induction reqs arbitrary: s ch)
  case Nil
  then show ?case by (simp add: accepted_requests_def)
next
  case (Cons req reqs)
  obtain r s1 where r: "post_event try_send as_f64 req s = (r, s1)" by (meson surj_pair)
  obtain rs s2 where rs: "post_all try_send as_f64 reqs s1 = (rs, s2)" by (meson surj_pair)
  obtain ch1 where ch1: "as_event_tx s1 = Some ch1"
      "contents ch1 = contents ch @ (if rs_status r = HTTP_OK then [event_of as_f64 req] else [])"
    using post_event_queue[OF Cons.prems, of as_f64 req] r by auto
  from Cons.IH[OF Cons.prems(1) ch1(1)] obtain ch2 where "as_event_tx s2 = Some ch2"
      "contents ch2 = contents ch1 @ map (event_of as_f64) (accepted_requests reqs rs)"
    using rs by auto
  then show ?case using r rs ch1(2) by (simp add: accepted_requests_def)
qed

text \<open>
  C27. Events posted over HTTP reach the engine: on a first in, first out channel, exactly those answered
  200 are queued, in order, and the next drain of the engine leaves the speed at the last of their
  \<open>SetSpeed\<close> values. A \<open>SetSpeed\<close> whose payload is not a number counts too: it sets the speed to zero.
\<close>

theorem posted_events_set_the_speed:
  assumes "queue_send try_send contents" and "fifo_channel try_recv contents" and "as_event_tx s = Some ch"
  shows "let (rs, s') = post_all try_send as_f64 reqs s;
             events = contents ch @ map (event_of as_f64) (accepted_requests reqs rs)
    in \<exists>ch' ctx. as_event_tx s' = Some ch' \<and>
       process_events (Suc (length events)) try_recv \<lparr>ctx_props = p, ctx_events = ch'\<rparr> = Some ctx \<and>
       contents (ctx_events ctx) = [] \<and> get_speed (ctx_props ctx) = speed_after events (get_speed p)"
proof -
  obtain rs s' where rs: "post_all try_send as_f64 reqs s = (rs, s')" by (meson surj_pair)
  obtain ch' where ch': "as_event_tx s' = Some ch'"
      "contents ch' = contents ch @ map (event_of as_f64) (accepted_requests reqs rs)"
    using post_all_queue[OF assms(1,3), of as_f64 reqs] rs by auto
  show ?thesis
    using process_events_spec[OF assms(2), of "\<lparr>ctx_props = p, ctx_events = ch'\<rparr>" "Suc (length (contents ch'))"] ch'
    unfolding rs by (simp add: Let_def del: process_events.simps)
qed

text \<open>A channel with room for two events, and JSON values that are numbers or not.\<close>

definition two_slots :: "'e \<Rightarrow> 'e list \<Rightarrow> 'e try_send_outcome \<times> 'e list" where
  "two_slots ev q = (if length q < 2 then (Sent, q @ [ev]) else (SendFull ev, q))"

definition pop_front :: "'e list \<Rightarrow> 'e option \<times> 'e list" where
  "pop_front q = (case q of [] \<Rightarrow> (None, []) | e # es \<Rightarrow> (Some e, es))"

definition posted :: "f64 option event_request list" where
  "posted =
     [\<lparr>er_kind = ''SetSpeed'', er_payload = Some (f64_lit 5 1)\<rparr>, \<lparr>er_kind = ''SetSpeed'', er_payload = None\<rparr>,
      \<lparr>er_kind = ''SetSpeed'', er_payload = Some (f64_lit 7 0)\<rparr>]"

theorem posted_events_set_the_speed_witness:
  "map rs_status (fst (post_all two_slots id posted (with_event_tx [] (api_state_new :: (unit, _) api_state)))) = [200, 200, 503] \<and>
   (\<exists>ctx. process_events 3 pop_front \<lparr>ctx_props = properties_new,
        ctx_events = the (as_event_tx (snd (post_all two_slots id posted (with_event_tx [] (api_state_new :: (unit, _) api_state)))))\<rparr>
        = Some ctx \<and> get_speed (ctx_props ctx) = f64_zero False)"
proof -
  let ?s = "with_event_tx [] api_state_new :: (unit, f64 option engine_event list) api_state"
  have laws: "queue_send two_slots (\<lambda>q :: f64 option engine_event list. q)"
      "fifo_channel pop_front (\<lambda>q :: f64 option engine_event list. q)"
    by (auto simp: queue_send_def two_slots_def fifo_channel_def pop_front_def split: list.splits)
  have "as_event_tx ?s = Some []" by (simp add: with_event_tx_def)
  from posted_events_set_the_speed[OF laws this, of id posted properties_new] show ?thesis
    by (simp add: posted_def two_slots_def post_event_def event_of_def with_event_tx_def api_state_new_def
        unavailable_def accepted_requests_def numeral_3_eq_3 Let_def del: process_events.simps) blast
qed

section \<open>The server task\<close>

text \<open>Only the server of the last start may be without its signal, and only while the service runs.\<close>

definition rest_inv :: "'addr rest_world \<Rightarrow> bool" where
  "rest_inv w \<longleftrightarrow>
     (\<forall>i < length (rw_servers w). sv_signalled (rw_servers w ! i) \<or>
        rest_health_check w \<and> ra_shutdown_tx (rw_service w) = Some (Some i)) \<and>
     (\<forall>i. ra_shutdown_tx (rw_service w) = Some (Some i) \<longrightarrow> i < length (rw_servers w))"

lemma rest_inv_step:
  assumes "rest_inv w" "rest_step parse e w = Some w'"
  shows "rest_inv w'"
proof (cases e)
  case (RestStart now)
  show ?thesis
  proof (cases "rest_health_check w")
    case True
    then show ?thesis using assms RestStart by (simp add: rest_start_def rest_health_check_def)
  next
    case False
    then show ?thesis
      using assms RestStart
      by (auto simp: rest_start_def rest_inv_def rest_health_check_def Let_def nth_append less_Suc_eq split: sum.splits)
  qed
next
  case RestStop
  then show ?thesis
    using assms
    by (auto simp: rest_stop_def rest_inv_def rest_health_check_def Let_def nth_list_update
        split: if_splits option.splits)
next
  case (ServerTurn i bound)
  then obtain t where t: "i < length (rw_servers w)" "server_turn bound (rw_servers w ! i) = Some t"
      "w' = w\<lparr>rw_servers := (rw_servers w)[i := t]\<rparr>"
    using assms(2) by (auto split: if_splits)
  have "sv_signalled t = sv_signalled (rw_servers w ! i)"
    using t(2) by (auto simp: server_turn_def split: server_phase.splits if_splits)
  then show ?thesis
    using assms(1) t(1,3) by (auto simp: rest_inv_def rest_health_check_def nth_list_update)
qed

lemma rest_inv_run: "rest_inv w \<Longrightarrow> rest_run parse es w = Some w' \<Longrightarrow> rest_inv w'"
proof (induction es arbitrary: w)
  case (Cons e es)
  then obtain w1 where "rest_step parse e w = Some w1" "rest_run parse es w1 = Some w'" by (auto split: option.splits)
  then show ?case using Cons rest_inv_step by blast
qed simp

lemma rest_inv_new: "rest_inv (rest_world_new addr)"
  by (simp add: rest_inv_def rest_world_new_def rest_service_new_def)

lemma filter_at_most_one: "\<forall>i < length xs. P (xs ! i) \<longrightarrow> i = k \<Longrightarrow> length (filter P xs) \<le> 1"
proof -
  assume at: "\<forall>i < length xs. P (xs ! i) \<longrightarrow> i = k"
  have "{i. i < length xs \<and> P (xs ! i)} \<subseteq> {k}" using at by auto
  then have "card {i. i < length xs \<and> P (xs ! i)} \<le> card {k}" by (intro card_mono) simp_all
  then show ?thesis by (simp add: length_filter_conv_card)
qed

text \<open>
  Over any starts, stops and turns of the server tasks, whatever the addresses and binds answer, at
  most one server is up that was not told to shut down, and only while the service says it runs.
\<close>

theorem at_most_one_server:
  assumes "rest_run parse es (rest_world_new addr) = Some w"
  shows "live_servers w \<le> (if rest_health_check w then 1 else 0)"
proof -
  have inv: "rest_inv w" using rest_inv_run[OF rest_inv_new assms] .
  show ?thesis
  proof (cases "rest_health_check w")
    case True
    obtain k where "\<forall>i < length (rw_servers w). sv_signalled (rw_servers w ! i) \<or> i = k"
      using inv by (metis rest_inv_def option.inject)
    then have "live_servers w \<le> 1" unfolding live_servers_def by (intro filter_at_most_one[of _ _ k]) auto
    then show ?thesis using True by simp
  next
    case False
    then have "\<forall>t \<in> set (rw_servers w). sv_signalled t" using inv by (auto simp: rest_inv_def in_set_conv_nth)
    then show ?thesis by (simp add: live_servers_def)
  qed
qed

theorem at_most_one_server_witness:
  "\<exists>w. rest_run (\<lambda>a. Ok a) [RestStart 0, ServerTurn 0 True, RestStop, RestStart 1, ServerTurn 1 True] (rest_world_new ''x'') = Some w \<and>
     length (rw_servers w) = 2 \<and> live_servers w \<le> 1"
proof -
  let ?es = "[RestStart 0, ServerTurn 0 True, RestStop, RestStart 1, ServerTurn 1 True]"
  have "\<exists>w. rest_run (\<lambda>a. Ok a) ?es (rest_world_new ''x'') = Some w \<and> length (rw_servers w) = 2 \<and> rest_health_check w"
    by (simp add: rest_start_def rest_stop_def server_turn_def rest_world_new_def rest_service_new_def
        service_status_new_def rest_health_check_def Let_def)
  then obtain w where w: "rest_run (\<lambda>a. Ok a) ?es (rest_world_new ''x'') = Some w" "length (rw_servers w) = 2" "rest_health_check w"
    by (elim exE conjE)
  have "live_servers w \<le> 1" using at_most_one_server[OF w(1)] w(3) by simp
  with w(1,2) show ?thesis by (intro exI conjI)
qed

text \<open>
  \<open>start\<close> answers success before the address is bound. When the bind fails the server task dies, yet
  the service goes on saying that it runs and is healthy, and refuses every further start until it
  is stopped; no stop or start it answers reports the failure.
\<close>

theorem healthy_without_server:
  assumes "parse addr = Ok a"
  shows "\<exists>w. rest_run parse [RestStart now, ServerTurn 0 False] (rest_world_new addr) = Some w \<and>
     fst (rest_start parse now (rest_world_new addr)) = Ok () \<and>
     rest_health_check w \<and> live_servers w = 0 \<and> rest_start parse now' w = (Err AlreadyRunning, w) \<and> fst (rest_stop w) = Ok ()"
  using assms
  by (simp add: rest_start_def rest_stop_def server_turn_def rest_world_new_def rest_service_new_def
      service_status_new_def rest_health_check_def live_servers_def Let_def)

theorem healthy_without_server_witness:
  "\<exists>w. rest_run (\<lambda>a. Ok a) [RestStart 0, ServerTurn 0 False] (rest_world_new ''0.0.0.0:80'') = Some w \<and>
     rest_health_check w \<and> live_servers w = 0"
  using healthy_without_server[of "\<lambda>a. Ok a" "''0.0.0.0:80''" "''0.0.0.0:80''" 0] by blast

end
