(* ===== verification/Gateway_Types.thy ===== *)
theory Gateway_Types
  imports Rust_Str Float64
begin

text \<open>
  \<open>gateway_old/mqtt/src/models\<close>: the wire schema (\<open>types.rs\<close>), the events (\<open>events.rs\<close>), the commands
  (\<open>commands.rs\<close>) and the last known properties (\<open>properties/\<close>). A timestamp is a \<open>DateTime<Utc>\<close>; bytes
  are characters.
\<close>

section \<open>The wire schema\<close>

definition EVENT_SCHEMA_V1 :: string where
  "EVENT_SCHEMA_V1 = ''ft.events.v1''"

datatype severity = SevInfo | SevWarning | SevError | SevCritical

definition severity_default :: severity where
  "severity_default = SevInfo"

record source_info =
  si_machine_id :: string
  si_line :: "string option"
  si_station :: "string option"

record machine_failure_data =
  mf_component :: string
  mf_failure_code :: "string option"
  mf_severity :: severity
  mf_message :: "string option"

record counter_deviation_data =
  cdv_counter_name :: string
  cdv_expected :: i64
  cdv_actual :: i64
  cdv_tolerance :: "i64 option"
  cdv_severity :: severity
  cdv_message :: "string option"

datatype wire_event =
    WireMachineFailure machine_failure_data
  | WireCounterDeviation counter_deviation_data

record event_envelope =
  ee_schema :: string
  ee_id :: "string option"
  ee_ts :: timestamp
  ee_source :: source_info
  ee_event :: wire_event

datatype wire_event_payload = OneEvent event_envelope | ManyEvents "event_envelope list"

fun into_vec :: "wire_event_payload \<Rightarrow> event_envelope list" where
  "into_vec (OneEvent e) = [e]"
| "into_vec (ManyEvents v) = v"

record mqtt_message =
  mm_topic :: string
  mm_payload :: string

datatype qos = AtMostOnce | AtLeastOnce | ExactlyOnce

record mqtt_publish =
  mp_topic :: string
  mp_payload :: string
  mp_retain :: bool
  mp_qos :: qos

section \<open>Events\<close>

datatype gw_value = Number f64 "string option" | Text string | UnknownValue

record telemetry_event =
  te_topic :: string
  te_data_raw :: string
  te_value :: gw_value
  te_ts :: timestamp
  te_source_mqtt_topic :: string

record machine_failure_event =
  me_machine_id :: string
  me_component :: string
  me_failure_code :: "string option"
  me_severity :: severity
  me_message :: "string option"
  me_ts :: timestamp

record counter_deviation_event =
  ce_machine_id :: string
  ce_counter_name :: string
  ce_expected :: i64
  ce_actual :: i64
  ce_tolerance :: "i64 option"
  ce_severity :: severity
  ce_message :: "string option"
  ce_ts :: timestamp

datatype gateway_event =
    Telemetry telemetry_event
  | MachineFailure machine_failure_event
  | CounterDeviation counter_deviation_event

section \<open>Commands\<close>

datatype gw_command = ResetMachine string | SetConveyorSpeed string f64

fun command_kind :: "gw_command \<Rightarrow> string" where
  "command_kind (ResetMachine m) = ''reset_machine''"
| "command_kind (SetConveyorSpeed c v) = ''set_conveyor_speed''"

record command_envelope =
  cm_kind :: string
  cm_ts :: timestamp
  cm_data :: gw_command

text \<open>\<open>trim_start_matches(c)\<close>, \<open>trim_end_matches(c)\<close> and \<open>trim_matches(c)\<close> for a character.\<close>

definition trim_start_char :: "char \<Rightarrow> string \<Rightarrow> string" where
  "trim_start_char c s = dropWhile (\<lambda>x. x = c) s"

definition trim_end_char :: "char \<Rightarrow> string \<Rightarrow> string" where
  "trim_end_char c s = rev (dropWhile (\<lambda>x. x = c) (rev s))"

definition trim_char :: "char \<Rightarrow> string \<Rightarrow> string" where
  "trim_char c s = trim_end_char c (trim_start_char c s)"

text \<open>\<open>to_vec\<close> is \<open>serde_json::to_vec\<close> on an envelope, whose \<open>data\<close> is the struct inside the command.\<close>

definition to_mqtt ::
  "(command_envelope \<Rightarrow> (string, string) result) \<Rightarrow> timestamp \<Rightarrow> string \<Rightarrow> gw_command \<Rightarrow> (string, mqtt_publish) result" where
  "to_mqtt to_vec now command_prefix cmd =
     (let topic_suffix = (case cmd of ResetMachine m \<Rightarrow> ''reset_machine'' | SetConveyorSpeed c v \<Rightarrow> ''set_conveyor_speed'')
      in case to_vec \<lparr>cm_kind = command_kind cmd, cm_ts = now, cm_data = cmd\<rparr> of
           Inl e \<Rightarrow> Err e
         | Inr payload \<Rightarrow>
             Ok \<lparr>mp_topic = trim_end_char CHR ''/'' command_prefix @ ''/'' @ topic_suffix, mp_payload = payload,
                 mp_retain = False, mp_qos = AtLeastOnce\<rparr>)"

section \<open>Properties\<close>

text \<open>\<open>PositionState\<close> and \<open>SpeedState\<close> have the same fields.\<close>

record gw_property_state =
  ps_value :: f64
  ps_unit :: "string option"
  ps_ts :: timestamp

type_synonym gw_property = "string \<rightharpoonup> gw_property_state"

text \<open>The asset of a topic, and whether its last segment is one of the names of the property.\<close>

definition split_asset_and_prop :: "string list \<Rightarrow> string \<Rightarrow> string \<times> bool" where
  "split_asset_and_prop names topic =
     (let t = trim topic
      in case rsplit_once CHR ''/'' t of
           Some (asset, prop) \<Rightarrow> (asset, to_ascii_lowercase prop \<in> set names)
         | None \<Rightarrow> (t, False))"

definition update_from_telemetry :: "string list \<Rightarrow> telemetry_event \<Rightarrow> gw_property \<Rightarrow> gw_property" where
  "update_from_telemetry names t p =
     (case split_asset_and_prop names (te_topic t) of
        (asset, matches) \<Rightarrow>
          (if \<not> matches then p
           else
             (case te_value t of
                Number v unit \<Rightarrow> p(asset \<mapsto> \<lparr>ps_value = v, ps_unit = unit, ps_ts = te_ts t\<rparr>)
              | _ \<Rightarrow> p)))"

definition position_update :: "telemetry_event \<Rightarrow> gw_property \<Rightarrow> gw_property" where
  "position_update = update_from_telemetry [''position'', ''pos'']"

definition speed_update :: "telemetry_event \<Rightarrow> gw_property \<Rightarrow> gw_property" where
  "speed_update = update_from_telemetry [''speed'', ''rpm'']"

definition set_manual :: "timestamp \<Rightarrow> string \<Rightarrow> f64 \<Rightarrow> string option \<Rightarrow> gw_property \<Rightarrow> gw_property" where
  "set_manual now asset v unit p = p(asset \<mapsto> \<lparr>ps_value = v, ps_unit = unit, ps_ts = now\<rparr>)"

definition property_get :: "gw_property \<Rightarrow> string \<Rightarrow> gw_property_state option" where
  "property_get p asset = p asset"

text \<open>\<open>order\<close>: the keys in the order in which the iterator of the hash map produced them.\<close>

definition property_ids :: "string list \<Rightarrow> gw_property \<Rightarrow> string list" where
  "property_ids order p = filter (\<lambda>k. p k \<noteq> None) order"

definition set_target_speed_cmd :: "string \<Rightarrow> f64 \<Rightarrow> gw_command" where
  "set_target_speed_cmd conveyor_id v = SetConveyorSpeed conveyor_id v"

record property_model =
  pm_position :: gw_property
  pm_speed :: gw_property

definition property_model_default :: property_model where
  "property_model_default = \<lparr>pm_position = Map.empty, pm_speed = Map.empty\<rparr>"

definition apply_telemetry :: "telemetry_event \<Rightarrow> property_model \<Rightarrow> property_model" where
  "apply_telemetry t pm =
     \<lparr>pm_position = position_update t (pm_position pm), pm_speed = speed_update t (pm_speed pm)\<rparr>"

end
