(* ===== verification/Gateway_Parser.thy ===== *)
theory Gateway_Parser
  imports Gateway_Types
begin

text \<open>
  \<open>gateway_old/mqtt/src/models/parser.rs\<close>: telemetry as JSON, as a list of tuples in an ad hoc notation,
  or as a bare value. \<open>serde_json\<close>, \<open>chrono\<close> and the Unicode tables of \<open>regex\<close> are parameters.
\<close>

section \<open>What is not under the sources\<close>

text \<open>
  A JSON value is \<open>'j\<close>, with the accessors the parser calls. \<open>chrono\<close> reads RFC 3339 dates and seconds
  since the epoch. \<open>uni_digit\<close> is the length in bytes of the non-ASCII decimal digit at the front of a
  string, 0 if there is none (the class \<open>\d\<close> beyond ASCII).
\<close>

record 'j json_api =
  ja_parse :: "string \<Rightarrow> 'j option"
  ja_as_str :: "'j \<Rightarrow> string option"
  ja_is_object :: "'j \<Rightarrow> bool"
  ja_get :: "'j \<Rightarrow> string \<Rightarrow> 'j option"
  ja_to_string :: "'j \<Rightarrow> string"

record chrono_api =
  ch_rfc3339 :: "string \<Rightarrow> timestamp option"
  ch_from_timestamp :: "int \<Rightarrow> timestamp option"

section \<open>Numbers\<close>

definition digit_val :: "char \<Rightarrow> nat" where
  "digit_val c = code c - 48"

definition digits_val :: "string \<Rightarrow> nat" where
  "digits_val s = foldl (\<lambda>n c. 10 * n + digit_val c) 0 s"

text \<open>\<open>str::parse::<i64>\<close>.\<close>

definition parse_i64 :: "string \<Rightarrow> int option" where
  "parse_i64 s =
     (let neg = (case s of c # _ \<Rightarrow> c = CHR ''-'' | [] \<Rightarrow> False);
          ds = (case s of c # cs \<Rightarrow> if c = CHR ''-'' \<or> c = CHR ''+'' then cs else s | [] \<Rightarrow> []);
          n = (if neg then - int (digits_val ds) else int (digits_val ds))
      in if ds = [] \<or> \<not> list_all is_ascii_digit ds then None
         else if - (2 ^ 63) \<le> n \<and> n < 2 ^ 63 then Some n else None)"

text \<open>The \<open>f64\<close> nearest to \<open>n / d\<close>; the quotient is taken to at least 55 bits with a bit for the remainder.\<close>

definition f64_ratio :: "bool \<Rightarrow> nat \<Rightarrow> nat \<Rightarrow> f64" where
  "f64_ratio s n d =
     (if n = 0 then f64_zero s
      else
        let k = bit_length d + 55; m = n * 2 ^ k;
            q = 2 * (m div d) + (if m mod d = 0 then 0 else 1)
        in f64_round s q (- int k - 1))"

text \<open>
  \<open>str::parse::<f64>\<close> on what the regular expression matches: an optional sign, digits and an optional
  fraction. A digit that is not ASCII makes it fail.
\<close>

definition parse_decimal :: "string \<Rightarrow> f64 option" where
  "parse_decimal s =
     (let neg = (case s of c # _ \<Rightarrow> c = CHR ''-'' | [] \<Rightarrow> False);
          r = (case s of c # cs \<Rightarrow> if c = CHR ''-'' \<or> c = CHR ''+'' then cs else s | [] \<Rightarrow> []);
          (ip, fp) = (case split_once CHR ''.'' r of Some (a, b) \<Rightarrow> (a, b) | None \<Rightarrow> (r, []))
      in if list_all is_ascii_digit (ip @ fp) \<and> ip @ fp \<noteq> []
         then Some (f64_ratio neg (digits_val (ip @ fp)) (10 ^ length fp)) else None)"

section \<open>A value and its unit\<close>

text \<open>
  The expression \<open>^\s*([+-]?\d+(?:[.,]\d+)?)\s*([^\d\s].*)?\s*$\<close> on a trimmed string: the sign and the
  digits are taken greedily; a fraction is taken if the rest then matches, and given back otherwise.
\<close>

definition digit_front :: "(string \<Rightarrow> nat) \<Rightarrow> string \<Rightarrow> nat" where
  "digit_front uni_digit s =
     (case s of [] \<Rightarrow> 0 | c # _ \<Rightarrow> if is_ascii_digit c then 1 else if 128 \<le> code c then uni_digit s else 0)"

function span_digits :: "(string \<Rightarrow> nat) \<Rightarrow> string \<Rightarrow> string \<times> string" where
  "span_digits uni_digit s =
     (let n = digit_front uni_digit s
      in if n = 0 \<or> s = [] then ([], s)
         else (case span_digits uni_digit (drop n s) of (a, b) \<Rightarrow> (take n s @ a, b)))"
  by pat_completeness auto
termination by (relation "measure (length \<circ> snd)") auto

declare span_digits.simps [simp del]

text \<open>What may follow the number: white space and then nothing or a unit. \<open>.\<close> matches no line feed.\<close>

definition unit_tail :: "(string \<Rightarrow> nat) \<Rightarrow> string \<Rightarrow> string option option" where
  "unit_tail uni_digit r =
     (let u = trim_start r
      in if u = [] then Some None
         else if digit_front uni_digit u = 0 \<and> CHR 0x0A \<notin> set u then Some (Some u) else None)"

definition match_number :: "(string \<Rightarrow> nat) \<Rightarrow> string \<Rightarrow> (string \<times> string option) option" where
  "match_number uni_digit s =
     (let sign = (case s of c # _ \<Rightarrow> if c = CHR ''+'' \<or> c = CHR ''-'' then [c] else [] | [] \<Rightarrow> []);
          (ds, r1) = span_digits uni_digit (drop (length sign) s);
          whole = (case unit_tail uni_digit r1 of None \<Rightarrow> None | Some u \<Rightarrow> Some (sign @ ds, u))
      in if ds = [] then None
         else
           (case r1 of
              c # r2 \<Rightarrow>
                if c = CHR ''.'' \<or> c = CHR '','' then
                  (case span_digits uni_digit r2 of
                     (fs, r3) \<Rightarrow>
                       if fs = [] then whole
                       else (case unit_tail uni_digit r3 of None \<Rightarrow> whole | Some u \<Rightarrow> Some (sign @ ds @ c # fs, u)))
                else whole
            | [] \<Rightarrow> whole))"

definition parse_value_and_unit :: "(string \<Rightarrow> nat) \<Rightarrow> string \<Rightarrow> f64 option \<times> string option" where
  "parse_value_and_unit uni_digit data_raw =
     (case match_number uni_digit (trim data_raw) of
        Some (num, unit) \<Rightarrow>
          (parse_decimal (map (\<lambda>c. if c = CHR '','' then CHR ''.'' else c) num),
           (case unit of
              None \<Rightarrow> None
            | Some u \<Rightarrow> (let v = trim u in if v = [] then None else Some v)))
      | None \<Rightarrow> (None, None))"

section \<open>Dates\<close>

definition quote_char :: char where "quote_char = CHR 0x22"

definition parse_datetime :: "chrono_api \<Rightarrow> timestamp \<Rightarrow> string \<Rightarrow> timestamp" where
  "parse_datetime C now s =
     (let t = trim_char quote_char (trim s)
      in if to_ascii_lowercase t = ''now'' \<or> t = [] then now
         else
           (case ch_rfc3339 C t of
              Some dt \<Rightarrow> dt
            | None \<Rightarrow>
                (case Option.bind (parse_i64 t) (ch_from_timestamp C) of Some dt \<Rightarrow> dt | None \<Rightarrow> now)))"

section \<open>Samples\<close>

record parsed_sample =
  sp_topic :: string
  sp_data_raw :: string
  sp_ts :: timestamp

text \<open>
  \<open>JsonPayload\<close> is an untagged enumeration: \<open>serde\<close> tries its variants in their order, and the first, a
  \<open>serde_json::Value\<close>, takes every JSON text. \<open>now\<close> is the clock, read once for a message.
\<close>

datatype 'j json_payload = PayloadObj 'j | PayloadArr "'j list"

definition payload_from_str :: "'j json_api \<Rightarrow> string \<Rightarrow> 'j json_payload option" where
  "payload_from_str J t = map_option PayloadObj (ja_parse J t)"

definition obj_to_sample :: "'j json_api \<Rightarrow> chrono_api \<Rightarrow> timestamp \<Rightarrow> string \<Rightarrow> 'j \<Rightarrow> parsed_sample option" where
  "obj_to_sample J C now mqtt_topic obj =
     (let logical_topic = (case Option.bind (ja_get J obj ''topic'') (ja_as_str J) of Some s \<Rightarrow> s | None \<Rightarrow> mqtt_topic);
          data = (case ja_get J obj ''data'' of Some v \<Rightarrow> Some v | None \<Rightarrow> ja_get J obj ''value'');
          date = (case ja_get J obj ''datetime'' of Some v \<Rightarrow> Some v | None \<Rightarrow> ja_get J obj ''ts'');
          ts = (case Option.bind date (ja_as_str J) of Some s \<Rightarrow> parse_datetime C now s | None \<Rightarrow> now)
      in case data of
           None \<Rightarrow> None
         | Some v \<Rightarrow>
             Some \<lparr>sp_topic = logical_topic,
                   sp_data_raw = (case ja_as_str J v of Some s \<Rightarrow> s | None \<Rightarrow> ja_to_string J v), sp_ts = ts\<rparr>)"

definition parse_json_payload ::
  "'j json_api \<Rightarrow> chrono_api \<Rightarrow> timestamp \<Rightarrow> string \<Rightarrow> 'j json_payload \<Rightarrow> parsed_sample list" where
  "parse_json_payload J C now mqtt_topic p =
     (case p of
        PayloadObj v \<Rightarrow>
          (case ja_as_str J v of
             Some s \<Rightarrow> [\<lparr>sp_topic = mqtt_topic, sp_data_raw = s, sp_ts = now\<rparr>]
           | None \<Rightarrow>
               if ja_is_object J v
               then (case obj_to_sample J C now mqtt_topic v of None \<Rightarrow> [] | Some s \<Rightarrow> [s])
               else [])
      | PayloadArr vs \<Rightarrow> List.map_filter (obj_to_sample J C now mqtt_topic) vs)"

section \<open>The tuple notation\<close>

text \<open>\<open>split("),")\<close>.\<close>

fun split_items :: "string \<Rightarrow> string list" where
  "split_items [] = [[]]"
| "split_items [x] = [[x]]"
| "split_items (x # y # zs) =
     (if x = CHR '')'' \<and> y = CHR '','' then [] # split_items zs
      else (case split_items (y # zs) of [] \<Rightarrow> [[x]] | p # ps \<Rightarrow> (x # p) # ps))"

record tuple_fields =
  tf_topic :: "string option"
  tf_data :: "string option"
  tf_datetime :: "string option"

text \<open>
  One \<open>key: value\<close> part. No character outside ASCII lowers to one of the letters of the keys, so the
  comparison of the lowered key is that of its ASCII lowering.
\<close>

definition tuple_part :: "string \<Rightarrow> tuple_fields \<Rightarrow> tuple_fields" where
  "tuple_part part f =
     (let p = trim part;
          (key, val) = (case split_once CHR '':'' p of Some (a, b) \<Rightarrow> (a, b) | None \<Rightarrow> (p, []));
          k = to_ascii_lowercase (trim key);
          v = trim_char quote_char (trim val)
      in if k = ''topic'' then f\<lparr>tf_topic := Some v\<rparr>
         else if k = ''data'' \<or> k = ''value'' then f\<lparr>tf_data := Some v\<rparr>
         else if k = ''datetime'' \<or> k = ''ts'' \<or> k = ''time'' then f\<lparr>tf_datetime := Some v\<rparr>
         else f)"

definition tuple_sample :: "chrono_api \<Rightarrow> timestamp \<Rightarrow> string \<Rightarrow> string \<Rightarrow> parsed_sample option" where
  "tuple_sample C now mqtt_topic item =
     (let x = trim (trim_end_char CHR '')'' (trim_start_char CHR ''('' (trim item)));
          f = fold tuple_part (split_char CHR '','' x) \<lparr>tf_topic = None, tf_data = None, tf_datetime = None\<rparr>
      in if x = [] then None
         else
           (case tf_data f of
              Some d \<Rightarrow>
                if d = [] then None
                else Some \<lparr>sp_topic = (case tf_topic f of Some t \<Rightarrow> t | None \<Rightarrow> mqtt_topic), sp_data_raw = d,
                           sp_ts = (case tf_datetime f of Some s \<Rightarrow> parse_datetime C now s | None \<Rightarrow> now)\<rparr>
            | None \<Rightarrow> None))"

definition starts_with :: "char \<Rightarrow> string \<Rightarrow> bool" where
  "starts_with c s \<longleftrightarrow> (case s of x # _ \<Rightarrow> x = c | [] \<Rightarrow> False)"

definition ends_with :: "char \<Rightarrow> string \<Rightarrow> bool" where
  "ends_with c s \<longleftrightarrow> s \<noteq> [] \<and> last s = c"

definition parse_custom_tuple_list :: "chrono_api \<Rightarrow> timestamp \<Rightarrow> string \<Rightarrow> string \<Rightarrow> parsed_sample list" where
  "parse_custom_tuple_list C now mqtt_topic t =
     (let s0 = trim t;
          s = (if starts_with CHR ''{'' s0 \<and> ends_with CHR ''}'' s0 then trim (butlast (tl s0)) else s0);
          items = filter (\<lambda>x. x \<noteq> []) (map (\<lambda>x. trim (trim_end_char CHR '')'' (trim x))) (split_items s))
      in List.map_filter (tuple_sample C now mqtt_topic) items)"

definition parse_payload ::
  "'j json_api \<Rightarrow> chrono_api \<Rightarrow> timestamp \<Rightarrow> string \<Rightarrow> string \<Rightarrow> parsed_sample list" where
  "parse_payload J C now mqtt_topic text =
     (let t = trim text
      in if t = [] then []
         else
           (let json = (if starts_with CHR ''{'' t \<or> starts_with CHR ''['' t \<or>
                            starts_with quote_char t \<and> ends_with quote_char t
                        then (case payload_from_str J t of
                                Some p \<Rightarrow> Some p
                              | None \<Rightarrow> map_option PayloadObj (ja_parse J t))
                        else None)
            in case json of
                 Some p \<Rightarrow> parse_json_payload J C now mqtt_topic p
               | None \<Rightarrow> parse_custom_tuple_list C now mqtt_topic t))"

end
