(* ===== verification/Gateway_Loop.thy ===== *)
theory Gateway_Loop
  imports Gateway_Parser
begin

text \<open>
  The rest of \<open>gateway_old/mqtt/src\<close>: decoding a message into events (\<open>upstreaminterface.rs\<close>), the MQTT
  client's side (\<open>downstreaminterface.rs\<close>), the start, stop and state of the task between them
  (\<open>gateway.rs\<close>) and the engine of \<open>bin/sampleengine.rs\<close> on the other end of its channels. The MQTT client
  (\<open>rumqttc\<close>) and the channels are parameters.
\<close>

section \<open>UTF-8\<close>

text \<open>The length of the well-formed UTF-8 character at the front of some bytes, 0 if there is none.\<close>

definition continuation :: "nat \<Rightarrow> bool" where
  "continuation b \<longleftrightarrow> 128 \<le> b \<and> b \<le> 191"

fun utf8_front :: "nat list \<Rightarrow> nat" where
  "utf8_front [] = 0"
| "utf8_front (a # bs) =
     (if a < 128 then 1
      else if 194 \<le> a \<and> a \<le> 223 then
        (case bs of b # _ \<Rightarrow> if continuation b then 2 else 0 | [] \<Rightarrow> 0)
      else if 224 \<le> a \<and> a \<le> 239 then
        (case bs of
           b # c # _ \<Rightarrow>
             if (if a = 224 then 160 else 128) \<le> b \<and> b \<le> (if a = 237 then 159 else 191) \<and> continuation c then 3 else 0
         | _ \<Rightarrow> 0)
      else if 240 \<le> a \<and> a \<le> 244 then
        (case bs of
           b # c # d # _ \<Rightarrow>
             if (if a = 240 then 144 else 128) \<le> b \<and> b \<le> (if a = 244 then 143 else 191) \<and> continuation c \<and> continuation d
             then 4 else 0
         | _ \<Rightarrow> 0)
      else 0)"

function from_utf8 :: "string \<Rightarrow> bool" where
  "from_utf8 s =
     (let n = utf8_front (map code s)
      in if s = [] then True else if n = 0 then False else from_utf8 (drop n s))"
  by pat_completeness auto
termination by (relation "measure length") auto

declare from_utf8.simps [simp del]

section \<open>Upstream: from messages to events\<close>

record upstream_config =
  uc_command_prefix :: string
  uc_structured_event_prefix :: "string option"

fun contains :: "string \<Rightarrow> string \<Rightarrow> bool" where
  "contains pat [] \<longleftrightarrow> pat = []"
| "contains pat (x # xs) \<longleftrightarrow> take (length pat) (x # xs) = pat \<or> contains pat xs"

definition should_try_structured :: "upstream_config \<Rightarrow> string \<Rightarrow> string \<Rightarrow> bool" where
  "should_try_structured cfg topic payload \<longleftrightarrow>
     (case uc_structured_event_prefix cfg of
        Some prefix \<Rightarrow> take (length prefix) topic = prefix
      | None \<Rightarrow>
          contains (quote_char # ''schema'' @ [quote_char]) payload \<and>
          contains (quote_char # ''event'' @ [quote_char]) payload \<and>
          contains (quote_char # ''kind'' @ [quote_char]) payload)"

definition map_envelope_to_event :: "event_envelope \<Rightarrow> gateway_event" where
  "map_envelope_to_event env =
     (case ee_event env of
        WireMachineFailure d \<Rightarrow>
          MachineFailure
            \<lparr>me_machine_id = si_machine_id (ee_source env), me_component = mf_component d,
             me_failure_code = mf_failure_code d, me_severity = mf_severity d, me_message = mf_message d,
             me_ts = ee_ts env\<rparr>
      | WireCounterDeviation d \<Rightarrow>
          CounterDeviation
            \<lparr>ce_machine_id = si_machine_id (ee_source env), ce_counter_name = cdv_counter_name d,
             ce_expected = cdv_expected d, ce_actual = cdv_actual d, ce_tolerance = cdv_tolerance d,
             ce_severity = cdv_severity d, ce_message = cdv_message d, ce_ts = ee_ts env\<rparr>)"

text \<open>What the decoder asks of the libraries: \<open>wire\<close> is \<open>serde_json::from_str::<WireEventPayload>\<close>.\<close>

record 'j decoders =
  dec_json :: "'j json_api"
  dec_chrono :: chrono_api
  dec_uni_digit :: "string \<Rightarrow> nat"
  dec_wire :: "string \<Rightarrow> wire_event_payload option"

definition decode_structured ::
  "'j decoders \<Rightarrow> upstream_config \<Rightarrow> mqtt_message \<Rightarrow> string \<Rightarrow> gateway_event list option" where
  "decode_structured D cfg msg payload =
     (if \<not> should_try_structured cfg (mm_topic msg) payload then None
      else
        (case dec_wire D payload of
           None \<Rightarrow> None
         | Some wire \<Rightarrow>
             (let out = map map_envelope_to_event (filter (\<lambda>env. ee_schema env = EVENT_SCHEMA_V1) (into_vec wire))
              in if out = [] then None else Some out)))"

definition telemetry_of_sample :: "'j decoders \<Rightarrow> string \<Rightarrow> parsed_sample \<Rightarrow> gateway_event" where
  "telemetry_of_sample D mqtt_topic s =
     (case parse_value_and_unit (dec_uni_digit D) (sp_data_raw s) of
        (num, unit) \<Rightarrow>
          Telemetry
            \<lparr>te_topic = sp_topic s, te_data_raw = sp_data_raw s,
             te_value = (case num of
                           Some v \<Rightarrow> Number v unit
                         | None \<Rightarrow> if trim (sp_data_raw s) \<noteq> [] then Text (sp_data_raw s) else UnknownValue),
             te_ts = sp_ts s, te_source_mqtt_topic = mqtt_topic\<rparr>)"

definition decode_events ::
  "'j decoders \<Rightarrow> upstream_config \<Rightarrow> timestamp \<Rightarrow> mqtt_message \<Rightarrow> gateway_event list" where
  "decode_events D cfg now msg =
     (if \<not> from_utf8 (mm_payload msg) then []
      else
        (case decode_structured D cfg msg (mm_payload msg) of
           Some evts \<Rightarrow> evts
         | None \<Rightarrow>
             map (telemetry_of_sample D (mm_topic msg))
               (parse_payload (dec_json D) (dec_chrono D) now (mm_topic msg) (mm_payload msg))))"

definition encode_command ::
  "(command_envelope \<Rightarrow> (string, string) result) \<Rightarrow> upstream_config \<Rightarrow> timestamp \<Rightarrow> gw_command
   \<Rightarrow> (string, mqtt_publish) result" where
  "encode_command to_vec cfg now cmd = to_mqtt to_vec now (uc_command_prefix cfg) cmd"

section \<open>Downstream: the MQTT client\<close>

record mqtt_downstream_config =
  dc_host :: string
  dc_port :: u16
  dc_client_id :: string
  dc_username :: "string option"
  dc_password :: "string option"
  dc_keep_alive_secs :: u64
  dc_subscribe_filter :: string

datatype rumqttc_qos = QoS_AtMostOnce | QoS_AtLeastOnce | QoS_ExactlyOnce

fun map_qos :: "qos \<Rightarrow> rumqttc_qos" where
  "map_qos AtMostOnce = QoS_AtMostOnce"
| "map_qos AtLeastOnce = QoS_AtLeastOnce"
| "map_qos ExactlyOnce = QoS_ExactlyOnce"

text \<open>The options \<open>connect\<close> passes on; credentials only when both are there.\<close>

record mqtt_options =
  mo_client_id :: string
  mo_host :: string
  mo_port :: u16
  mo_keep_alive :: duration
  mo_credentials :: "(string \<times> string) option"

definition downstream_options :: "mqtt_downstream_config \<Rightarrow> mqtt_options" where
  "downstream_options cfg =
     \<lparr>mo_client_id = dc_client_id cfg, mo_host = dc_host cfg, mo_port = dc_port cfg,
      mo_keep_alive = from_secs (unat (dc_keep_alive_secs cfg)),
      mo_credentials = (case (dc_username cfg, dc_password cfg) of (Some u, Some p) \<Rightarrow> Some (u, p) | _ \<Rightarrow> None)\<rparr>"

text \<open>
  The client's methods put a request into a bounded channel (\<open>AsyncClient::new(opts, 50)\<close>), from which only the
  event loop takes, and that runs only while it is polled: by \<open>recv\<close>, in the gateway's own task. A method
  of the client is \<open>None\<close> while it waits for room, else it says whether it succeeded.
\<close>

definition request_capacity :: nat where
  "request_capacity = 50"

text \<open>\<open>client_subscribe\<close> is the client's method on its state \<open>'net\<close>; the error gets its context.\<close>

definition downstream_subscribe ::
  "(string \<Rightarrow> rumqttc_qos \<Rightarrow> 'net \<Rightarrow> (bool \<times> 'net) option) \<Rightarrow> mqtt_downstream_config \<Rightarrow> 'net
   \<Rightarrow> ((string, unit) result \<times> 'net) option" where
  "downstream_subscribe client_subscribe cfg net =
     (case client_subscribe (dc_subscribe_filter cfg) QoS_AtLeastOnce net of
        None \<Rightarrow> None
      | Some (True, net') \<Rightarrow> Some (Ok (), net')
      | Some (False, net') \<Rightarrow>
          Some (Err (''subscribe failed for '' @ [CHR 0x27] @ dc_subscribe_filter cfg @ [CHR 0x27]), net'))"

text \<open>
  \<open>recv\<close> polls until a publish comes in: other packets and errors are passed over (an error after a
  second's sleep), so over a finite run of poll results it may have to wait (\<open>None\<close>).
\<close>

datatype poll_result = Incoming mqtt_message | OtherPacket | PollError

fun downstream_recv :: "poll_result list \<Rightarrow> (mqtt_message \<times> poll_result list) option" where
  "downstream_recv [] = None"
| "downstream_recv (Incoming m # ps) = Some (m, ps)"
| "downstream_recv (OtherPacket # ps) = downstream_recv ps"
| "downstream_recv (PollError # ps) = downstream_recv ps"

text \<open>\<open>client_publish\<close> is the client's method; \<open>publish\<close> adds the context of an error.\<close>

definition downstream_publish ::
  "(string \<Rightarrow> rumqttc_qos \<Rightarrow> bool \<Rightarrow> string \<Rightarrow> 'net \<Rightarrow> (bool \<times> 'net) option) \<Rightarrow> mqtt_publish \<Rightarrow> 'net
   \<Rightarrow> ((string, unit) result \<times> 'net) option" where
  "downstream_publish client_publish msg net =
     (case client_publish (mp_topic msg) (map_qos (mp_qos msg)) (mp_retain msg) (mp_payload msg) net of
        None \<Rightarrow> None
      | Some (True, net') \<Rightarrow> Some (Ok (), net')
      | Some (False, net') \<Rightarrow> Some (Err ''publish failed'', net'))"

text \<open>
  What the documentation of the client promises: a request waits exactly for room among \<open>cap\<close>, one that
  succeeds is queued, and a poll takes some of the queued ones (none, while the broker owes it answers).
\<close>

definition client_laws ::
  "(string \<Rightarrow> rumqttc_qos \<Rightarrow> bool \<Rightarrow> string \<Rightarrow> 'net \<Rightarrow> (bool \<times> 'net) option) \<Rightarrow> (nat \<Rightarrow> 'net \<Rightarrow> 'net) \<Rightarrow> ('net \<Rightarrow> nat)
   \<Rightarrow> nat \<Rightarrow> bool" where
  "client_laws client_publish poll queued cap \<longleftrightarrow>
     (\<forall>topic q retain payload net. case client_publish topic q retain payload net of
        None \<Rightarrow> cap \<le> queued net
      | Some (True, net') \<Rightarrow> queued net < cap \<and> queued net' = Suc (queued net)
      | Some (False, net') \<Rightarrow> queued net' = queued net) \<and>
     (\<forall>n net. queued (poll n net) = queued net - n)"

section \<open>The gateway task\<close>

record gateway_config =
  gc_downstream :: mqtt_downstream_config
  gc_upstream :: upstream_config
  gc_event_channel_capacity :: nat
  gc_command_channel_capacity :: nat

record ('ch, 'net) gateway =
  gw_properties :: property_model
  gw_events_tx :: 'ch
  gw_net :: 'net
  gw_ended :: "(string, unit) result option"

definition gateway_new :: "'ch \<Rightarrow> 'net \<Rightarrow> ('ch, 'net) gateway" where
  "gateway_new ch net =
     \<lparr>gw_properties = property_model_default, gw_events_tx = ch, gw_net = net, gw_ended = None\<rparr>"

definition track :: "gateway_event \<Rightarrow> property_model \<Rightarrow> property_model" where
  "track evt pm = (case evt of Telemetry t \<Rightarrow> apply_telemetry t pm | _ \<Rightarrow> pm)"

text \<open>
  What the task works with: the decoders, the encoder of commands, and the client, whose poll takes some
  number of requests.
\<close>

record ('j, 'net) gateway_env =
  ge_decoders :: "'j decoders"
  ge_to_vec :: "command_envelope \<Rightarrow> (string, string) result"
  ge_client_publish :: "string \<Rightarrow> rumqttc_qos \<Rightarrow> bool \<Rightarrow> string \<Rightarrow> 'net \<Rightarrow> (bool \<times> 'net) option"
  ge_poll :: "nat \<Rightarrow> 'net \<Rightarrow> 'net"

text \<open>
  \<open>start\<close> makes the channels, connects (\<open>new_client\<close>, with the room for requests), subscribes and spawns the
  task: \<open>None\<close> when the subscription waits for ever. \<open>stop\<close> asks the task to shut down and waits for it;
  \<open>joined\<close> is what it ended with, \<open>None\<close> after a panic. What the task does is in \<open>Engine_Main\<close>, step by step.
\<close>

definition gateway_start ::
  "(mqtt_options \<Rightarrow> nat \<Rightarrow> 'net) \<Rightarrow> (string \<Rightarrow> rumqttc_qos \<Rightarrow> 'net \<Rightarrow> (bool \<times> 'net) option) \<Rightarrow> (nat \<Rightarrow> 'ch)
   \<Rightarrow> gateway_config \<Rightarrow> (string, ('ch, 'net) gateway) result exec option" where
  "gateway_start new_client client_subscribe channel cfg =
     (if \<not> channel_size (gc_event_channel_capacity cfg) \<or> \<not> channel_size (gc_command_channel_capacity cfg) then Some Panic
      else
        (case downstream_subscribe client_subscribe (gc_downstream cfg)
                (new_client (downstream_options (gc_downstream cfg)) request_capacity) of
           None \<Rightarrow> None
         | Some (Inl e, net) \<Rightarrow> Some (Return (Err e))
         | Some (Inr _, net) \<Rightarrow> Some (Return (Ok (gateway_new (channel (gc_event_channel_capacity cfg)) net)))))"

definition gateway_stop :: "(string, unit) result option \<Rightarrow> (string, unit) result" where
  "gateway_stop joined = (case joined of None \<Rightarrow> Err ''gateway join failed'' | Some res \<Rightarrow> res)"

section \<open>The sample engine\<close>

definition conveyor_1_4 :: string where
  "conveyor_1_4 = ''f'' @ [CHR 0xC3, CHR 0xB6] @ ''rderband1-4''"

text \<open>
  One event of its main loop: the engine's own property model, and the command it sends when a speed
  above one comes in. The command names the same conveyor whatever topic the speed came from.
\<close>

definition sample_engine_step :: "gateway_event \<Rightarrow> property_model \<Rightarrow> gw_command list \<times> property_model" where
  "sample_engine_step evt pm =
     (case evt of
        Telemetry t \<Rightarrow>
          ((case te_value t of
              Number v unit \<Rightarrow>
                if drop (length (te_topic t) - 6) (te_topic t) = ''/speed'' \<and> f64_less (f64_lit 1 0) v
                then [set_target_speed_cmd conveyor_1_4 (f64_lit 7 1)] else []
            | _ \<Rightarrow> []), apply_telemetry t pm)
      | MachineFailure f \<Rightarrow> ([], pm)
      | CounterDeviation d \<Rightarrow> ([], pm))"

fun sample_engine_run :: "gateway_event list \<Rightarrow> property_model \<Rightarrow> gw_command list \<times> property_model" where
  "sample_engine_run [] pm = ([], pm)"
| "sample_engine_run (evt # evts) pm =
     (case sample_engine_step evt pm of
        (cs, pm1) \<Rightarrow> (case sample_engine_run evts pm1 of (cs', pm2) \<Rightarrow> (cs @ cs', pm2)))"

section \<open>The programs' configurations\<close>

text \<open>The arguments of \<open>bin/main.rs\<close> with their defaults, and what \<open>main\<close> makes of them.\<close>

record gateway_args =
  ga_host :: string
  ga_port :: u16
  ga_client_id :: string
  ga_username :: "string option"
  ga_password :: "string option"
  ga_subscribe_filter :: string
  ga_command_prefix :: string
  ga_structured_event_prefix :: "string option"

definition gateway_args_default :: gateway_args where
  "gateway_args_default =
     \<lparr>ga_host = ''127.0.0.1'', ga_port = 1883, ga_client_id = ''ft-gw-cli'', ga_username = None, ga_password = None,
      ga_subscribe_filter = ''fischertechnik/#'', ga_command_prefix = ''fischertechnik/commands'',
      ga_structured_event_prefix = None\<rparr>"

definition config_of_args :: "gateway_args \<Rightarrow> gateway_config" where
  "config_of_args a =
     \<lparr>gc_downstream =
        \<lparr>dc_host = ga_host a, dc_port = ga_port a, dc_client_id = ga_client_id a, dc_username = ga_username a,
         dc_password = ga_password a, dc_keep_alive_secs = 30, dc_subscribe_filter = ga_subscribe_filter a\<rparr>,
      gc_upstream = \<lparr>uc_command_prefix = ga_command_prefix a, uc_structured_event_prefix = ga_structured_event_prefix a\<rparr>,
      gc_event_channel_capacity = 1024, gc_command_channel_capacity = 128\<rparr>"

definition sample_engine_config :: gateway_config where
  "sample_engine_config =
     \<lparr>gc_downstream =
        \<lparr>dc_host = ''127.0.0.1'', dc_port = 1883, dc_client_id = ''sampleengine-ft-gw'', dc_username = None,
         dc_password = None, dc_keep_alive_secs = 30, dc_subscribe_filter = ''fischertechnik/#''\<rparr>,
      gc_upstream = \<lparr>uc_command_prefix = ''fischertechnik/commands'', uc_structured_event_prefix = Some ''fischertechnik/events''\<rparr>,
      gc_event_channel_capacity = 2048, gc_command_channel_capacity = 256\<rparr>"

end
