(* ===== verification/Gateway_Properties.thy ===== *)
theory Gateway_Properties
  imports Gateway_Loop
begin

text \<open>
  The parser on the notation it documents and on the JSON it takes for an object, and what a
  property model holds after some events.
\<close>

section \<open>Trimming\<close>

text \<open>A character that is never trimmed away: not white space, not a quote, no bracket of the notation.\<close>

definition visible :: "char \<Rightarrow> bool" where
  "visible c \<longleftrightarrow> 33 \<le> code c \<and> code c \<le> 126 \<and> c \<noteq> quote_char"

lemma trim_visible:
  assumes "s \<noteq> []" "visible (hd s)" "visible (last s)"
  shows "trim s = s" "trim (CHR '' '' # s) = s" "trim (CHR '' '' # s @ '' '') = s"
  using trim_printable[of s] assms by (simp_all add: visible_def printable_def)

lemma trim_start_char_hd: "s \<noteq> [] \<Longrightarrow> hd s \<noteq> c \<Longrightarrow> trim_start_char c s = s"
  by (cases s) (simp_all add: trim_start_char_def)

lemma trim_end_char_last: "s \<noteq> [] \<Longrightarrow> last s \<noteq> c \<Longrightarrow> trim_end_char c s = s"
  by (cases s rule: rev_cases) (simp_all add: trim_end_char_def)

lemma trim_end_char_one: "s \<noteq> [] \<Longrightarrow> last s \<noteq> c \<Longrightarrow> trim_end_char c (s @ [c]) = s"
  by (cases s rule: rev_cases) (simp_all add: trim_end_char_def)

section \<open>The tuple notation\<close>

text \<open>A field of a tuple: it has no comma or closing bracket and visible ends.\<close>

definition plain :: "string \<Rightarrow> bool" where
  "plain x \<longleftrightarrow> x \<noteq> [] \<and> visible (hd x) \<and> visible (last x) \<and> CHR '','' \<notin> set x \<and> CHR '')'' \<notin> set x"

fun inner :: "string \<times> string \<times> string \<Rightarrow> string" where
  "inner (t, d, x) = ''( topic: '' @ t @ '', data: '' @ d @ '', datetime: '' @ x"

definition render :: "(string \<times> string \<times> string) list \<Rightarrow> string" where
  "render xs = ''{ '' @ join '', '' (map (\<lambda>x. inner x @ '')'') xs) @ '' }''"

fun plain_tuple :: "string \<times> string \<times> string \<Rightarrow> bool" where
  "plain_tuple (t, d, x) \<longleftrightarrow> plain t \<and> plain d \<and> plain x"

lemma plain_last: "plain x \<Longrightarrow> last x \<noteq> CHR '')''"
  using last_in_set by (fastforce simp: plain_def)

lemma join_ends:
  "xs \<noteq> [] \<Longrightarrow> \<forall>x \<in> set xs. x \<noteq> [] \<Longrightarrow>
   join sep xs \<noteq> [] \<and> hd (join sep xs) = hd (hd xs) \<and> last (join sep xs) = last (last xs)"
  by (induction sep xs rule: join.induct) auto

lemma split_items_app: "CHR '')'' \<notin> set a \<Longrightarrow> split_items (a @ CHR '')'' # CHR '','' # b) = a # split_items b"
proof (induction a)
  case (Cons x a)
  then show ?case by (cases a) auto
qed simp

lemma split_items_last: "CHR '')'' \<notin> set a \<Longrightarrow> split_items (a @ '')'') = [a @ '')'']"
proof (induction a)
  case (Cons x a)
  then show ?case by (cases a) auto
qed simp

lemma inner_ends:
  assumes "plain_tuple x"
  shows "inner x \<noteq> []" "hd (inner x) = CHR ''(''" "visible (last (inner x))" "CHR '')'' \<notin> set (inner x)"
    "last (inner x) \<noteq> CHR '')''"
proof -
  obtain t d e where x: "x = (t, d, e)" by (cases x)
  have "last (inner x) = last e" using assms by (simp add: x plain_def)
  moreover have "last e \<noteq> CHR '')''" using assms by (simp add: x plain_last)
  ultimately show "visible (last (inner x))" "last (inner x) \<noteq> CHR '')''" using assms by (simp_all add: x plain_def)
  show "inner x \<noteq> []" "hd (inner x) = CHR ''(''" "CHR '')'' \<notin> set (inner x)" using assms by (simp_all add: x plain_def)
qed

text \<open>The items of a list: each but the last is without its closing bracket, each but the first has a space.\<close>

lemma items_of_join:
  assumes "xs \<noteq> []" "list_all plain_tuple xs" "p = [] \<or> p = '' ''"
  shows "map (\<lambda>x. trim (trim_end_char CHR '')'' (trim x))) (split_items (p @ join '', '' (map (\<lambda>x. inner x @ '')'') xs))) = map inner xs"
  using assms
proof (induction xs arbitrary: p)
  case (Cons x xs)
  note ends = inner_ends[of x]
  have plain: "plain_tuple x" using Cons.prems by simp
  have paren: "visible CHR ''(''" "visible CHR '')''" by (simp_all add: visible_def code_def quote_char_def)
  have trims: "trim (p @ inner x) = inner x" "trim (p @ inner x @ '')'') = inner x @ '')''"
    using Cons.prems(3) ends[OF plain] paren trim_visible[of "inner x"] trim_visible[of "inner x @ '')''"] by auto
  have no_paren: "CHR '')'' \<notin> set (p @ inner x)" using Cons.prems(3) ends(4)[OF plain] by auto
  show ?case
  proof (cases xs)
    case Nil
    then show ?thesis
      using split_items_last[OF no_paren] trims ends[OF plain] by (simp add: trim_end_char_one trim_visible paren)
  next
    case (Cons y ys)
    have "split_items (p @ join '', '' (map (\<lambda>x. inner x @ '')'') (x # xs))) =
        (p @ inner x) # split_items ('' '' @ join '', '' (map (\<lambda>x. inner x @ '')'') xs))"
      using split_items_app[OF no_paren] by (simp add: Cons)
    then show ?thesis
      using Cons.IH[of "'' ''"] Cons.prems(2) trims ends[OF plain] paren
      by (simp add: Cons trim_end_char_last trim_visible)
  qed
qed simp

lemma part_fields:
  assumes "plain v"
  shows "tuple_part (''topic: '' @ v) f = f\<lparr>tf_topic := Some v\<rparr>"
    "tuple_part ('' data: '' @ v) f = f\<lparr>tf_data := Some v\<rparr>"
    "tuple_part ('' datetime: '' @ v) f = f\<lparr>tf_datetime := Some v\<rparr>"
proof -
  have v: "v \<noteq> []" "visible (hd v)" "visible (last v)" using assms by (simp_all add: plain_def)
  then have quotes: "trim_char quote_char v = v"
    by (simp add: trim_char_def trim_start_char_hd trim_end_char_last visible_def)
  have key: "visible (CHR ''t'')" "visible (CHR ''d'')" "visible CHR ''c''" "visible CHR ''a''" "visible CHR ''e''"
    by (simp_all add: visible_def code_def quote_char_def)
  have trims: "trim (''topic: '' @ v) = ''topic: '' @ v" "trim ('' data: '' @ v) = ''data: '' @ v"
    "trim ('' datetime: '' @ v) = ''datetime: '' @ v"
    using trim_visible(1)[of "''topic: '' @ v"] trim_visible(2)[of "''data: '' @ v"]
      trim_visible(2)[of "''datetime: '' @ v"] v key by simp_all
  have keys: "trim ''topic'' = ''topic''" "trim ''data'' = ''data''" "trim ''datetime'' = ''datetime''"
    using key by (simp_all add: trim_visible)
  have sp: "trim (CHR '' '' # v) = v" using trim_visible(2)[OF v] .
  show "tuple_part (''topic: '' @ v) f = f\<lparr>tf_topic := Some v\<rparr>"
    "tuple_part ('' data: '' @ v) f = f\<lparr>tf_data := Some v\<rparr>"
    "tuple_part ('' datetime: '' @ v) f = f\<lparr>tf_datetime := Some v\<rparr>"
    unfolding tuple_part_def trims by (simp_all add: keys sp quotes ascii_defs)
qed

lemma sample_of_inner:
  assumes "plain_tuple (t, d, x)"
  shows "tuple_sample C now mqtt_topic (inner (t, d, x)) =
    Some \<lparr>sp_topic = t, sp_data_raw = d, sp_ts = parse_datetime C now x\<rparr>"
proof -
  have plain: "plain t" "plain d" "plain x" using assms by simp_all
  let ?fields = "''topic: '' @ t @ '', data: '' @ d @ '', datetime: '' @ x"
  have fields: "?fields \<noteq> []" "hd ?fields = CHR ''t''" "last ?fields = last x" "last x \<noteq> CHR '')''"
    using plain plain_last[OF plain(3)] by (auto simp: plain_def)
  have item: "trim (inner (t, d, x)) = inner (t, d, x)"
    using inner_ends[OF assms] by (intro trim_visible) (simp_all add: visible_def code_def quote_char_def)
  have open_bracket: "trim_start_char CHR ''('' (inner (t, d, x)) = CHR '' '' # ?fields"
    by (simp add: trim_start_char_def)
  have close_bracket: "trim_end_char CHR '')'' (CHR '' '' # ?fields) = CHR '' '' # ?fields"
    using fields by (intro trim_end_char_last) simp_all
  have space: "trim (CHR '' '' # ?fields) = ?fields"
    using fields plain by (intro trim_visible) (simp_all add: plain_def visible_def code_def quote_char_def)
  have parts: "split_char CHR '','' ?fields = [''topic: '' @ t, '' data: '' @ d, '' datetime: '' @ x]"
    using plain split_char_app[of "CHR '',''" "''topic: '' @ t"] split_char_app[of "CHR '',''" "'' data: '' @ d"]
      split_char_plain[of "CHR '',''" "'' datetime: '' @ x"]
    by (simp add: plain_def)
  have folded: "fold tuple_part [''topic: '' @ t, '' data: '' @ d, '' datetime: '' @ x]
      \<lparr>tf_topic = None, tf_data = None, tf_datetime = None\<rparr> = \<lparr>tf_topic = Some t, tf_data = Some d, tf_datetime = Some x\<rparr>"
    by (simp only: fold_simps part_fields[OF plain(1)] part_fields[OF plain(2)] part_fields[OF plain(3)]) simp
  have "d \<noteq> []" using plain(2) by (simp add: plain_def)
  then show ?thesis
    unfolding tuple_sample_def Let_def item open_bracket close_bracket space parts folded using fields(1) by simp
qed

lemma rendered_tuples:
  assumes "list_all plain_tuple xs" and "xs \<noteq> []" and "ja_parse J (render xs) = None"
  shows "parse_payload J C now mqtt_topic (render xs) =
     map (\<lambda>(t, d, x). \<lparr>sp_topic = t, sp_data_raw = d, sp_ts = parse_datetime C now x\<rparr>) xs"
proof -
  let ?body = "join '', '' (map (\<lambda>x. inner x @ '')'') xs)"
  have items: "map (\<lambda>x. trim (trim_end_char CHR '')'' (trim x))) (split_items ?body) = map inner xs"
    using items_of_join[OF assms(2,1), of "[]"] by simp
  have nonempty: "filter (\<lambda>x. x \<noteq> []) (map inner xs) = map inner xs" by (auto simp: filter_id_conv)
  have samples: "List.map_filter (tuple_sample C now mqtt_topic) (map inner xs) =
      map (\<lambda>(t, d, x). \<lparr>sp_topic = t, sp_data_raw = d, sp_ts = parse_datetime C now x\<rparr>) xs"
    using assms(1) by (induction xs) (auto simp: List.map_filter_simps sample_of_inner simp del: inner.simps plain_tuple.simps)
  have body: "?body \<noteq> []" "hd ?body = CHR ''(''" "last ?body = CHR '')''"
    using assms(2) join_ends[of "map (\<lambda>x. inner x @ '')'') xs" "'', ''"] by (simp_all add: hd_map last_map)
      (cases "hd xs"; simp)
  have "trim (render xs) = render xs"
    by (intro trim_visible) (simp_all add: render_def visible_def code_def quote_char_def)
  moreover have "starts_with CHR ''{'' (render xs)" "ends_with CHR ''}'' (render xs)"
    by (simp_all add: render_def starts_with_def ends_with_def)
  moreover have "butlast (tl (render xs)) = CHR '' '' # ?body @ '' ''"
    by (simp add: render_def butlast_append)
  moreover have "trim (CHR '' '' # ?body @ '' '') = ?body"
    using body by (intro trim_visible) (simp_all add: visible_def code_def quote_char_def)
  moreover have "render xs \<noteq> []" by (simp add: render_def)
  ultimately show ?thesis
    using assms(3) items nonempty samples
    by (simp add: parse_payload_def payload_from_str_def parse_custom_tuple_list_def Let_def)
qed

text \<open>
  C23. The tuple notation is read back as it is written: a list of tuples with plain topic, data and
  date, printed as the parser's documentation shows, gives exactly these samples in order, with the
  dates as \<open>parse_datetime\<close> reads them, provided the text is not also JSON.
\<close>

theorem tuple_notation_roundtrip:
  assumes "list_all plain_tuple xs" and "xs \<noteq> []" and "ja_parse J (render xs) = None"
  shows "parse_payload J C now mqtt_topic (render xs) =
     map (\<lambda>(t, d, x). \<lparr>sp_topic = t, sp_data_raw = d, sp_ts = parse_datetime C now x\<rparr>) xs"
  using assms by (rule rendered_tuples)

text \<open>Two tuples, and a JSON parser that takes no text for the examples.\<close>

definition no_json :: "unit json_api" where
  "no_json =
     \<lparr>ja_parse = \<lambda>t. None, ja_as_str = \<lambda>v. None, ja_is_object = \<lambda>v. False, ja_get = \<lambda>v k. None, ja_to_string = \<lambda>v. []\<rparr>"

definition plain_clock :: chrono_api where
  "plain_clock = \<lparr>ch_rfc3339 = \<lambda>s. None, ch_from_timestamp = Some\<rparr>"

theorem tuple_notation_roundtrip_witness:
  "parse_payload no_json plain_clock 9 ''m/raw'' ''{ ( topic: c1/speed, data: 1.2V, datetime: now), ( topic: x, data: 20, datetime: 7) }'' =
     [\<lparr>sp_topic = ''c1/speed'', sp_data_raw = ''1.2V'', sp_ts = 9\<rparr>, \<lparr>sp_topic = ''x'', sp_data_raw = ''20'', sp_ts = 7\<rparr>]"
proof -
  let ?xs = "[(''c1/speed'', ''1.2V'', ''now''), (''x'', ''20'', ''7'')]"
  have plain: "list_all plain_tuple ?xs" by (simp add: plain_def visible_def code_def quote_char_def)
  have rendered: "render ?xs = ''{ ( topic: c1/speed, data: 1.2V, datetime: now), ( topic: x, data: 20, datetime: 7) }''"
    by (simp add: render_def)
  have trims: "trim ''now'' = ''now''" "trim ''7'' = ''7''"
    by (simp_all add: trim_visible visible_def code_def quote_char_def)
  have dates: "parse_datetime plain_clock 9 ''now'' = 9" "parse_datetime plain_clock 9 ''7'' = 7"
    by (simp_all add: parse_datetime_def trims trim_char_def trim_start_char_def trim_end_char_def quote_char_def
        ascii_defs plain_clock_def parse_i64_def digits_val_def digit_val_def)
  show ?thesis
    using tuple_notation_roundtrip[OF plain, of no_json plain_clock 9 "''m/raw''"] dates
    unfolding rendered by (simp add: no_json_def)
qed

section \<open>JSON arrays\<close>

text \<open>
  Samples sent as a JSON array are all dropped, whatever is in it: the variant of the payload for
  arrays comes after one that takes any JSON value, so no text is ever read as an array, and an array
  is treated as a value that is neither a string nor an object. Nothing reports the loss.
\<close>

theorem json_arrays_are_dropped:
  assumes "ja_parse J (trim text) = Some v" and "ja_as_str J v = None" and "\<not> ja_is_object J v"
    and "starts_with CHR ''['' (trim text)"
  shows "parse_payload J C now mqtt_topic text = [] \<and> (\<nexists>t vs. payload_from_str J t = Some (PayloadArr vs))"
proof -
  have "trim text \<noteq> []" using assms(4) by (auto simp: starts_with_def)
  then show ?thesis
    using assms by (simp add: parse_payload_def payload_from_str_def parse_json_payload_def Let_def)
qed

text \<open>A parser that knows one array of one sample.\<close>

definition array_json :: "nat json_api" where
  "array_json =
     \<lparr>ja_parse = \<lambda>t. if t = ''[{...}]'' then Some 0 else None, ja_as_str = \<lambda>v. if v = 2 then Some ''1.2V'' else None,
      ja_is_object = \<lambda>v. v = 1, ja_get = \<lambda>v k. if v = 1 \<and> k = ''data'' then Some 2 else None, ja_to_string = \<lambda>v. []\<rparr>"

theorem json_arrays_are_dropped_witness:
  "parse_payload array_json plain_clock 9 ''m/raw'' ''[{...}]'' = [] \<and>
   parse_json_payload array_json plain_clock 9 ''m/raw'' (PayloadArr [1]) =
     [\<lparr>sp_topic = ''m/raw'', sp_data_raw = ''1.2V'', sp_ts = 9\<rparr>]"
proof -
  have "trim ''[{...}]'' = ''[{...}]''" by (simp add: trim_visible visible_def code_def quote_char_def)
  then have "parse_payload array_json plain_clock 9 ''m/raw'' ''[{...}]'' = []"
    using json_arrays_are_dropped[of array_json "''[{...}]''" 0 plain_clock 9 "''m/raw''"]
    by (simp add: array_json_def starts_with_def)
  then show ?thesis
    by (simp add: parse_json_payload_def obj_to_sample_def array_json_def List.map_filter_simps)
qed

section \<open>The last known properties\<close>

text \<open>What an event says of a property of an asset, and the last reading among some events.\<close>

fun reading :: "string list \<Rightarrow> string \<Rightarrow> gateway_event \<Rightarrow> gw_property_state option" where
  "reading names asset (Telemetry t) =
     (case te_value t of
        Number v unit \<Rightarrow>
          if split_asset_and_prop names (te_topic t) = (asset, True)
          then Some \<lparr>ps_value = v, ps_unit = unit, ps_ts = te_ts t\<rparr> else None
      | _ \<Rightarrow> None)"
| "reading names asset _ = None"

definition last_reading :: "string list \<Rightarrow> string \<Rightarrow> gateway_event list \<Rightarrow> gw_property_state option" where
  "last_reading names asset evts =
     (case List.map_filter (reading names asset) (rev evts) of [] \<Rightarrow> None | r # _ \<Rightarrow> Some r)"

lemma last_reading_snoc:
  "last_reading names asset (evts @ [evt]) =
     (case reading names asset evt of Some r \<Rightarrow> Some r | None \<Rightarrow> last_reading names asset evts)"
  by (simp add: last_reading_def List.map_filter_simps split: option.splits)

lemma update_reading:
  "update_from_telemetry names t p asset = (case reading names asset (Telemetry t) of Some r \<Rightarrow> Some r | None \<Rightarrow> p asset)"
  by (auto simp: update_from_telemetry_def split: gw_value.splits prod.splits)

lemma tracked_readings:
  "pm_position (fold track evts property_model_default) asset = last_reading [''position'', ''pos''] asset evts \<and>
   pm_speed (fold track evts property_model_default) asset = last_reading [''speed'', ''rpm''] asset evts"
proof (induction evts rule: rev_induct)
  case Nil
  then show ?case by (simp add: last_reading_def List.map_filter_simps property_model_default_def)
next
  case (snoc evt evts)
  then show ?case
    by (cases evt)
      (simp_all add: last_reading_snoc track_def apply_telemetry_def position_update_def speed_update_def update_reading
        split: option.splits)
qed

lemma engine_step_tracks: "snd (sample_engine_step evt pm) = track evt pm"
  by (cases evt) (simp_all add: sample_engine_step_def track_def)

lemma engine_run_Cons: "snd (sample_engine_run (evt # evts) pm) = snd (sample_engine_run evts (snd (sample_engine_step evt pm)))"
  by (simp split: prod.splits)

text \<open>The engine of \<open>bin/sampleengine.rs\<close> keeps the same model of the events that it took.\<close>

lemma engine_tracks: "snd (sample_engine_run evts pm) = fold track evts pm"
  by (induction evts arbitrary: pm) (simp_all add: engine_run_Cons engine_step_tracks del: sample_engine_run.simps(2))

lemma last_reading_append:
  "last_reading names asset (xs @ ys) =
     (case last_reading names asset ys of Some r \<Rightarrow> Some r | None \<Rightarrow> last_reading names asset xs)"
  by (induction ys rule: rev_induct)
    (simp_all add: last_reading_snoc flip: append_assoc split: option.splits, simp add: last_reading_def List.map_filter_simps)

text \<open>Messages of an asset that reports its speed, and decoders that read them.\<close>

definition bench_decoders :: "unit decoders" where
  "bench_decoders = \<lparr>dec_json = no_json, dec_chrono = plain_clock, dec_uni_digit = (\<lambda>s. 0), dec_wire = (\<lambda>s. None)\<rparr>"

definition bench_cfg :: upstream_config where
  "bench_cfg = \<lparr>uc_command_prefix = ''cmd'', uc_structured_event_prefix = Some ''ev/''\<rparr>"

definition speed_message :: "string \<Rightarrow> mqtt_message" where
  "speed_message v = \<lparr>mm_topic = ''raw'', mm_payload = render [(''c1/speed'', v, ''now'')]\<rparr>"

definition speed_event :: "string \<Rightarrow> nat \<Rightarrow> timestamp \<Rightarrow> gateway_event" where
  "speed_event v n now =
     Telemetry \<lparr>te_topic = ''c1/speed'', te_data_raw = v, te_value = Number (f64_ratio False n 1) None, te_ts = now,
                te_source_mqtt_topic = ''raw''\<rparr>"

lemma ascii_is_utf8: "list_all (\<lambda>c. code c < 128) s \<Longrightarrow> from_utf8 s"
proof (induction s)
  case (Cons c s)
  then show ?case by (subst from_utf8.simps) simp
qed (simp add: from_utf8.simps)

lemma trim_now: "trim ''now'' = ''now''"
  by (simp add: trim_visible visible_def code_def quote_char_def)

lemma digit_reads:
  "parse_value_and_unit (\<lambda>s. 0) ''7'' = (Some (f64_ratio False 7 1), None)"
  "parse_value_and_unit (\<lambda>s. 0) ''8'' = (Some (f64_ratio False 8 1), None)"
  by (simp_all add: parse_value_and_unit_def match_number_def trim_visible visible_def code_def quote_char_def ascii_defs
      span_digits.simps digit_front_def unit_tail_def trim_start.simps parse_decimal_def digits_val_def digit_val_def)

lemma speed_message_decodes:
  assumes "v = ''7'' \<and> n = 7 \<or> v = ''8'' \<and> n = 8"
  shows "decode_events bench_decoders bench_cfg now (speed_message v) = [speed_event v n now]"
proof -
  have utf8: "from_utf8 (mm_payload (speed_message v))"
    using assms by (intro ascii_is_utf8) (auto simp: speed_message_def render_def code_def)
  have plain: "list_all plain_tuple [(''c1/speed'', v, ''now'')]"
    using assms by (auto simp: plain_def visible_def code_def quote_char_def)
  have no_structure: "\<not> should_try_structured bench_cfg (mm_topic (speed_message v)) p" for p
    by (simp add: should_try_structured_def bench_cfg_def speed_message_def)
  have clock: "parse_datetime plain_clock now ''now'' = now"
    by (simp add: parse_datetime_def trim_now trim_char_def trim_start_char_def trim_end_char_def quote_char_def ascii_defs)
  have "parse_payload no_json plain_clock now ''raw'' (mm_payload (speed_message v)) =
      [\<lparr>sp_topic = ''c1/speed'', sp_data_raw = v, sp_ts = now\<rparr>]"
    using rendered_tuples[OF plain, of no_json plain_clock now "''raw''"]
    by (simp add: speed_message_def no_json_def clock del: inner.simps)
  then show ?thesis
    using assms utf8 no_structure digit_reads
    by (auto simp: decode_events_def decode_structured_def bench_decoders_def telemetry_of_sample_def speed_event_def speed_message_def)
qed

lemma speed_event_reading:
  "reading [''speed'', ''rpm''] ''c1'' (speed_event v k now) = Some \<lparr>ps_value = f64_ratio False k 1, ps_unit = None, ps_ts = now\<rparr>"
proof -
  have "split_asset_and_prop [''speed'', ''rpm''] ''c1/speed'' = (''c1'', True)"
    by (simp add: split_asset_and_prop_def trim_visible visible_def code_def quote_char_def rsplit_once_def ascii_defs)
  then show ?thesis by (simp add: speed_event_def)
qed

end
