(* ===== verification/Abstract_Gateway.thy ===== *)
theory Abstract_Gateway
  imports Name_Map Gateway_Loop
begin

text \<open>
  The second gateway: the state of \<open>gateway/abstractgateway\<close> (the model of the machine, the registries
  towards the twin, the core with its \<open>GatewayApi\<close>, the command line tool) and the \<open>MqttGateway\<close> of
  \<open>gateway/mqtt/src/main.rs\<close> built on it. A JSON value is \<open>'v\<close>; errors are their messages.
\<close>

section \<open>Downstream: the model of the machine\<close>

record 'v ag_configuration =
  cf_ipaddress :: string
  cf_username :: string
  cf_password :: string
  cf_settings :: "string \<rightharpoonup> 'v"

record 'v ag_method =
  agm_variables :: "string \<rightharpoonup> 'v"

record 'v ds_property =
  dsp_ty :: string
  dsp_value :: 'v

record 'v idownstream =
  ds_configuration :: "'v ag_configuration option"
  ds_methods :: "string \<rightharpoonup> 'v ag_method"
  ds_properties :: "string \<rightharpoonup> 'v ds_property"

definition idownstream_new :: "'v idownstream" where
  "idownstream_new = \<lparr>ds_configuration = None, ds_methods = Map.empty, ds_properties = Map.empty\<rparr>"

definition set_configuration :: "'v ag_configuration \<Rightarrow> 'v idownstream \<Rightarrow> 'v idownstream" where
  "set_configuration conf ds = ds\<lparr>ds_configuration := Some conf\<rparr>"

definition upsert_property :: "string \<Rightarrow> 'v ds_property \<Rightarrow> 'v idownstream \<Rightarrow> 'v idownstream" where
  "upsert_property k p ds = ds\<lparr>ds_properties := (ds_properties ds)(k \<mapsto> p)\<rparr>"

definition remove_property :: "string \<Rightarrow> 'v idownstream \<Rightarrow> 'v ds_property option \<times> 'v idownstream" where
  "remove_property k ds = (ds_properties ds k, ds\<lparr>ds_properties := (ds_properties ds)(k := None)\<rparr>)"

definition upsert_method :: "string \<Rightarrow> 'v ag_method \<Rightarrow> 'v idownstream \<Rightarrow> 'v idownstream" where
  "upsert_method k mth ds = ds\<lparr>ds_methods := (ds_methods ds)(k \<mapsto> mth)\<rparr>"

definition remove_method :: "string \<Rightarrow> 'v idownstream \<Rightarrow> 'v ag_method option \<times> 'v idownstream" where
  "remove_method k ds = (ds_methods ds k, ds\<lparr>ds_methods := (ds_methods ds)(k := None)\<rparr>)"

text \<open>Both maps keep the contract of a registry.\<close>

interpretation property_map: name_map upsert_property "\<lambda>k ds. snd (remove_property k ds)" ds_properties "\<lambda>ds. True"
  by unfold_locales (simp_all add: upsert_property_def remove_property_def)

interpretation method_map: name_map upsert_method "\<lambda>k ds. snd (remove_method k ds)" ds_methods "\<lambda>ds. True"
  by unfold_locales (simp_all add: upsert_method_def remove_method_def)

section \<open>Upstream: registries and events\<close>

record 'v us_property =
  usp_value :: 'v
  usp_ty :: string

record 'v us_command =
  usc_value :: 'v
  usc_ty :: string

record 'v us_event =
  use_id :: string
  use_ty :: string
  use_timestamp :: timestamp
  use_payload :: 'v
  use_attributes :: "string \<rightharpoonup> 'v"

text \<open>
  \<open>Registry\<close> is keyed by the \<open>Id\<close> it imports, the identifier of a \<open>tokio\<close> runtime: a type \<open>'k\<close>. Each of
  its methods holds the lock throughout.
\<close>

record ('k, 't) ag_registry =
  rg_inner :: "'k \<rightharpoonup> 't"

definition ag_registry_new :: "('k, 't) ag_registry" where
  "ag_registry_new = \<lparr>rg_inner = Map.empty\<rparr>"

definition ag_upsert :: "'k \<Rightarrow> 't \<Rightarrow> ('k, 't) ag_registry \<Rightarrow> ('k, 't) ag_registry" where
  "ag_upsert k v r = r\<lparr>rg_inner := (rg_inner r)(k \<mapsto> v)\<rparr>"

definition ag_get :: "('k, 't) ag_registry \<Rightarrow> 'k \<Rightarrow> 't option" where
  "ag_get r k = rg_inner r k"

definition ag_remove :: "'k \<Rightarrow> ('k, 't) ag_registry \<Rightarrow> 't option \<times> ('k, 't) ag_registry" where
  "ag_remove k r = (rg_inner r k, r\<lparr>rg_inner := (rg_inner r)(k := None)\<rparr>)"

definition ag_list :: "('k, 't) ag_registry \<Rightarrow> 'k \<rightharpoonup> 't" where
  "ag_list r = rg_inner r"

interpretation upstream_map: name_map ag_upsert "\<lambda>k r. snd (ag_remove k r)" ag_get "\<lambda>r. True"
  by unfold_locales (simp_all add: ag_upsert_def ag_remove_def ag_get_def)

text \<open>The methods of a \<open>broadcast\<close> channel: \<open>channel\<close> panics on some capacities, \<open>send\<close> counts receivers.\<close>

record ('e, 'b, 'r) broadcast_api =
  bc_channel :: "nat \<Rightarrow> 'b exec"
  bc_subscribe :: "'b \<Rightarrow> 'r \<times> 'b"
  bc_send :: "'e \<Rightarrow> 'b \<Rightarrow> ('e, nat) result \<times> 'b"

record ('v, 'k, 'b) iupstream =
  us_properties :: "('k, 'v us_property) ag_registry"
  us_commands :: "('k, 'v us_command) ag_registry"
  us_events :: 'b

definition bus_subscribe :: "('v us_event, 'b, 'r) broadcast_api \<Rightarrow> 'b \<Rightarrow> 'r \<times> 'b" where
  "bus_subscribe B bus = bc_subscribe B bus"

definition bus_publish :: "('v us_event, 'b, 'r) broadcast_api \<Rightarrow> 'v us_event \<Rightarrow> 'b \<Rightarrow> ('v us_event, nat) result \<times> 'b" where
  "bus_publish B evt bus = bc_send B evt bus"

definition iupstream_new :: "('v us_event, 'b, 'r) broadcast_api \<Rightarrow> nat \<Rightarrow> ('v, 'k, 'b) iupstream exec" where
  "iupstream_new B event_buffer =
     exec_bind (bc_channel B event_buffer)
       (\<lambda>bus. Return \<lparr>us_properties = ag_registry_new, us_commands = ag_registry_new, us_events = bus\<rparr>)"

section \<open>The core\<close>

text \<open>What the two \<open>Arc\<close>s of the configuration point to, and the cancellation token.\<close>

record ('v, 'u) core_gateway =
  cg_downstream :: "'v idownstream"
  cg_upstream :: 'u
  cg_cancelled :: bool

definition core_new :: "'v idownstream \<Rightarrow> 'u \<Rightarrow> ('v, 'u) core_gateway" where
  "core_new ds us = \<lparr>cg_downstream = ds, cg_upstream = us, cg_cancelled = False\<rparr>"

definition configure_config :: "'v ag_configuration \<Rightarrow> ('v, 'u) core_gateway \<Rightarrow> (string, unit) result \<times> ('v, 'u) core_gateway" where
  "configure_config conf g = (Ok (), g\<lparr>cg_downstream := set_configuration conf (cg_downstream g)\<rparr>)"

definition configure_property ::
  "string \<Rightarrow> 'v ds_property \<Rightarrow> ('v, 'u) core_gateway \<Rightarrow> (string, unit) result \<times> ('v, 'u) core_gateway" where
  "configure_property k p g = (Ok (), g\<lparr>cg_downstream := upsert_property k p (cg_downstream g)\<rparr>)"

definition configure_method ::
  "string \<Rightarrow> 'v ag_method \<Rightarrow> ('v, 'u) core_gateway \<Rightarrow> (string, unit) result \<times> ('v, 'u) core_gateway" where
  "configure_method k mth g = (Ok (), g\<lparr>cg_downstream := upsert_method k mth (cg_downstream g)\<rparr>)"

definition core_execute_method :: "string \<Rightarrow> ('v, 'u) core_gateway \<Rightarrow> (string, unit) result" where
  "core_execute_method name g =
     (if ds_methods (cg_downstream g) name \<noteq> None then Ok () else Err (''unknown method id: '' @ name))"

text \<open>\<open>run\<close> waits (\<open>None\<close>) until the token is cancelled.\<close>

definition core_run :: "('v, 'u) core_gateway \<Rightarrow> (string, unit) result option" where
  "core_run g = (if cg_cancelled g then Some (Ok ()) else None)"

definition core_shutdown :: "('v, 'u) core_gateway \<Rightarrow> ('v, 'u) core_gateway" where
  "core_shutdown g = g\<lparr>cg_cancelled := True\<rparr>"

text \<open>The calls of \<open>GatewayApi\<close> that answer at once.\<close>

datatype 'v gateway_call =
    ConfigureConfig "'v ag_configuration"
  | ConfigureProperty string "'v ds_property"
  | ConfigureMethod string "'v ag_method"
  | ExecuteMethod string
  | ShutdownGateway

fun core_call :: "'v gateway_call \<Rightarrow> ('v, 'u) core_gateway \<Rightarrow> (string, unit) result \<times> ('v, 'u) core_gateway" where
  "core_call (ConfigureConfig conf) g = configure_config conf g"
| "core_call (ConfigureProperty k p) g = configure_property k p g"
| "core_call (ConfigureMethod k mth) g = configure_method k mth g"
| "core_call (ExecuteMethod name) g = (core_execute_method name g, g)"
| "core_call ShutdownGateway g = (Ok (), core_shutdown g)"

section \<open>The MQTT gateway\<close>

record 'net mqtt_client_api =
  mc_new :: "mqtt_options \<Rightarrow> nat \<Rightarrow> 'net"
  mc_subscribe :: "string \<Rightarrow> rumqttc_qos \<Rightarrow> 'net \<Rightarrow> (string, unit) result \<times> 'net"
  mc_publish :: "string \<Rightarrow> rumqttc_qos \<Rightarrow> bool \<Rightarrow> string \<Rightarrow> 'net \<Rightarrow> (string, unit) result \<times> 'net"

record ('v, 'u, 'net) mqtt_gateway =
  mg_core :: "('v, 'u) core_gateway"
  mg_client :: 'net
  mg_event_task :: bool

definition gateway_options :: "('v, 'u) core_gateway \<Rightarrow> string \<Rightarrow> u16 \<Rightarrow> string \<Rightarrow> mqtt_options" where
  "gateway_options core host port client_id =
     \<lparr>mo_client_id = client_id, mo_host = host, mo_port = port, mo_keep_alive = from_secs 30,
      mo_credentials =
        (case ds_configuration (cg_downstream core) of
           Some conf \<Rightarrow> if cf_username conf \<noteq> [] then Some (cf_username conf, cf_password conf) else None
         | None \<Rightarrow> None)\<rparr>"

definition mqtt_connect ::
  "'net mqtt_client_api \<Rightarrow> ('v, 'u) core_gateway \<Rightarrow> string \<Rightarrow> u16 \<Rightarrow> string
   \<Rightarrow> (string, ('v, 'u, 'net) mqtt_gateway) result" where
  "mqtt_connect M core host port client_id =
     (let net0 = mc_new M (gateway_options core host port client_id) 10
      in case mc_subscribe M ''dt/+/event/+'' QoS_AtLeastOnce net0 of
           (Inl e, net1) \<Rightarrow> Err e
         | (Inr _, net1) \<Rightarrow>
             (case mc_subscribe M ''dt/+/property/+'' QoS_AtLeastOnce net1 of
                (Inl e, net2) \<Rightarrow> Err e
              | (Inr _, net2) \<Rightarrow> Ok \<lparr>mg_core = core, mg_client = net2, mg_event_task = True\<rparr>))"

text \<open>
  One turn of the event task: \<open>None\<close> is the cancelled token. What comes in is dropped.
\<close>

definition event_task_turn :: "poll_result option \<Rightarrow> ('v, 'u, 'net) mqtt_gateway \<Rightarrow> ('v, 'u, 'net) mqtt_gateway" where
  "event_task_turn ev g =
     (case ev of
        None \<Rightarrow> if cg_cancelled (mg_core g) then g\<lparr>mg_event_task := False\<rparr> else g
      | Some (Incoming p) \<Rightarrow> g
      | Some OtherPacket \<Rightarrow> g
      | Some PollError \<Rightarrow> g)"

text \<open>\<open>to_vec\<close> is \<open>serde_json::to_vec\<close> on the variables of a method.\<close>

definition mqtt_execute_method ::
  "'net mqtt_client_api \<Rightarrow> ((string \<rightharpoonup> 'v) \<Rightarrow> (string, string) result) \<Rightarrow> string
   \<Rightarrow> ('v, 'u, 'net) mqtt_gateway \<Rightarrow> (string, unit) result \<times> ('v, 'u, 'net) mqtt_gateway" where
  "mqtt_execute_method M to_vec name g =
     (case ds_methods (cg_downstream (mg_core g)) name of
        None \<Rightarrow> (Err ''unknown method id'', g)
      | Some mth \<Rightarrow>
          (case to_vec (agm_variables mth) of
             Inl e \<Rightarrow> (Err e, g)
           | Inr payload \<Rightarrow>
               (case mc_publish M (''dt/method/'' @ name @ ''/execute'') QoS_AtLeastOnce False payload (mg_client g) of
                  (Inl e, net) \<Rightarrow> (Err e, g\<lparr>mg_client := net\<rparr>)
                | (Inr _, net) \<Rightarrow> (Ok (), g\<lparr>mg_client := net\<rparr>))))"

definition on_core ::
  "(('v, 'u) core_gateway \<Rightarrow> 'a \<times> ('v, 'u) core_gateway) \<Rightarrow> ('v, 'u, 'net) mqtt_gateway \<Rightarrow> 'a \<times> ('v, 'u, 'net) mqtt_gateway" where
  "on_core f g = (case f (mg_core g) of (r, core) \<Rightarrow> (r, g\<lparr>mg_core := core\<rparr>))"

fun mqtt_call ::
  "'net mqtt_client_api \<Rightarrow> ((string \<rightharpoonup> 'v) \<Rightarrow> (string, string) result) \<Rightarrow> 'v gateway_call
   \<Rightarrow> ('v, 'u, 'net) mqtt_gateway \<Rightarrow> (string, unit) result \<times> ('v, 'u, 'net) mqtt_gateway" where
  "mqtt_call M to_vec (ConfigureConfig conf) g = on_core (configure_config conf) g"
| "mqtt_call M to_vec (ConfigureProperty k p) g = on_core (configure_property k p) g"
| "mqtt_call M to_vec (ConfigureMethod k mth) g = on_core (configure_method k mth) g"
| "mqtt_call M to_vec (ExecuteMethod name) g = mqtt_execute_method M to_vec name g"
| "mqtt_call M to_vec ShutdownGateway g = (Ok (), g\<lparr>mg_core := core_shutdown (mg_core g)\<rparr>)"

text \<open>
  \<open>main\<close>: the gateway it connects, and how it ends - on ctrl-c, or when \<open>run\<close> returned.
\<close>

definition mqtt_main_configuration :: "'v ag_configuration" where
  "mqtt_main_configuration =
     \<lparr>cf_ipaddress = ''127.0.0.1'', cf_username = ''user'', cf_password = ''pass'', cf_settings = Map.empty\<rparr>"

definition mqtt_main ::
  "('v us_event, 'b, 'r) broadcast_api \<Rightarrow> 'net mqtt_client_api
   \<Rightarrow> (string, ('v, ('v, 'k, 'b) iupstream, 'net) mqtt_gateway) result exec" where
  "mqtt_main B M =
     exec_bind (iupstream_new B 1024) (\<lambda>us.
       Return (mqtt_connect M (core_new (set_configuration mqtt_main_configuration idownstream_new) us)
         ''127.0.0.1'' 1883 ''dt-gateway-dev''))"

datatype main_select = CtrlC | RunReturned "(string, unit) result"

definition mqtt_main_end :: "main_select \<Rightarrow> ('v, 'u, 'net) mqtt_gateway \<Rightarrow> (string, unit) result \<times> ('v, 'u, 'net) mqtt_gateway" where
  "mqtt_main_end sel g =
     (case sel of
        CtrlC \<Rightarrow> (Ok (), g\<lparr>mg_core := core_shutdown (mg_core g)\<rparr>)
      | RunReturned res \<Rightarrow> (res, g))"

text \<open>It connects with the credentials it configured, which it could not change afterwards.\<close>

lemma mqtt_main_credentials:
  "mo_credentials (gateway_options (core_new (set_configuration mqtt_main_configuration ds) us) host port client_id) = Some (''user'', ''pass'')"
  by (simp add: gateway_options_def core_new_def set_configuration_def mqtt_main_configuration_def)

section \<open>The command line tool\<close>

text \<open>
  \<open>bin/main.rs\<close>: one command on a new state, and what it prints as a value; usage errors exit with 2.
  \<open>parse\<close> is \<open>serde_json::from_str\<close>, \<open>as_object\<close> the entries of a JSON object.
\<close>

datatype 'v cli_outcome =
    CliUsage | CliInvalidJson string | CliNotAnObject | CliUnknownMethod string
  | CliConfigurationSet "'v idownstream" | CliPropertySet string "'v idownstream" | CliMethodSet string "'v idownstream"
  | CliExecuted string "string \<rightharpoonup> 'v" | CliShown "'v idownstream"

fun cli_exit_code :: "'v cli_outcome \<Rightarrow> nat" where
  "cli_exit_code CliUsage = 2"
| "cli_exit_code (CliInvalidJson a) = 2"
| "cli_exit_code CliNotAnObject = 2"
| "cli_exit_code (CliUnknownMethod k) = 1"
| "cli_exit_code _ = 0"

definition cli_set_config ::
  "(string \<Rightarrow> 'v option) \<Rightarrow> ('v \<Rightarrow> (string \<rightharpoonup> 'v) option) \<Rightarrow> string list \<Rightarrow> 'v idownstream \<Rightarrow> 'v cli_outcome" where
  "cli_set_config parse as_object args ds =
     (case args of
        ip # user # pw # rest \<Rightarrow>
          (let conf = (\<lambda>s. \<lparr>cf_ipaddress = ip, cf_username = user, cf_password = pw, cf_settings = s\<rparr>)
           in case rest of
                [] \<Rightarrow> CliConfigurationSet (set_configuration (conf Map.empty) ds)
              | a # _ \<Rightarrow>
                  (case parse a of
                     None \<Rightarrow> CliInvalidJson a
                   | Some v \<Rightarrow>
                       CliConfigurationSet
                         (set_configuration (conf (case as_object v of Some m \<Rightarrow> m | None \<Rightarrow> [''default'' \<mapsto> v])) ds)))
      | _ \<Rightarrow> CliUsage)"

definition cli_set_prop :: "(string \<Rightarrow> 'v option) \<Rightarrow> string list \<Rightarrow> 'v idownstream \<Rightarrow> 'v cli_outcome" where
  "cli_set_prop parse args ds =
     (case args of
        k # ty # a # _ \<Rightarrow>
          (case parse a of
             None \<Rightarrow> CliInvalidJson a
           | Some v \<Rightarrow> CliPropertySet k (upsert_property k \<lparr>dsp_ty = ty, dsp_value = v\<rparr> ds))
      | _ \<Rightarrow> CliUsage)"

definition cli_set_method ::
  "(string \<Rightarrow> 'v option) \<Rightarrow> ('v \<Rightarrow> (string \<rightharpoonup> 'v) option) \<Rightarrow> string list \<Rightarrow> 'v idownstream \<Rightarrow> 'v cli_outcome" where
  "cli_set_method parse as_object args ds =
     (case args of
        k # a # _ \<Rightarrow>
          (case parse a of
             None \<Rightarrow> CliInvalidJson a
           | Some v \<Rightarrow>
               (case as_object v of
                  None \<Rightarrow> CliNotAnObject
                | Some m \<Rightarrow> CliMethodSet k (upsert_method k \<lparr>agm_variables = m\<rparr> ds)))
      | _ \<Rightarrow> CliUsage)"

definition cli_exec :: "string list \<Rightarrow> 'v idownstream \<Rightarrow> 'v cli_outcome" where
  "cli_exec args ds =
     (case args of
        [] \<Rightarrow> CliUsage
      | k # _ \<Rightarrow>
          (case ds_methods ds k of None \<Rightarrow> CliUnknownMethod k | Some mth \<Rightarrow> CliExecuted k (agm_variables mth)))"

definition cli :: "(string \<Rightarrow> 'v option) \<Rightarrow> ('v \<Rightarrow> (string \<rightharpoonup> 'v) option) \<Rightarrow> string list \<Rightarrow> 'v cli_outcome" where
  "cli parse as_object argv =
     (let ds = idownstream_new
      in case argv of
           [] \<Rightarrow> CliUsage
         | cmd # args \<Rightarrow>
             (if cmd = ''set-config'' then cli_set_config parse as_object args ds
              else if cmd = ''set-prop'' then cli_set_prop parse args ds
              else if cmd = ''set-method'' then cli_set_method parse as_object args ds
              else if cmd = ''exec'' then cli_exec args ds
              else if cmd = ''show'' then CliShown ds
              else CliUsage))"

section \<open>Properties\<close>

text \<open>No invocation of the tool executes a method: each starts from an empty state.\<close>

lemma cli_never_executes: "cli parse as_object argv \<noteq> CliExecuted k vars"
  by (cases argv)
    (auto simp: cli_def cli_exec_def cli_set_config_def cli_set_prop_def cli_set_method_def idownstream_new_def Let_def
      split: list.splits option.splits)

text \<open>Every call leaves in the core of the MQTT gateway what it leaves in a core on its own.\<close>

lemma mqtt_call_core: "mg_core (snd (mqtt_call M to_vec c g)) = snd (core_call c (mg_core g))"
  by (cases c) (auto simp: mqtt_execute_method_def on_core_def split: prod.splits option.splits sum.splits)

lemma mqtt_call_answer:
  "fst (mqtt_call M to_vec c g) = fst (core_call c (mg_core g)) \<or> (\<exists>name. c = ExecuteMethod name) \<and>
   (is_ok (fst (mqtt_call M to_vec c g)) \<longrightarrow> is_ok (fst (core_call c (mg_core g))))"
  by (cases c)
    (auto simp: mqtt_execute_method_def core_execute_method_def on_core_def split: prod.splits option.splits sum.splits)

definition mqtt_calls ::
  "'net mqtt_client_api \<Rightarrow> ((string \<rightharpoonup> 'v) \<Rightarrow> (string, string) result) \<Rightarrow> 'v gateway_call list
   \<Rightarrow> ('v, 'u, 'net) mqtt_gateway \<Rightarrow> ('v, 'u, 'net) mqtt_gateway" where
  "mqtt_calls M to_vec cs g = fold (\<lambda>c g. snd (mqtt_call M to_vec c g)) cs g"

text \<open>The method configurations among some calls.\<close>

fun method_writes :: "'v gateway_call list \<Rightarrow> (string, 'v ag_method) map_op list" where
  "method_writes [] = []"
| "method_writes (ConfigureMethod k mth # cs) = Put k mth # method_writes cs"
| "method_writes (_ # cs) = method_writes cs"

lemma method_writes_Cons: "method_writes (c # cs) = method_writes [c] @ method_writes cs"
  by (cases c) simp_all

lemma core_call_methods:
  "ds_methods (cg_downstream (snd (core_call c g))) =
   ds_methods (fold method_map.apply_op (method_writes [c]) (cg_downstream g))"
  by (cases c)
    (simp_all add: configure_config_def configure_property_def configure_method_def core_shutdown_def set_configuration_def
      upsert_property_def)

lemma apply_methods_cong:
  "ds_methods a = ds_methods b \<Longrightarrow> ds_methods (fold method_map.apply_op ops a) k = ds_methods (fold method_map.apply_op ops b) k"
  by (simp add: method_map.get_history)

lemma mqtt_calls_methods:
  "ds_methods (cg_downstream (mg_core (mqtt_calls M to_vec cs g))) k =
   last_write k (method_writes cs) (ds_methods (cg_downstream (mg_core g)) k)"
proof (induction cs arbitrary: g)
  case Nil
  then show ?case by (simp add: mqtt_calls_def)
next
  case (Cons c cs)
  let ?g = "snd (mqtt_call M to_vec c g)"
  have "ds_methods (cg_downstream (mg_core ?g)) k = last_write k (method_writes [c]) (ds_methods (cg_downstream (mg_core g)) k)"
    unfolding mqtt_call_core core_call_methods by (simp add: method_map.get_history)
  moreover have "last_write k (xs @ ys) old = last_write k ys (last_write k xs old)"
    for xs ys :: "(string, 'a ag_method) map_op list" and old
    by (induction xs old rule: last_write.induct) simp_all
  ultimately show ?case
    using Cons.IH[of ?g] unfolding method_writes_Cons[of c cs] by (simp add: mqtt_calls_def)
qed

text \<open>
  The law of a client: an accepted publish is added to what was sent, a refused one sends nothing.
\<close>

definition publish_law ::
  "'net mqtt_client_api \<Rightarrow> ('net \<Rightarrow> (string \<times> rumqttc_qos \<times> bool \<times> string) list) \<Rightarrow> bool" where
  "publish_law M sent \<longleftrightarrow>
     (\<forall>t q r p net. case mc_publish M t q r p net of
        (Inr _, net') \<Rightarrow> sent net' = sent net @ [(t, q, r, p)]
      | (Inl _, net') \<Rightarrow> sent net' = sent net)"

lemma publish_law_step:
  "publish_law M sent \<Longrightarrow> mc_publish M t q r p net = (a, net') \<Longrightarrow>
   sent net' = sent net @ (if is_ok a then [(t, q, r, p)] else [])"
  unfolding publish_law_def
  by (drule spec[of _ t], drule spec[of _ q], drule spec[of _ r], drule spec[of _ p], drule spec[of _ net]) (cases a; simp)

text \<open>
  C24. After any calls the MQTT gateway executes a method the way the calls last configured it: an unknown
  name is refused, and a known one publishes exactly one request, on the topic of its name, with the
  last variables, unless they do not serialize or the client refuses. It accepts no name that the core
  gateway would not, and no call but \<open>execute\<close> answers or changes anything the core does not.
\<close>

theorem executes_the_last_configured_method:
  assumes "publish_law M sent"
  shows "let g = mqtt_calls M to_vec cs g0; (a, g') = mqtt_call M to_vec (ExecuteMethod name) g;
       known = last_write name (method_writes cs) (ds_methods (cg_downstream (mg_core g0)) name)
     in mg_core g' = mg_core g \<and> (is_ok (core_execute_method name (mg_core g)) \<longleftrightarrow> known \<noteq> None) \<and>
        (case known of
           None \<Rightarrow> a = Err ''unknown method id'' \<and> g' = g
         | Some mth \<Rightarrow>
             (case to_vec (agm_variables mth) of
                Inl e \<Rightarrow> a = Err e \<and> g' = g
              | Inr payload \<Rightarrow>
                  sent (mg_client g') = sent (mg_client g) @
                    (if is_ok a then [(''dt/method/'' @ name @ ''/execute'', QoS_AtLeastOnce, False, payload)] else []))) \<and>
        (\<forall>c. snd (core_call c (mg_core g)) = mg_core (snd (mqtt_call M to_vec c g)) \<and>
           (fst (mqtt_call M to_vec c g) = fst (core_call c (mg_core g)) \<or> (\<exists>k. c = ExecuteMethod k)))"
proof -
  let ?g = "mqtt_calls M to_vec cs g0"
  let ?known = "last_write name (method_writes cs) (ds_methods (cg_downstream (mg_core g0)) name)"
  obtain a g' where call: "mqtt_call M to_vec (ExecuteMethod name) ?g = (a, g')" by (cases "mqtt_call M to_vec (ExecuteMethod name) ?g")
  have known: "ds_methods (cg_downstream (mg_core ?g)) name = ?known" by (rule mqtt_calls_methods)
  have core: "mg_core g' = mg_core ?g" using mqtt_call_core[of M to_vec "ExecuteMethod name" ?g] call by simp
  have accepted: "is_ok (core_execute_method name (mg_core ?g)) \<longleftrightarrow> ?known \<noteq> None"
    by (simp add: core_execute_method_def known)
  have answers: "snd (core_call c (mg_core ?g)) = mg_core (snd (mqtt_call M to_vec c ?g)) \<and>
      (fst (mqtt_call M to_vec c ?g) = fst (core_call c (mg_core ?g)) \<or> (\<exists>k. c = ExecuteMethod k))" for c
    using mqtt_call_core[of M to_vec c ?g] mqtt_call_answer[of M to_vec c ?g] by auto
  have "case ?known of
      None \<Rightarrow> a = Err ''unknown method id'' \<and> g' = ?g
    | Some mth \<Rightarrow>
        (case to_vec (agm_variables mth) of
           Inl e \<Rightarrow> a = Err e \<and> g' = ?g
         | Inr payload \<Rightarrow>
             sent (mg_client g') = sent (mg_client ?g) @
               (if is_ok a then [(''dt/method/'' @ name @ ''/execute'', QoS_AtLeastOnce, False, payload)] else []))"
    using call publish_law_step[OF assms]
    by (auto simp: mqtt_execute_method_def known split: option.splits sum.splits prod.splits)
  then show ?thesis using core accepted answers unfolding Let_def call by (simp only: prod.case) simp
qed

text \<open>A client that takes everything, methods with one variable, and a method configured twice.\<close>

definition open_client :: "(string \<times> rumqttc_qos \<times> bool \<times> string) list mqtt_client_api" where
  "open_client =
     \<lparr>mc_new = (\<lambda>opts n. []), mc_subscribe = (\<lambda>t q net. (Ok (), net)),
      mc_publish = (\<lambda>t q r p net. (Ok (), net @ [(t, q, r, p)]))\<rparr>"

definition target_to_vec :: "(string \<rightharpoonup> string) \<Rightarrow> (string, string) result" where
  "target_to_vec m = (case m ''target'' of Some v \<Rightarrow> Ok (''target='' @ v) | None \<Rightarrow> Err ''no target'')"

definition two_configurations :: "string gateway_call list" where
  "two_configurations =
     [ConfigureMethod ''calibrate'' \<lparr>agm_variables = [''target'' \<mapsto> ''1'']\<rparr>,
      ConfigureProperty ''motor/speed'' \<lparr>dsp_ty = ''float'', dsp_value = ''1200''\<rparr>,
      ConfigureMethod ''calibrate'' \<lparr>agm_variables = [''target'' \<mapsto> ''42'']\<rparr>]"

definition idle_gateway :: "(string, unit, (string \<times> rumqttc_qos \<times> bool \<times> string) list) mqtt_gateway" where
  "idle_gateway = \<lparr>mg_core = core_new idownstream_new (), mg_client = [], mg_event_task = True\<rparr>"

theorem executes_the_last_configured_method_witness:
  "let g0 = idle_gateway;
       g = mqtt_calls open_client target_to_vec two_configurations g0;
       (a, g') = mqtt_call open_client target_to_vec (ExecuteMethod ''calibrate'') g
   in a = Ok () \<and> mg_client g' = [(''dt/method/calibrate/execute'', QoS_AtLeastOnce, False, ''target=42'')]"
proof -
  let ?g = "mqtt_calls open_client target_to_vec two_configurations idle_gateway"
  have law: "publish_law open_client (\<lambda>net. net)" by (simp add: publish_law_def open_client_def)
  obtain a g' where call: "mqtt_call open_client target_to_vec (ExecuteMethod ''calibrate'') ?g = (a, g')"
    by (cases "mqtt_call open_client target_to_vec (ExecuteMethod ''calibrate'') ?g")
  have known: "last_write ''calibrate'' (method_writes two_configurations) (ds_methods (cg_downstream (mg_core idle_gateway)) ''calibrate'') =
      Some \<lparr>agm_variables = [''target'' \<mapsto> ''42'']\<rparr>"
    by (simp add: two_configurations_def)
  have silent: "mg_client ?g = []" by (simp add: mqtt_calls_def two_configurations_def on_core_def idle_gateway_def split: prod.splits)
  have configured: "ds_methods (cg_downstream (mg_core ?g)) ''calibrate'' = Some \<lparr>agm_variables = [''target'' \<mapsto> ''42'']\<rparr>"
    unfolding mqtt_calls_methods by (rule known)
  have ok: "a = Ok ()"
    using call configured by (simp add: mqtt_execute_method_def target_to_vec_def open_client_def)
  show ?thesis
    using executes_the_last_configured_method[OF law, of target_to_vec two_configurations idle_gateway "''calibrate''"] ok silent
    unfolding Let_def call prod.case known by (simp add: target_to_vec_def)
qed

end
