(* ===== verification/Demo_Client.thy ===== *)
theory Demo_Client
  imports Protocol_Connection Data_Points
begin

text \<open>
  \<open>databases/abstractdatabase/src/bin/main.rs\<close>: the example that puts the parts of the database layer
  together. Its transport, codec and protocol do nothing, so a connection's state is a unit and each
  trait an instance of the records of methods; what it prints is left out.
\<close>

section \<open>The stand-ins\<close>

text \<open>A managed connection of its own, which the program defines and does not use.\<close>

record dummy_conn =
  dy_healthy :: bool

definition dummy_is_healthy :: "dummy_conn \<Rightarrow> bool \<times> dummy_conn" where
  "dummy_is_healthy c = (dy_healthy c, c)"

definition dummy_reset :: "dummy_conn \<Rightarrow> (string, unit) result \<times> dummy_conn" where
  "dummy_reset c = (Ok (), c)"

definition dummy_close :: "dummy_conn \<Rightarrow> (string, unit) result \<times> dummy_conn" where
  "dummy_close c = (Ok (), c\<lparr>dy_healthy := False\<rparr>)"

interpretation dummy_pool: managed_connection dummy_is_healthy "\<lambda>c. map_prod is_ok id (dummy_reset c)" dy_healthy dy_healthy
  by unfold_locales (auto simp: dummy_is_healthy_def dummy_reset_def)

definition dummy_transport :: "(unit, unit, unit) transport" where
  "dummy_transport = \<lparr>tr_send = (\<lambda>m t. (Ok (), t)), tr_recv = (\<lambda>t. (Ok (), t)), tr_close = (\<lambda>t. (Ok (), t))\<rparr>"

definition passthrough_codec :: "(unit, unit, unit, unit, unit) codec" where
  "passthrough_codec = \<lparr>cd_decode = (\<lambda>m k. (Ok m, k)), cd_encode = (\<lambda>f k. (Ok f, k))\<rparr>"

definition dummy_protocol :: "(unit \<times> unit, unit, unit) protocol" where
  "dummy_protocol =
     \<lparr>pr_handshake = (\<lambda>io s. (Ok (), s)), pr_ping = (\<lambda>io s. (Ok (), s)), pr_reset = (\<lambda>io s. (Ok (), s)),
      pr_on_close = (\<lambda>io s. (Ok (), s))\<rparr>"

definition dummy_stack :: "(unit, unit, unit, unit, unit, unit) stack" where
  "dummy_stack = \<lparr>st_transport = dummy_transport, st_codec = passthrough_codec, st_protocol = dummy_protocol\<rparr>"

text \<open>The transport factory indexes the endpoints of the configuration.\<close>

definition dummy_connect :: "client_config \<Rightarrow> (string, unit) result exec" where
  "dummy_connect cfg = (if tp_endpoints (cl_topology cfg) = [] then Panic else Return (Ok ()))"

definition connector_config_from_client :: "client_config \<Rightarrow> connector_config" where
  "connector_config_from_client cfg =
     \<lparr>cc_max_size = pl_max_size (cl_pooling cfg), cc_min_size = pl_min_size (cl_pooling cfg),
      cc_checkout_timeout = pl_checkout_timeout (cl_pooling cfg), cc_max_idle = pl_max_idle (cl_pooling cfg),
      cc_prewarm_interval = from_secs 10\<rparr>"

section \<open>The program\<close>

definition example_client_config :: client_config where
  "example_client_config =
     client_config_default
       \<lparr>cl_application_name := Some ''demo'',
        cl_topology := topology_default\<lparr>tp_endpoints := [endpoint_new ''127.0.0.1'' 5432], tp_database := Some ''example''\<rparr>\<rparr>"

definition example_factory :: "(string, unit) result \<Rightarrow> (unit, unit) protocol_factory" where
  "example_factory answer =
     \<lparr>pf_cfg = example_client_config, pf_transport_factory = (\<lambda>cfg. answer), pf_codec = (),
      pf_connect_timeout = Some (from_secs 2)\<rparr>"

text \<open>The registry part: a datapoint with its value, and one defined by its first value.\<close>

definition temperature_meta :: data_point_meta where
  "temperature_meta =
     \<lparr>dp_id = DataPointId ''temp-1'', dp_name = QualifiedName ''machine.1.temperature'', dp_declared_type = TF64,
      dp_unit = Some ([CHR 0xC2, CHR 0xB0] @ ''C''), dp_description = Some ''Spindle temperature'', dp_tags = Map.empty,
      dp_source = None, dp_constraints = None\<rparr>"

definition temperature_value :: db_value where
  "temperature_value = VF64 (f64_lit 425 1)"

definition pressure_value :: db_value where
  "pressure_value = VF64 (f64_lit 123 2)"

definition example_registry :: "nat \<Rightarrow> nat \<Rightarrow> (set_error, data_point_registry) result" where
  "example_registry t1 t2 =
     (case set_value (DataPointId ''temp-1'') (timed_value_now t1 temperature_value) False None Map.empty
             (upsert_meta temperature_meta data_registry_new) of
        (Inl e, r) \<Rightarrow> Err e
      | (Inr _, r) \<Rightarrow>
          (case set_value (DataPointId ''pressure-1'') (timed_value_now t2 pressure_value) True
                  (Some (QualifiedName ''machine.1.pressure'')) [''unit'' \<mapsto> ''bar''] r of
             (Inl e, r') \<Rightarrow> Err e
           | (Inr _, r') \<Rightarrow> Ok r'))"

text \<open>
  \<open>main\<close>: the errors that \<open>?\<close> returns are told apart. It ends with the answer of the health check, the
  registry and the pool, whose session is dropped; the task that drop spawns may not get to run.
\<close>

datatype example_error = ConfigError config_error | ConnectError string | NoPermit | SetError set_error

definition example_session ::
  "(unit, unit) protocol_connection \<Rightarrow> nat \<Rightarrow> (unit, unit) protocol_connection connector option exec" where
  "example_session conn now =
     (let cfg = connector_config_from_client example_client_config
      in exec_bind (connector_new cfg) (\<lambda>pool.
           Return (pool_run cfg [Acquire 0, TakeIdle 0 now, Connected 0 (Some conn) now] pool)))"

definition example_main ::
  "nat \<Rightarrow> nat \<Rightarrow> nat
   \<Rightarrow> (example_error, bool \<times> data_point_registry \<times> (unit, unit) protocol_connection connector) result exec" where
  "example_main now t1 t2 =
     (case client_validate example_client_config of
        Inl e \<Rightarrow> Return (Err (ConfigError e))
      | Inr _ \<Rightarrow>
          exec_bind (dummy_connect example_client_config) (\<lambda>answer.
            case factory_connect dummy_stack (example_factory answer) of
              Inl e \<Rightarrow> Return (Err (ConnectError e))
            | Inr conn \<Rightarrow>
                exec_bind (example_session conn now) (\<lambda>session. Return
                  (case session of
                     None \<Rightarrow> Err NoPermit
                   | Some pool \<Rightarrow>
                       (case conn_is_healthy dummy_stack conn of
                          (ok, conn1) \<Rightarrow>
                            (case example_registry t1 t2 of
                               Inl e \<Rightarrow> Err (SetError e)
                             | Inr r \<Rightarrow>
                                 (case pool_run (connector_config_from_client example_client_config)
                                         [UseConn 0 conn1, DropSession 0] pool of
                                    None \<Rightarrow> Err NoPermit
                                  | Some pool' \<Rightarrow> Ok (ok, r, pool'))))))))"

section \<open>What it does\<close>

text \<open>The configuration of the pool is the library's own conversion, copied.\<close>

lemma connector_config_copied: "connector_config_from_client = connector_config_of"
  by (rule ext) (simp add: connector_config_from_client_def connector_config_of_def)

text \<open>A validated configuration has an endpoint to connect to.\<close>

lemma validated_connects: "client_validate cfg = Ok () \<Longrightarrow> dummy_connect cfg = Return (Ok ())"
  by (auto simp: client_validate_def and_then_def topology_validate_def dummy_connect_def split: if_splits)

lemma example_is_valid: "client_validate example_client_config = Ok ()"
proof -
  have "trim ''127.0.0.1'' = ''127.0.0.1''" by (simp add: trim_printable printable_def code_def)
  then show ?thesis
    by (simp add: client_validate_def and_then_def example_client_config_def client_config_default_def topology_validate_def
        endpoint_validate_def endpoint_new_def auth_validate_def auth_default_def tls_validate_def pooling_validate_def
        pooling_default_def timeout_validate_def timeout_default_def session_validate_def observability_validate_def
        dur_is_zero_def from_secs_def tls_default_def)
qed

lemma example_connects:
  "factory_connect dummy_stack (example_factory (Ok ())) = Ok \<lparr>pc_transport = (), pc_codec = (), pc_healthy = True\<rparr>"
  by (simp add: factory_connect_def example_factory_def dummy_stack_def dummy_protocol_def handshake_def on_io_def
      protocol_connection_new_def)

lemma example_ping:
  "conn_is_healthy dummy_stack \<lparr>pc_transport = (), pc_codec = (), pc_healthy = True\<rparr> =
   (True, \<lparr>pc_transport = (), pc_codec = (), pc_healthy = True\<rparr>)"
  by (simp add: conn_is_healthy_def ping_def on_io_def dummy_stack_def dummy_protocol_def)

text \<open>
  The example runs to its end: the configuration is valid, the connection healthy, both values are
  stored under their names, and its permit is free again although the connection is not yet back.
\<close>

theorem example_runs:
  "\<exists>r pool. example_main now t1 t2 = Return (Ok (True, r, pool)) \<and>
     map_option ds_current (get_by_name r (QualifiedName ''machine.1.temperature'')) = Some (Some (timed_value_now t1 temperature_value)) \<and>
     map_option ds_current (get_by_name r (QualifiedName ''machine.1.pressure'')) = Some (Some (timed_value_now t2 pressure_value)) \<and>
     co_permits pool = 10 \<and> co_idle pool = [] \<and> (\<exists>p. co_tasks pool 0 = Some (Returning p))"
proof -
  let ?conn = "\<lparr>pc_transport = (), pc_codec = (), pc_healthy = True\<rparr> :: (unit, unit) protocol_connection"
  have size: "cc_max_size (connector_config_from_client example_client_config) = 10"
    by (simp add: connector_config_from_client_def example_client_config_def client_config_default_def pooling_default_def)
  obtain pool where pool: "example_session ?conn now = Return (Some pool)" "co_tasks pool = [0 \<mapsto> InSession \<lparr>po_conn = ?conn, po_last_used = now, po_id = 1\<rparr>]"
      "co_permits pool = 9" "co_idle pool = []"
    by (simp add: example_session_def Let_def connector_new_def empty_pool_def max_permits_def size set_task_def take_idle_def new_pooled_def)
  obtain r where r: "example_registry t1 t2 = Ok r"
      "map_option ds_current (get_by_name r (QualifiedName ''machine.1.temperature'')) = Some (Some (timed_value_now t1 temperature_value))"
      "map_option ds_current (get_by_name r (QualifiedName ''machine.1.pressure'')) = Some (Some (timed_value_now t2 pressure_value))"
    by (simp add: example_registry_def set_value_def upsert_meta_def temperature_meta_def data_registry_new_def Let_def
        temperature_value_def pressure_value_def get_by_name_def timed_value_now_def)
  obtain pool' where pool': "pool_run (connector_config_from_client example_client_config) [UseConn 0 ?conn, DropSession 0] pool = Some pool'"
      "co_permits pool' = 10" "co_idle pool' = []" "\<exists>p. co_tasks pool' 0 = Some (Returning p)"
    by (simp add: pool set_task_def release_permit_def)
  have "example_main now t1 t2 = Return (Ok (True, r, pool'))"
    unfolding example_main_def example_is_valid validated_connects[OF example_is_valid]
    by (simp add: example_connects example_ping pool(1) pool'(1) r(1) del: pool_run.simps)
  then show ?thesis using r(2,3) pool'(2-4) by (intro exI[of _ r] exI[of _ pool'] conjI)
qed

end
