(* ===== verification/Pg_Queue.thy ===== *)
theory Pg_Queue
  imports Pg_Client Channels
begin

text \<open>
  The Postgres actor behind its channel (\<open>postgresimpl.rs\<close>): real-time code submits without waiting
  (\<open>try_set_position\<close>, \<open>try_set_speed\<close>, \<open>try_submit_execute\<close>, \<open>try_submit_insert_row\<close>,
  \<open>submit_insert_row_best_effort\<close>), others call and wait, while the actor takes one command after the
  other. The steps of the submitters, of the callers, of the tasks that a best effort spawns and of the
  actor interleave.
\<close>

section \<open>The system\<close>

text \<open>
  \<open>sy_waiting\<close>: the commands of the spawned tasks and of the callers whose send has not gone through.
  \<open>sy_log\<close>: the commands the actor handled, each with what it answered (to the caller) or logged.
\<close>

record ('j, 'r, 'ch, 'w) pg_system =
  sy_chan :: 'ch
  sy_waiting :: "'j db_command list"
  sy_state :: worker_state
  sy_world :: 'w
  sy_log :: "('j db_command \<times> 'r reply) list"

definition channel_capacity :: nat where
  "channel_capacity = 256"

definition pg_system_new ::
  "('j db_command, 'ch) mpsc \<Rightarrow> ('j, 'r, 'w) pg_client \<Rightarrow> string \<Rightarrow> 'w \<Rightarrow> ('j, 'r, 'ch, 'w) pg_system" where
  "pg_system_new mp c name w =
     (case bootstrap c name (worker_init name) w of
        (_, s1, w1) \<Rightarrow>
          \<lparr>sy_chan = mp_new mp channel_capacity, sy_waiting = [], sy_state = s1, sy_world = w1, sy_log = []\<rparr>)"

datatype 'j pg_event =
    TrySetPosition string pg_position
  | TrySetSpeed string f64
  | TrySubmit string "'j sql_param list"
  | TryInsertRow string "(string \<times> 'j sql_param) list"
  | BestEffortRow string "(string \<times> 'j sql_param) list"
  | AwaitedCall "'j db_command"
  | WaitingSend nat
  | ActorTurn

text \<open>What a submitter gets to see.\<close>

fun pg_answer ::
  "('j db_command, 'ch) mpsc \<Rightarrow> 'j pg_event \<Rightarrow> ('j, 'r, 'ch, 'w) pg_system \<Rightarrow> (db_error, unit) result option" where
  "pg_answer mp (TrySetPosition k p) s = Some (fst (try_set_position (mp_try_send mp) k p (sy_chan s)))"
| "pg_answer mp (TrySetSpeed k v) s = Some (fst (try_set_speed (mp_try_send mp) k v (sy_chan s)))"
| "pg_answer mp (TrySubmit sql ps) s = Some (fst (try_submit_execute (mp_try_send mp) sql ps (sy_chan s)))"
| "pg_answer mp (TryInsertRow t vs) s = Some (fst (try_submit_insert_row (mp_try_send mp) t vs (sy_chan s)))"
| "pg_answer mp _ s = None"

text \<open>
  An awaiting method hands its command to \<open>send\<close>, which goes through at once or later (\<open>WaitingSend\<close>), and
  then waits for the answer. A step that cannot happen is \<open>None\<close>: a spawned task or a caller waits while the channel is full (and drops its
  command when it is closed), the actor waits while it is empty.
\<close>

fun pg_step ::
  "('j db_command, 'ch) mpsc \<Rightarrow> ('j, 'r, 'w) pg_client \<Rightarrow> 'j pg_event \<Rightarrow> ('j, 'r, 'ch, 'w) pg_system
   \<Rightarrow> ('j, 'r, 'ch, 'w) pg_system option" where
  "pg_step mp c (TrySetPosition k p) s = Some (s\<lparr>sy_chan := snd (try_set_position (mp_try_send mp) k p (sy_chan s))\<rparr>)"
| "pg_step mp c (TrySetSpeed k v) s = Some (s\<lparr>sy_chan := snd (try_set_speed (mp_try_send mp) k v (sy_chan s))\<rparr>)"
| "pg_step mp c (TrySubmit sql ps) s = Some (s\<lparr>sy_chan := snd (try_submit_execute (mp_try_send mp) sql ps (sy_chan s))\<rparr>)"
| "pg_step mp c (TryInsertRow t vs) s = Some (s\<lparr>sy_chan := snd (try_submit_insert_row (mp_try_send mp) t vs (sy_chan s))\<rparr>)"
| "pg_step mp c (BestEffortRow t vs) s =
     (case submit_insert_row_best_effort (mp_try_send mp) t vs (sy_chan s) of
        (parked, ch) \<Rightarrow>
          Some (s\<lparr>sy_chan := ch,
                  sy_waiting := sy_waiting s @ (case parked of None \<Rightarrow> [] | Some cmd \<Rightarrow> [cmd])\<rparr>))"
| "pg_step mp c (AwaitedCall cmd) s = Some (s\<lparr>sy_waiting := sy_waiting s @ [cmd]\<rparr>)"
| "pg_step mp c (WaitingSend i) s =
     (if i < length (sy_waiting s)
      then
        (let rest = take i (sy_waiting s) @ drop (Suc i) (sy_waiting s)
         in case mp_try_send mp (sy_waiting s ! i) (sy_chan s) of
              (Sent, ch) \<Rightarrow> Some (s\<lparr>sy_chan := ch, sy_waiting := rest\<rparr>)
            | (SendClosed _, ch) \<Rightarrow> Some (s\<lparr>sy_chan := ch, sy_waiting := rest\<rparr>)
            | (SendFull _, ch) \<Rightarrow> None)
      else None)"
| "pg_step mp c ActorTurn s =
     (case mp_recv mp (sy_chan s) of
        (Received cmd, ch) \<Rightarrow>
          (case handle_command c cmd (sy_state s) (sy_world s) of
             (r, st, w) \<Rightarrow> Some (s\<lparr>sy_chan := ch, sy_state := st, sy_world := w, sy_log := sy_log s @ [(cmd, r)]\<rparr>))
      | (AllSendersDropped, _) \<Rightarrow> None
      | (NothingYet, _) \<Rightarrow> None)"

fun pg_run ::
  "('j db_command, 'ch) mpsc \<Rightarrow> ('j, 'r, 'w) pg_client \<Rightarrow> 'j pg_event list \<Rightarrow> ('j, 'r, 'ch, 'w) pg_system
   \<Rightarrow> ('j, 'r, 'ch, 'w) pg_system option" where
  "pg_run mp c [] s = Some s"
| "pg_run mp c (e # es) s = (case pg_step mp c e s of None \<Rightarrow> None | Some s' \<Rightarrow> pg_run mp c es s')"

section \<open>Submissions\<close>

definition set_position_command :: "string \<Rightarrow> pg_position \<Rightarrow> 'j db_command" where
  "set_position_command k p = ExecuteNoAck set_position_sql [PText k, PF64 (pos_x p), PF64 (pos_y p), PF64 (pos_z p)]"

definition set_speed_command :: "string \<Rightarrow> f64 \<Rightarrow> 'j db_command" where
  "set_speed_command k v = ExecuteNoAck set_speed_sql [PText k, PF64 v]"

fun submitted :: "'j pg_event \<Rightarrow> ('j, 'r, 'ch, 'w) pg_system \<Rightarrow> 'j db_command option" where
  "submitted (TrySetPosition k p) s = Some (set_position_command k p)"
| "submitted (TrySetSpeed k v) s = Some (set_speed_command k v)"
| "submitted (TrySubmit sql ps) s = Some (ExecuteNoAck sql ps)"
| "submitted (TryInsertRow t vs) s = Some (InsertRowNoAck t vs)"
| "submitted (BestEffortRow t vs) s = Some (InsertRowNoAck t vs)"
| "submitted (AwaitedCall cmd) s = None"
| "submitted (WaitingSend i) s = (if i < length (sy_waiting s) then Some (sy_waiting s ! i) else None)"
| "submitted ActorTurn s = None"

text \<open>The command that a step brings into the channel.\<close>

definition taken :: "('j db_command, 'ch) mpsc \<Rightarrow> 'j pg_event \<Rightarrow> ('j, 'r, 'ch, 'w) pg_system \<Rightarrow> 'j db_command list" where
  "taken mp e s =
     (case submitted e s of
        None \<Rightarrow> []
      | Some cmd \<Rightarrow> if fst (mp_try_send mp cmd (sy_chan s)) = Sent then [cmd] else [])"

fun taken_run ::
  "('j db_command, 'ch) mpsc \<Rightarrow> ('j, 'r, 'w) pg_client \<Rightarrow> 'j pg_event list \<Rightarrow> ('j, 'r, 'ch, 'w) pg_system
   \<Rightarrow> 'j db_command list" where
  "taken_run mp c [] s = []"
| "taken_run mp c (e # es) s =
     taken mp e s @ (case pg_step mp c e s of None \<Rightarrow> [] | Some s' \<Rightarrow> taken_run mp c es s')"

lemma try_submit_chan: "snd (try_submit try_send cmd ch) = snd (try_send cmd ch)"
  by (auto simp: try_submit_def split: prod.splits try_send_outcome.splits)

lemma try_submit_ok: "fst (try_submit try_send cmd ch) = Ok () \<longleftrightarrow> fst (try_send cmd ch) = Sent"
  by (auto simp: try_submit_def split: prod.splits try_send_outcome.splits)

lemma submissions:
  "try_set_position try_send k p ch = try_submit try_send (set_position_command k p) ch"
  "try_set_speed try_send k v ch = try_submit try_send (set_speed_command k v) ch"
  "try_submit_execute try_send sql ps ch = try_submit try_send (ExecuteNoAck sql ps) ch"
  "try_submit_insert_row try_send t vs ch = try_submit try_send (InsertRowNoAck t vs) ch"
  by (simp_all add: try_set_position_def try_set_speed_def try_submit_execute_def try_submit_insert_row_def
      set_position_command_def set_speed_command_def)

lemma best_effort_chan: "snd (submit_insert_row_best_effort try_send t vs ch) = snd (try_send (InsertRowNoAck t vs) ch)"
  by (auto simp: submit_insert_row_best_effort_def split: prod.splits try_send_outcome.splits)

text \<open>A submitter is told \<open>Ok\<close> exactly when its command is in the channel.\<close>

lemma ok_when_taken: "pg_answer mp e s = Some (Ok ()) \<Longrightarrow> \<exists>cmd. submitted e s = Some cmd \<and> taken mp e s = [cmd]"
  by (cases e) (simp_all add: submissions try_submit_ok taken_def)

section \<open>The actor and its queue\<close>

text \<open>
  Every step brings in what it takes at the back, and hands to the actor what is in front. \<open>sy_log\<close>
  tells the actor's state: it is that of a run on the logged commands.
\<close>

lemma law_try:
  assumes "mpsc_laws mp contents closed"
  shows "contents (snd (mp_try_send mp cmd ch)) = contents ch @ (if fst (mp_try_send mp cmd ch) = Sent then [cmd] else [])"
  using law_send[OF assms, of cmd ch "fst (mp_try_send mp cmd ch)" "snd (mp_try_send mp cmd ch)"] by simp

lemma pg_step_contents:
  assumes "mpsc_laws mp contents closed" "pg_step mp c e s = Some s'"
  shows "map fst (sy_log s') @ contents (sy_chan s') = map fst (sy_log s) @ contents (sy_chan s) @ taken mp e s"
proof (cases e)
  case (TrySetPosition k p)
  then show ?thesis using assms(2) law_try[OF assms(1)] by (auto simp: taken_def submissions try_submit_chan)
next
  case (TrySetSpeed k v)
  then show ?thesis using assms(2) law_try[OF assms(1)] by (auto simp: taken_def submissions try_submit_chan)
next
  case (TryInsertRow t vs)
  then show ?thesis using assms(2) law_try[OF assms(1)] by (auto simp: taken_def submissions try_submit_chan)
next
  case (TrySubmit sql ps)
  then show ?thesis using assms(2) law_try[OF assms(1)] by (auto simp: taken_def submissions try_submit_chan)
next
  case (AwaitedCall cmd)
  then show ?thesis using assms(2) by (auto simp: taken_def)
next
  case (BestEffortRow t vs)
  obtain parked ch where sent: "submit_insert_row_best_effort (mp_try_send mp) t vs (sy_chan s) = (parked, ch)"
    by (cases "submit_insert_row_best_effort (mp_try_send mp) t vs (sy_chan s)")
  have "ch = snd (mp_try_send mp (InsertRowNoAck t vs) (sy_chan s))" using best_effort_chan[of "mp_try_send mp" t vs "sy_chan s"] sent by simp
  then show ?thesis using BestEffortRow assms(2) law_try[OF assms(1)] sent by (auto simp: taken_def)
next
  case (WaitingSend i)
  obtain outcome ch where sent: "mp_try_send mp (sy_waiting s ! i) (sy_chan s) = (outcome, ch)"
    by (cases "mp_try_send mp (sy_waiting s ! i) (sy_chan s)")
  then show ?thesis
    using WaitingSend assms(2) law_try[OF assms(1), of "sy_waiting s ! i" "sy_chan s"]
    by (cases outcome) (auto simp: taken_def Let_def split: if_splits)
next
  case ActorTurn
  obtain outcome ch where recv: "mp_recv mp (sy_chan s) = (outcome, ch)" by (cases "mp_recv mp (sy_chan s)")
  then show ?thesis
    using ActorTurn assms(2) law_recv[OF assms(1) recv] by (cases outcome) (auto simp: taken_def split: prod.splits)
qed

lemma worker_run_snoc:
  "worker_run c cmds st0 w0 = (rs, st, w) \<Longrightarrow> handle_command c cmd st w = (r, st', w') \<Longrightarrow>
   worker_run c (cmds @ [cmd]) st0 w0 = (rs @ [r], st', w')"
  by (induction cmds arbitrary: st0 w0 rs) (auto split: prod.splits)

lemma pg_step_actor:
  assumes "worker_run c (map fst (sy_log s)) st0 w0 = (map snd (sy_log s), sy_state s, sy_world s)" "pg_step mp c e s = Some s'"
  shows "worker_run c (map fst (sy_log s')) st0 w0 = (map snd (sy_log s'), sy_state s', sy_world s')"
proof (cases "e = ActorTurn")
  case True
  obtain outcome ch where recv: "mp_recv mp (sy_chan s) = (outcome, ch)" by (cases "mp_recv mp (sy_chan s)")
  then obtain cmd where cmd: "outcome = Received cmd" using True assms(2) by (cases outcome) auto
  obtain r st w where handled: "handle_command c cmd (sy_state s) (sy_world s) = (r, st, w)"
    by (cases "handle_command c cmd (sy_state s) (sy_world s)")
  show ?thesis
    using worker_run_snoc[OF assms(1) handled] True assms(2) recv cmd handled by auto
next
  case False
  then have "sy_log s' = sy_log s" "sy_state s' = sy_state s" "sy_world s' = sy_world s"
    using assms(2) by (cases e; auto simp: Let_def split: prod.splits if_splits try_send_outcome.splits)+
  then show ?thesis using assms(1) by simp
qed

lemma pg_run_contents:
  assumes "mpsc_laws mp contents closed"
  shows "pg_run mp c es s = Some s' \<Longrightarrow>
    map fst (sy_log s') @ contents (sy_chan s') = map fst (sy_log s) @ contents (sy_chan s) @ taken_run mp c es s"
proof (induction es arbitrary: s)
  case (Cons e es)
  obtain s1 where s1: "pg_step mp c e s = Some s1" "pg_run mp c es s1 = Some s'"
    using Cons.prems(1) by (auto split: option.splits)
  from Cons.IH[OF s1(2)] show ?case using pg_step_contents[OF assms s1(1)] s1(1) by simp
qed simp

lemma pg_step_log: "pg_step mp c e s = Some s' \<Longrightarrow> \<exists>rest. sy_log s' = sy_log s @ rest"
  by (cases e; auto simp: Let_def split: prod.splits if_splits try_send_outcome.splits recv_outcome.splits)

lemma pg_run_log: "pg_run mp c es s = Some s' \<Longrightarrow> \<exists>rows. map fst (sy_log s') = map fst (sy_log s) @ rows"
proof (induction es arbitrary: s)
  case (Cons e es)
  obtain s1 where s1: "pg_step mp c e s = Some s1" "pg_run mp c es s1 = Some s'"
    using Cons.prems by (auto split: option.splits)
  show ?case using Cons.IH[OF s1(2)] pg_step_log[OF s1(1)] by auto
qed simp

lemma pg_run_actor:
  "pg_run mp c es s = Some s' \<Longrightarrow>
   worker_run c (map fst (sy_log s)) st0 w0 = (map snd (sy_log s), sy_state s, sy_world s) \<Longrightarrow>
   worker_run c (map fst (sy_log s')) st0 w0 = (map snd (sy_log s'), sy_state s', sy_world s')"
proof (induction es arbitrary: s)
  case (Cons e es)
  obtain s1 where s1: "pg_step mp c e s = Some s1" "pg_run mp c es s1 = Some s'"
    using Cons.prems(1) by (auto split: option.splits)
  from Cons.IH[OF s1(2) pg_step_actor[OF Cons.prems(2) s1(1)]] show ?case .
qed simp

text \<open>
  C12. Over every interleaving of submitters, spawned tasks and actor, the actor has handled the commands
  that the channel took, in that order and each once, except those still queued, with the answers and the
  state of \<open>worker_task\<close> run on them alone; and a submitter is told \<open>Ok\<close> only for a command that is in
  the channel from then on.
\<close>

theorem actor_handles_what_was_taken:
  assumes "mpsc_laws mp contents closed" and "pg_run mp c es (pg_system_new mp c name w) = Some s"
  shows "map fst (sy_log s) @ contents (sy_chan s) = taken_run mp c es (pg_system_new mp c name w) \<and>
     worker_task c name (map fst (sy_log s)) w = (map snd (sy_log s), sy_state s, sy_world s) \<and>
     (\<forall>e. pg_answer mp e s = Some (Ok ()) \<longrightarrow>
        (\<exists>cmd s'. submitted e s = Some cmd \<and> pg_step mp c e s = Some s' \<and> contents (sy_chan s') = contents (sy_chan s) @ [cmd]))"
proof -
  let ?s0 = "pg_system_new mp c name w"
  obtain r s1 w1 where boot: "bootstrap c name (worker_init name) w = (r, s1, w1)"
    by (cases "bootstrap c name (worker_init name) w")
  have start: "sy_log ?s0 = []" "sy_state ?s0 = s1" "sy_world ?s0 = w1" "contents (sy_chan ?s0) = []"
    using law_new[OF assms(1)] by (simp_all add: pg_system_new_def boot)
  have handled: "worker_run c (map fst (sy_log ?s0)) s1 w1 = (map snd (sy_log ?s0), sy_state ?s0, sy_world ?s0)"
    by (simp add: start)
  have enqueued: "\<exists>cmd s'. submitted e s = Some cmd \<and> pg_step mp c e s = Some s' \<and> contents (sy_chan s') = contents (sy_chan s) @ [cmd]"
    if ok: "pg_answer mp e s = Some (Ok ())" for e
  proof -
    obtain cmd where cmd: "submitted e s = Some cmd" "taken mp e s = [cmd]" using ok_when_taken[OF ok] by (elim exE conjE)
    obtain s' where s': "pg_step mp c e s = Some s'" "sy_log s' = sy_log s" using ok by (cases e) simp_all
    show ?thesis using pg_step_contents[OF assms(1) s'(1)] cmd s' by simp
  qed
  show ?thesis
    using pg_run_contents[OF assms] pg_run_actor[OF assms(2) handled] enqueued by (simp add: start worker_task_def boot)
qed

section \<open>Positions end to end\<close>

text \<open>
  What the position statements do to the table of positions. The upsert that succeeds stores under the
  entity; the one that fails may have stored or not (the connection may break before or after the
  server did its work). The speed statement leaves the table alone; the select gives the stored row.
\<close>

definition select_position_sql :: string where
  "select_position_sql = ''SELECT x, y, z FROM '' @ table_position @ '' WHERE entity_id = $1''"

definition position_law ::
  "('j, 'r, 'w) pg_client \<Rightarrow> ('r \<Rightarrow> string \<Rightarrow> f64) \<Rightarrow> ('w \<Rightarrow> string \<rightharpoonup> pg_position) \<Rightarrow> bool" where
  "position_law c row_f64 table \<longleftrightarrow>
     (\<forall>k p w. case pg_execute c set_position_sql [PText k, PF64 (pos_x p), PF64 (pos_y p), PF64 (pos_z p)] w of
        (Inl e, w') \<Rightarrow> table w' = table w \<or> table w' = (table w)(k \<mapsto> p)
      | (Inr n, w') \<Rightarrow> table w' = (table w)(k \<mapsto> p)) \<and>
     (\<forall>k v w. table (snd (pg_execute c set_speed_sql [PText k, PF64 v] w)) = table w) \<and>
     (\<forall>k w. case pg_query c select_position_sql [PText k] w of
        (Inl e, w') \<Rightarrow> True
      | (Inr rows, w') \<Rightarrow> map (position_of_row row_f64) rows = (case table w k of None \<Rightarrow> [] | Some p \<Rightarrow> [p]))"

lemma position_law_steps:
  assumes "position_law c row_f64 table"
  shows "pg_execute c set_position_sql [PText k, PF64 (pos_x p), PF64 (pos_y p), PF64 (pos_z p)] w = (a, w1) \<Longrightarrow>
      table w1 = (table w)(k \<mapsto> p) \<or> \<not> is_ok a \<and> table w1 = table w"
    and "table (snd (pg_execute c set_speed_sql [PText k, PF64 v] w)) = table w"
    and "pg_query c select_position_sql [PText k] w = (Ok rows, w2) \<Longrightarrow>
      map (position_of_row row_f64) rows = (case table w k of None \<Rightarrow> [] | Some p \<Rightarrow> [p])"
proof -
  note laws = assms[unfolded position_law_def]
  show "table w1 = (table w)(k \<mapsto> p) \<or> \<not> is_ok a \<and> table w1 = table w"
    if "pg_execute c set_position_sql [PText k, PF64 (pos_x p), PF64 (pos_y p), PF64 (pos_z p)] w = (a, w1)"
    using laws[THEN conjunct1, THEN spec, of k, THEN spec, of p, THEN spec, of w] that by (cases a) auto
  show "table (snd (pg_execute c set_speed_sql [PText k, PF64 v] w)) = table w" using laws by blast
  show "map (position_of_row row_f64) rows = (case table w k of None \<Rightarrow> [] | Some p \<Rightarrow> [p])"
    if "pg_query c select_position_sql [PText k] w = (Ok rows, w2)"
    using laws[THEN conjunct2, THEN conjunct2, THEN spec, of k, THEN spec, of w] that by simp
qed

text \<open>
  What may be stored for the entity \<open>k\<close> after a logged command, given what may have been stored before:
  a position statement that succeeded settles it, one that failed leaves both open.
\<close>

fun may_hold :: "string \<Rightarrow> 'j db_command \<times> 'r reply \<Rightarrow> pg_position option set \<Rightarrow> pg_position option set" where
  "may_hold k (ExecuteNoAck sql [PText i, PF64 x, PF64 y, PF64 z], Logged r) S =
     (if sql = set_position_sql \<and> i = k then
        (case r of
           Inl _ \<Rightarrow> insert (Some \<lparr>pos_x = x, pos_y = y, pos_z = z\<rparr>) S
         | Inr _ \<Rightarrow> {Some \<lparr>pos_x = x, pos_y = y, pos_z = z\<rparr>})
      else S)"
| "may_hold k _ S = S"

text \<open>The commands that set positions, and those that leave their table alone in every state.\<close>

definition position_command :: "'j db_command \<Rightarrow> bool" where
  "position_command cmd \<longleftrightarrow> (\<exists>k p. cmd = set_position_command k p)"

definition leaves_positions ::
  "('j, 'r, 'w) pg_client \<Rightarrow> ('w \<Rightarrow> string \<rightharpoonup> pg_position) \<Rightarrow> 'j db_command \<Rightarrow> bool" where
  "leaves_positions c table cmd \<longleftrightarrow> (\<forall>s w. table (snd (snd (handle_command c cmd s w))) = table w)"

lemma speed_leaves_positions:
  assumes "position_law c row_f64 table"
  shows "leaves_positions c table (set_speed_command k v)"
proof -
  have "table w' = table w" if "pg_execute c set_speed_sql [PText k, PF64 v] w = (a, w')" for w a w'
    using position_law_steps(2)[OF assms, of k v w] that by simp
  then show ?thesis by (auto simp: leaves_positions_def set_speed_command_def split: prod.splits sum.splits)
qed

lemma may_hold_other:
  assumes "\<not> position_command cmd"
  shows "may_hold k (cmd, r) S = S"
proof (cases "(k, (cmd, r), S)" rule: may_hold.cases)
  case (1 k' sql i x y z r' S')
  have "ExecuteNoAck set_position_sql [PText i, PF64 x, PF64 y, PF64 z] =
      set_position_command i \<lparr>pos_x = x, pos_y = y, pos_z = z\<rparr>"
    by (simp add: set_position_command_def)
  then have "sql \<noteq> set_position_sql" using 1 assms unfolding position_command_def by auto
  then show ?thesis using 1 by simp
qed simp_all

lemma position_eta: "\<lparr>pos_x = pos_x p, pos_y = pos_y p, pos_z = pos_z p\<rparr> = p"
  by (cases p) simp

lemma may_hold_entity:
  "may_hold k (set_position_command i p, Logged r) S = (if i = k then (case r of Inl _ \<Rightarrow> insert (Some p) S | Inr _ \<Rightarrow> {Some p}) else S)"
  by (cases r) (simp_all add: set_position_command_def position_eta)

lemma position_handled:
  assumes "position_law c row_f64 table" "position_command cmd \<or> leaves_positions c table cmd"
    and "handle_command c cmd s w = (r, s', w')" "table w k \<in> S"
  shows "table w' k \<in> may_hold k (cmd, r) S"
proof (cases "position_command cmd")
  case True
  then obtain i p where cmd: "cmd = set_position_command i p" by (auto simp: position_command_def)
  obtain a w1 where exec: "pg_execute c set_position_sql [PText i, PF64 (pos_x p), PF64 (pos_y p), PF64 (pos_z p)] w = (a, w1)"
    by (meson surj_pair)
  have r: "w' = w1" "r = Logged (case a of Inl e \<Rightarrow> Err e | Inr _ \<Rightarrow> Ok ())"
    using assms(3) exec by (cases a; auto simp: cmd set_position_command_def)+
  show ?thesis
    using position_law_steps(1)[OF assms(1) exec] assms(4) unfolding cmd r may_hold_entity by (cases a) auto
next
  case False
  then have "leaves_positions c table cmd" using assms(2) by simp
  then have "table (snd (snd (handle_command c cmd s w))) = table w" by (simp add: leaves_positions_def)
  then show ?thesis using assms(3,4) may_hold_other[OF False, of k r S] by simp
qed

lemma worker_positions:
  assumes "position_law c row_f64 table"
  shows "list_all (\<lambda>cmd. position_command cmd \<or> leaves_positions c table cmd) cmds \<Longrightarrow> worker_run c cmds s w = (rs, s', w') \<Longrightarrow>
    table w k \<in> S \<Longrightarrow> table w' k \<in> fold (may_hold k) (zip cmds rs) S"
proof (induction cmds arbitrary: s w rs S)
  case (Cons cmd cmds)
  obtain r s1 w1 rs1 where step: "handle_command c cmd s w = (r, s1, w1)" "worker_run c cmds s1 w1 = (rs1, s', w')" "rs = r # rs1"
    using Cons.prems(2) by (auto split: prod.splits)
  have "table w1 k \<in> may_hold k (cmd, r) S"
    using position_handled[OF assms _ step(1) Cons.prems(3)] Cons.prems(1) by simp
  from Cons.IH[OF _ step(2) this] show ?case using Cons.prems(1) step(3) by simp
qed simp

lemma may_hold_settled:
  "\<forall>(cmd, r) \<in> set log. \<forall>q. cmd \<noteq> set_position_command k q \<Longrightarrow> fold (may_hold k) log S = S"
proof (induction log arbitrary: S)
  case (Cons e log)
  obtain cmd r where e: "e = (cmd, r)" by fastforce
  have "may_hold k (cmd, r) S = S"
  proof (cases "position_command cmd")
    case True
    then obtain i p where cmd: "cmd = set_position_command i p" by (auto simp: position_command_def)
    then have "i \<noteq> k" using Cons.prems e by auto
    then show ?thesis unfolding cmd set_position_command_def by (cases r) simp_all
  qed (rule may_hold_other)
  then show ?case using Cons.IH[of S] Cons.prems by (simp add: e)
qed simp

text \<open>
  C13. A position that was accepted and stored is what \<open>get_position\<close> reads. Let the commands that the
  channel took be those that set positions and others that do not write their table (readings of speed, for
  one, never do). When the queue is worked off, the answer for an entity is the position of the last
  statement for it that succeeded, if none for it failed later; after a later failure it is that one or
  one of those that failed since, as a failed statement may or may not have reached the table. A refused
  position is lost with no more than a line in the log, though its submitter was told \<open>Ok\<close>.
\<close>

theorem accepted_positions_are_read:
  assumes "mpsc_laws mp contents closed" and "position_law c row_f64 table"
    and "list_all (\<lambda>cmd. position_command cmd \<or> leaves_positions c table cmd) (taken_run mp c es (pg_system_new mp c name w))"
    and "pg_run mp c es (pg_system_new mp c name w) = Some s" and "contents (sy_chan s) = []"
    and "get_position row_f64 (actor_call c) k (sy_state s, sy_world s) = (Ok answer, sw)"
  shows "map fst (sy_log s) = taken_run mp c es (pg_system_new mp c name w) \<and>
     answer \<in> fold (may_hold k) (sy_log s) {table (sy_world (pg_system_new mp c name w)) k} \<and>
     (\<forall>before p later. sy_log s = before @ (set_position_command k p, Logged (Ok ())) # later \<and>
        (\<forall>(cmd, r) \<in> set later. \<forall>q. cmd \<noteq> set_position_command k q) \<longrightarrow> answer = Some p)"
proof -
  let ?s0 = "pg_system_new mp c name w"
  obtain r s1 w1 where boot: "bootstrap c name (worker_init name) w = (r, s1, w1)"
    by (cases "bootstrap c name (worker_init name) w")
  have start: "sy_log ?s0 = []" "sy_state ?s0 = s1" "sy_world ?s0 = w1" "contents (sy_chan ?s0) = []"
    using law_new[OF assms(1)] by (simp_all add: pg_system_new_def boot)
  have handled: "worker_run c (map fst (sy_log ?s0)) s1 w1 = (map snd (sy_log ?s0), sy_state ?s0, sy_world ?s0)"
    by (simp add: start)
  note run = pg_run_contents[OF assms(1) assms(4)] pg_run_actor[OF assms(4) handled]
  have log: "map fst (sy_log s) = taken_run mp c es ?s0" using run(1) assms(5) by (simp add: start)
  have "table (sy_world s) k \<in> fold (may_hold k) (zip (map fst (sy_log s)) (map snd (sy_log s))) {table w1 k}"
    using worker_positions[OF assms(2), of "map fst (sy_log s)"] run(2) assms(3) log by auto
  then have stored: "table (sy_world s) k \<in> fold (may_hold k) (sy_log s) {table w1 k}" by (simp add: zip_map_fst_snd)
  obtain rows w' where query: "pg_query c select_position_sql [PText k] (sy_world s) = (Inr rows, w')"
      "answer = (case rows of [] \<Rightarrow> None | x # _ \<Rightarrow> Some (position_of_row row_f64 x))"
    using assms(6)
    by (auto simp: get_position_def query_raw_def rpc_def actor_call_def select_position_sql_def
        split: prod.splits sum.splits list.splits)
  have "map (position_of_row row_f64) rows = (case table (sy_world s) k of None \<Rightarrow> [] | Some p \<Rightarrow> [p])"
    by (rule position_law_steps(3)[OF assms(2) query(1)])
  then have "answer = table (sy_world s) k" using query(2) by (cases rows) (auto split: option.splits)
  then have held: "answer \<in> fold (may_hold k) (sy_log s) {table w1 k}" using stored by simp
  have "answer = Some p" if "sy_log s = before @ (set_position_command k p, Logged (Ok ())) # later"
      "\<forall>(cmd, r) \<in> set later. \<forall>q. cmd \<noteq> set_position_command k q" for before p later
    using held may_hold_settled[OF that(2)] unfolding that(1) by (simp add: may_hold_entity)
  then show ?thesis using log held by (simp add: start)
qed

section \<open>A concrete run\<close>

text \<open>A server with the table of positions only, whose bootstrap statement fails, and two positions of a car.\<close>

definition position_execute ::
  "string \<Rightarrow> unit sql_param list \<Rightarrow> (string \<rightharpoonup> pg_position) \<Rightarrow> (db_error, u64) result \<times> (string \<rightharpoonup> pg_position)" where
  "position_execute sql params w =
     (case params of
        [PText k, PF64 x, PF64 y, PF64 z] \<Rightarrow>
          if sql = set_position_sql then (Ok 1, w(k \<mapsto> \<lparr>pos_x = x, pos_y = y, pos_z = z\<rparr>)) else (Ok 0, w)
      | [] \<Rightarrow> (Err WorkerClosed, w)
      | _ \<Rightarrow> (Ok 0, w))"

definition position_query ::
  "string \<Rightarrow> unit sql_param list \<Rightarrow> (string \<rightharpoonup> pg_position) \<Rightarrow> (db_error, pg_position list) result \<times> (string \<rightharpoonup> pg_position)" where
  "position_query sql params w =
     (case params of
        [PText k] \<Rightarrow> (Ok (if sql = select_position_sql then (case w k of None \<Rightarrow> [] | Some p \<Rightarrow> [p]) else []), w)
      | _ \<Rightarrow> (Ok [], w))"

definition position_server :: "(unit, pg_position, string \<rightharpoonup> pg_position) pg_client" where
  "position_server =
     \<lparr>pg_execute = position_execute, pg_query = position_query, row_text = \<lambda>_ _. [], row_text_opt = \<lambda>_ _. None,
      row_json = \<lambda>_ _. (), md_to_value = \<lambda>_. Ok (), md_from_value = \<lambda>_. Err WorkerClosed\<rparr>"

definition position_column :: "pg_position \<Rightarrow> string \<Rightarrow> f64" where
  "position_column p col = (if col = ''x'' then pos_x p else if col = ''y'' then pos_y p else pos_z p)"

definition position_at :: "nat \<Rightarrow> pg_position" where
  "position_at n = \<lparr>pos_x = f64_lit n 0, pos_y = f64_lit n 0, pos_z = f64_lit n 0\<rparr>"

definition car_events :: "unit pg_event list" where
  "car_events =
     [TrySetPosition ''car-1'' (position_at 1), TrySetPosition ''car-1'' (position_at 2), ActorTurn, TrySetSpeed ''car-1'' (f64_lit 42 0),
      ActorTurn, ActorTurn]"

lemma position_of_column: "position_of_row position_column p = p"
  by (cases p) (simp add: position_of_row_def position_column_def)

lemma position_server_lawful: "position_law position_server position_column (\<lambda>w. w)"
  by (simp add: position_law_def position_server_def position_execute_def position_query_def position_of_column position_eta
      split: option.splits)

lemma car_start:
  "pg_system_new list_mpsc position_server ''pg-main'' Map.empty =
   \<lparr>sy_chan = ([], 256, False, 1), sy_waiting = [], sy_state = worker_init ''pg-main'', sy_world = Map.empty, sy_log = []\<rparr>"
  by (simp add: pg_system_new_def bootstrap_def ensure_metadata_table_def position_server_def position_execute_def list_mpsc_def
      channel_capacity_def)

lemma car_run:
  "\<exists>s. pg_run list_mpsc position_server car_events (pg_system_new list_mpsc position_server ''pg-main'' Map.empty) = Some s \<and>
     sy_world s = [''car-1'' \<mapsto> position_at 2] \<and> fst (sy_chan s) = [] \<and>
     sy_log s = [(set_position_command ''car-1'' (position_at 1), Logged (Ok ())),
                 (set_position_command ''car-1'' (position_at 2), Logged (Ok ())), (set_speed_command ''car-1'' (f64_lit 42 0), Logged (Ok ()))]"
  unfolding car_start
  by (simp add: car_events_def submissions try_submit_def list_mpsc_def set_position_command_def set_speed_command_def
      position_server_def position_execute_def position_at_def)

theorem actor_handles_what_was_taken_witness:
  "taken_run list_mpsc position_server car_events (pg_system_new list_mpsc position_server ''pg-main'' Map.empty) =
     [set_position_command ''car-1'' (position_at 1), set_position_command ''car-1'' (position_at 2), set_speed_command ''car-1'' (f64_lit 42 0)]"
proof (rule exE[OF car_run], elim conjE)
  fix s
  assume run: "pg_run list_mpsc position_server car_events (pg_system_new list_mpsc position_server ''pg-main'' Map.empty) = Some s"
    and log: "fst (sy_chan s) = []"
      "sy_log s = [(set_position_command ''car-1'' (position_at 1), Logged (Ok ())),
         (set_position_command ''car-1'' (position_at 2), Logged (Ok ())), (set_speed_command ''car-1'' (f64_lit 42 0), Logged (Ok ()))]"
  show ?thesis using actor_handles_what_was_taken[OF list_mpsc_lawful run] log by simp
qed

theorem accepted_positions_are_read_witness:
  "\<exists>s sw. pg_run list_mpsc position_server car_events (pg_system_new list_mpsc position_server ''pg-main'' Map.empty) = Some s \<and>
     get_position position_column (actor_call position_server) ''car-1'' (sy_state s, sy_world s) = (Ok (Some (position_at 2)), sw)"
proof (rule exE[OF car_run], elim conjE)
  fix s
  assume run: "pg_run list_mpsc position_server car_events (pg_system_new list_mpsc position_server ''pg-main'' Map.empty) = Some s"
    and log: "fst (sy_chan s) = []"
      "sy_log s = [(set_position_command ''car-1'' (position_at 1), Logged (Ok ())),
         (set_position_command ''car-1'' (position_at 2), Logged (Ok ())), (set_speed_command ''car-1'' (f64_lit 42 0), Logged (Ok ()))]"
  have "map fst (sy_log s) = taken_run list_mpsc position_server car_events (pg_system_new list_mpsc position_server ''pg-main'' Map.empty)"
    using pg_run_contents[OF list_mpsc_lawful run] log(1) by (simp add: car_start)
  then have taken: "taken_run list_mpsc position_server car_events (pg_system_new list_mpsc position_server ''pg-main'' Map.empty) =
      map fst (sy_log s)" by (rule sym)
  have events: "list_all (\<lambda>cmd. position_command cmd \<or> leaves_positions position_server (\<lambda>w. w) cmd)
      (taken_run list_mpsc position_server car_events (pg_system_new list_mpsc position_server ''pg-main'' Map.empty))"
    using speed_leaves_positions[OF position_server_lawful] unfolding taken log(2) by (auto simp: position_command_def)
  obtain answer sw where read: "get_position position_column (actor_call position_server) ''car-1'' (sy_state s, sy_world s) = (Ok answer, sw)"
    by (cases "sy_world s ''car-1''")
      (simp_all add: get_position_def query_raw_def rpc_def actor_call_def position_server_def position_query_def
        select_position_sql_def)
  have "answer = Some (position_at 2)"
    using accepted_positions_are_read[OF list_mpsc_lawful position_server_lawful events run log(1) read, THEN conjunct2, THEN conjunct1]
    unfolding log(2) by (simp add: set_position_command_def set_speed_command_def position_at_def)
  then show ?thesis using run read by (intro exI[of _ s] exI[of _ sw]) simp
qed

end
