(* ===== verification/Mock_Engine.thy ===== *)
theory Mock_Engine
  imports Pg_Queue "HOL-Library.Sublist"
begin

text \<open>
  \<open>databases/postgresdb/src/bin/mockengine.rs\<close>: the program that sets a database up and then submits a row
  in every turn of a real-time loop, whatever becomes of it. The client and its connection, the UUIDs it
  draws and what it prints are left out.
\<close>

section \<open>The setup\<close>

text \<open>The operator \<open>?\<close> on calls that act on the channel.\<close>

definition then_call ::
  "('e, 'a) result \<times> 'ch \<Rightarrow> ('ch \<Rightarrow> ('e, 'b) result \<times> 'ch) \<Rightarrow> ('e, 'b) result \<times> 'ch" where
  "then_call r f = (case r of (Inl e, ch) \<Rightarrow> (Err e, ch) | (Inr _, ch) \<Rightarrow> f ch)"

definition sensor_table :: string where
  "sensor_table = ''dt_sensor''"

definition mock_setup ::
  "('j, 'r, 'ch) db_call \<Rightarrow> ('j db_command \<Rightarrow> 'ch \<Rightarrow> 'j db_command try_send_outcome \<times> 'ch) \<Rightarrow> 'ch
   \<Rightarrow> (db_error, unit) result \<times> 'ch" where
  "mock_setup call try_send ch =
     then_call (create_table call sensor_table (default_timeseries_columns Float8) ch) (\<lambda>ch.
     then_call (refresh_schema_from_db call ch) (\<lambda>ch.
     then_call (metadata_snapshot call ch) (\<lambda>ch.
     then_call (register_binding call ''dt.sensor.temperature'' sensor_table (Some ''payload'') ch) (\<lambda>ch.
     then_call (register_binding call ''dt.sensor.temperature.timestamp'' sensor_table (Some ''ts'') ch) (\<lambda>ch.
     then_call (metadata_snapshot call ch) (\<lambda>ch.
     then_call (ensure_position_schema call ch) (\<lambda>ch.
     then_call (ensure_speed_schema call ch) (\<lambda>ch.
     then_call (try_set_position try_send ''car-1'' \<lparr>pos_x = f64_lit 1 0, pos_y = f64_lit 2 0, pos_z = f64_lit 3 0\<rparr> ch) (\<lambda>ch.
     try_set_speed try_send ''car-1'' (f64_lit 42 0) ch)))))))))"

section \<open>The loop\<close>

definition tick_values :: "(nat \<Rightarrow> uuid) \<Rightarrow> nat \<Rightarrow> (string \<times> 'j sql_param) list" where
  "tick_values new_uuid tick =
     [(''id'', PUuid (new_uuid tick)), (''payload'', PF64 (f64_mul (f64_of_u64 (of_nat tick)) (f64_lit 1 2)))]"

text \<open>A turn drops its sample when the queue is full, and any other error as well.\<close>

definition mock_tick ::
  "('j db_command \<Rightarrow> 'ch \<Rightarrow> 'j db_command try_send_outcome \<times> 'ch) \<Rightarrow> (nat \<Rightarrow> uuid) \<Rightarrow> nat \<Rightarrow> 'ch \<Rightarrow> 'ch" where
  "mock_tick try_send new_uuid tick ch = snd (try_submit_insert_row try_send sensor_table (tick_values new_uuid tick) ch)"

definition mock_ticks :: "nat list" where
  "mock_ticks = [0..<10000]"

definition mock_event :: "(nat \<Rightarrow> uuid) \<Rightarrow> nat \<Rightarrow> 'j pg_event" where
  "mock_event new_uuid tick = TryInsertRow sensor_table (tick_values new_uuid tick)"

definition mock_row :: "(nat \<Rightarrow> uuid) \<Rightarrow> nat \<Rightarrow> 'j db_command" where
  "mock_row new_uuid tick = InsertRowNoAck sensor_table (tick_values new_uuid tick)"

text \<open>A turn of the loop is a step of the system.\<close>

lemma mock_tick_step:
  "pg_step mp c (mock_event new_uuid tick) s = Some (s\<lparr>sy_chan := mock_tick (mp_try_send mp) new_uuid tick (sy_chan s)\<rparr>)"
  by (simp add: mock_event_def mock_tick_def)

text \<open>Whatever the interleaving, the channel takes a subsequence of the rows.\<close>

lemma taken_rows:
  "filter (\<lambda>e. e \<noteq> ActorTurn) es = map (mock_event new_uuid) ticks \<Longrightarrow>
   subseq (taken_run mp c es s) (map (mock_row new_uuid) ticks)"
proof (induction es arbitrary: s ticks)
  case (Cons e es)
  show ?case
  proof (cases "e = ActorTurn")
    case True
    then show ?thesis using Cons by (auto simp: taken_def split: option.splits)
  next
    case False
    then obtain tick rest where ticks: "ticks = tick # rest" "e = mock_event new_uuid tick"
        "filter (\<lambda>e. e \<noteq> ActorTurn) es = map (mock_event new_uuid) rest"
      using Cons.prems by (cases ticks) auto
    have "taken mp e s = [] \<or> taken mp e s = [mock_row new_uuid tick]"
      by (simp add: taken_def ticks(2) mock_event_def mock_row_def)
    moreover have "subseq (taken_run mp c es s') (map (mock_row new_uuid) rest)" for s'
      by (rule Cons.IH[OF ticks(3)])
    ultimately show ?thesis
      unfolding taken_run.simps ticks(1,2) mock_tick_step by (auto simp: ticks(2)[symmetric])
  qed
qed simp

text \<open>
  During the loop the actor handles rows of the loop only, in the order of the ticks and none twice;
  what the loop lost was never in the channel.
\<close>

theorem mock_rows_in_order:
  assumes "mpsc_laws mp contents closed" and "filter (\<lambda>e. e \<noteq> ActorTurn) es = map (mock_event new_uuid) mock_ticks"
    and "pg_run mp c es s = Some s'" and "contents (sy_chan s) = []"
  shows "\<exists>rows. map fst (sy_log s') = map fst (sy_log s) @ rows \<and> subseq rows (map (mock_row new_uuid) mock_ticks)"
proof -
  have all: "map fst (sy_log s') @ contents (sy_chan s') = map fst (sy_log s) @ taken_run mp c es s"
    using pg_run_contents[OF assms(1,3)] assms(4) by simp
  obtain rows where rows: "map fst (sy_log s') = map fst (sy_log s) @ rows"
    using pg_run_log[OF assms(3)] by (elim exE)
  then have "rows @ contents (sy_chan s') = taken_run mp c es s" using all by simp
  then have "prefix rows (taken_run mp c es s)" by (metis prefixI)
  then show ?thesis
    using rows taken_rows[OF assms(2), of mp c s] by (meson prefix_imp_subseq subseq_order.order_trans)
qed

end
