(* ===== verification/Dispatcher.thy ===== *)
theory Dispatcher
  imports Service_Manager Channels
begin

text \<open>
  \<open>servicemanagement/src/dispatcher.rs\<close> as a whole: callers on any number of threads, the bounded channel
  between them and the dispatcher's thread, and the service map, which others change meanwhile. A call
  has a number, which stands for its reply channel. The channel is \<open>crossbeam\<close>'s, a record of methods.
\<close>

section \<open>The system\<close>

type_synonym 'j nonrt_request = "nat \<times> string \<times> 'j"

text \<open>A call is waiting for its reply (it came by \<open>try_call\<close> or not), or has returned.\<close>

datatype 'j call_phase = AwaitingReply bool string 'j | Returned "(string, 'j) result"

record ('j, 'r, 'n, 'ch) dispatcher_system =
  nd_chan :: 'ch
  nd_services :: "('r, 'n) service_registry"
  nd_calls :: "nat \<rightharpoonup> 'j call_phase"

definition nonrt_dispatcher ::
  "('j nonrt_request, 'ch) mpsc \<Rightarrow> nat \<Rightarrow> ('r, 'n) service_registry \<Rightarrow> ('j, 'r, 'n, 'ch) dispatcher_system" where
  "nonrt_dispatcher mp capacity services =
     \<lparr>nd_chan = mp_new mp capacity, nd_services = services, nd_calls = Map.empty\<rparr>"

text \<open>\<open>ServiceManager::nonrt_dispatcher\<close>: a dispatcher on the map of the manager's registry.\<close>

definition manager_dispatcher ::
  "('j nonrt_request, 'ch) mpsc \<Rightarrow> nat \<Rightarrow> ('r, 'n, 'v, 'c) service_manager \<Rightarrow> ('j, 'r, 'n, 'ch) dispatcher_system" where
  "manager_dispatcher mp capacity m = nonrt_dispatcher mp capacity (sm_registry m)"

datatype ('j, 'r, 'n) dispatcher_event =
    Call nat string 'j
  | TryCall nat string 'j
  | WorkerTurn
  | ServicesChange "('r, 'n) service_registry"

text \<open>
  \<open>call\<close> blocks while the channel is full and both block until the reply is there; the thread blocks while
  the channel is empty. A step of a blocked thread is \<open>None\<close>.
\<close>

definition start_call ::
  "('j nonrt_request, 'ch) mpsc \<Rightarrow> bool \<Rightarrow> nat \<Rightarrow> string \<Rightarrow> 'j \<Rightarrow> ('j, 'r, 'n, 'ch) dispatcher_system
   \<Rightarrow> ('j, 'r, 'n, 'ch) dispatcher_system option" where
  "start_call mp trying t name req s =
     (if nd_calls s t \<noteq> None then None
      else
        (case mp_try_send mp (t, name, req) (nd_chan s) of
           (Sent, ch) \<Rightarrow> Some (s\<lparr>nd_chan := ch, nd_calls := (nd_calls s)(t \<mapsto> AwaitingReply trying name req)\<rparr>)
         | (SendFull _, ch) \<Rightarrow>
             if trying then Some (s\<lparr>nd_chan := ch, nd_calls := (nd_calls s)(t \<mapsto> Returned (dispatcher_try_call False None))\<rparr>)
             else None
         | (SendClosed _, ch) \<Rightarrow>
             Some (s\<lparr>nd_chan := ch,
                     nd_calls := (nd_calls s)(t \<mapsto> Returned ((if trying then dispatcher_try_call else dispatcher_call) False None))\<rparr>)))"

definition finish_call :: "(string, 'j) result \<Rightarrow> nat \<Rightarrow> ('j, 'r, 'n, 'ch) dispatcher_system \<Rightarrow> nat \<rightharpoonup> 'j call_phase" where
  "finish_call result t s =
     (case nd_calls s t of
        Some (AwaitingReply trying name req) \<Rightarrow>
          (nd_calls s)(t \<mapsto> Returned ((if trying then dispatcher_try_call else dispatcher_call) True (Some result)))
      | _ \<Rightarrow> nd_calls s)"

fun dispatcher_step ::
  "('j nonrt_request, 'ch) mpsc \<Rightarrow> ('n, 'j, 'x) nonrt_service \<Rightarrow> (service_status \<Rightarrow> (string, 'j) result)
   \<Rightarrow> ('j, 'r, 'n) dispatcher_event \<Rightarrow> ('j, 'r, 'n, 'ch) dispatcher_system \<Rightarrow> ('j, 'r, 'n, 'ch) dispatcher_system option" where
  "dispatcher_step mp u to_value (Call t name req) s = start_call mp False t name req s"
| "dispatcher_step mp u to_value (TryCall t name req) s = start_call mp True t name req s"
| "dispatcher_step mp u to_value WorkerTurn s =
     (case mp_recv mp (nd_chan s) of
        (Received (t, name, req), ch) \<Rightarrow>
          Some (s\<lparr>nd_chan := ch, nd_calls := finish_call (dispatch u to_value (nd_services s) name req) t s\<rparr>)
      | (AllSendersDropped, _) \<Rightarrow> None
      | (NothingYet, _) \<Rightarrow> None)"
| "dispatcher_step mp u to_value (ServicesChange r) s = Some (s\<lparr>nd_services := r\<rparr>)"

fun dispatcher_run ::
  "('j nonrt_request, 'ch) mpsc \<Rightarrow> ('n, 'j, 'x) nonrt_service \<Rightarrow> (service_status \<Rightarrow> (string, 'j) result)
   \<Rightarrow> ('j, 'r, 'n) dispatcher_event list \<Rightarrow> ('j, 'r, 'n, 'ch) dispatcher_system \<Rightarrow> ('j, 'r, 'n, 'ch) dispatcher_system option" where
  "dispatcher_run mp u to_value [] s = Some s"
| "dispatcher_run mp u to_value (e # es) s =
     (case dispatcher_step mp u to_value e s of None \<Rightarrow> None | Some s' \<Rightarrow> dispatcher_run mp u to_value es s')"

section \<open>Who waits is in the queue\<close>

definition refusal_of :: "(string, 'j) result \<Rightarrow> bool" where
  "refusal_of r \<longleftrightarrow> r = Err ''Dispatcher channel full or closed'' \<or> r = Err ''Dispatcher channel closed''"

definition waiting_inv :: "('ch \<Rightarrow> 'j nonrt_request list) \<Rightarrow> ('j, 'r, 'n, 'ch) dispatcher_system \<Rightarrow> bool" where
  "waiting_inv contents s \<longleftrightarrow>
     distinct (map fst (contents (nd_chan s))) \<and>
     (\<forall>t name req. (t, name, req) \<in> set (contents (nd_chan s)) \<longleftrightarrow> (\<exists>trying. nd_calls s t = Some (AwaitingReply trying name req)))"

lemma start_call_cases:
  assumes "mpsc_laws mp contents closed" "start_call mp trying t name req s = Some s'"
  obtains (queued) "nd_calls s t = None" "contents (nd_chan s') = contents (nd_chan s) @ [(t, name, req)]"
      "nd_calls s' = (nd_calls s)(t \<mapsto> AwaitingReply trying name req)" "nd_services s' = nd_services s"
  | (refused) r where "nd_calls s t = None" "refusal_of r" "contents (nd_chan s') = contents (nd_chan s)"
      "nd_calls s' = (nd_calls s)(t \<mapsto> Returned r)" "nd_services s' = nd_services s"
proof -
  obtain outcome ch where sent: "mp_try_send mp (t, name, req) (nd_chan s) = (outcome, ch)"
    by (cases "mp_try_send mp (t, name, req) (nd_chan s)")
  note law = law_send[OF assms(1) sent]
  show thesis
  proof (cases outcome)
    case Sent
    then show thesis using assms(2) sent law by (intro queued) (auto simp: start_call_def split: if_splits)
  next
    case (SendFull m)
    then show thesis
      using assms(2) sent law
      by (intro refused[of "dispatcher_try_call False None"])
        (auto simp: start_call_def refusal_of_def dispatcher_try_call_def split: if_splits)
  next
    case (SendClosed m)
    then show thesis
      using assms(2) sent law
      by (intro refused[of "(if trying then dispatcher_try_call else dispatcher_call) False None"])
        (auto simp: start_call_def refusal_of_def dispatcher_try_call_def dispatcher_call_def split: if_splits)
  qed
qed

lemma turn_cases:
  assumes "mpsc_laws mp contents closed" "dispatcher_step mp u to_value WorkerTurn s = Some s'"
  obtains t name req where "contents (nd_chan s) = (t, name, req) # contents (nd_chan s')"
    "nd_calls s' = finish_call (dispatch u to_value (nd_services s) name req) t s" "nd_services s' = nd_services s"
proof -
  obtain outcome ch where recv: "mp_recv mp (nd_chan s) = (outcome, ch)" by (cases "mp_recv mp (nd_chan s)")
  obtain t name req where outcome: "outcome = Received (t, name, req)"
    using assms(2) recv by (cases outcome) auto
  show thesis
    using that[of t name req] law_recv[OF assms(1) recv] assms(2) recv outcome by auto
qed

lemma finish_call_waiting:
  "nd_calls s t = Some (AwaitingReply trying name req) \<Longrightarrow> finish_call result t s = (nd_calls s)(t \<mapsto> Returned result)"
  by (simp add: finish_call_def dispatcher_try_call_def dispatcher_call_def)

lemma waiting_member: "waiting_inv contents s \<Longrightarrow> (t, name, req) \<in> set (contents (nd_chan s)) \<Longrightarrow>
    \<exists>trying. nd_calls s t = Some (AwaitingReply trying name req)"
  unfolding waiting_inv_def by (drule conjunct2, drule spec[of _ t], drule spec[of _ name], drule spec[of _ req]) simp

text \<open>A turn of the worker answers the call in front.\<close>

lemma turn_answers:
  assumes "mpsc_laws mp contents closed" "dispatcher_step mp u to_value WorkerTurn s = Some s'" "waiting_inv contents s"
  obtains t name req where "contents (nd_chan s) = (t, name, req) # contents (nd_chan s')"
    "nd_calls s' = (nd_calls s)(t \<mapsto> Returned (dispatch u to_value (nd_services s) name req))" "nd_services s' = nd_services s"
proof -
  obtain t name req where turn: "contents (nd_chan s) = (t, name, req) # contents (nd_chan s')"
      "nd_calls s' = finish_call (dispatch u to_value (nd_services s) name req) t s" "nd_services s' = nd_services s"
    by (rule turn_cases[OF assms(1,2)])
  have "(t, name, req) \<in> set (contents (nd_chan s))" by (simp add: turn(1))
  from waiting_member[OF assms(3) this] obtain trying where "nd_calls s t = Some (AwaitingReply trying name req)"
    by (rule exE)
  from finish_call_waiting[OF this] show thesis using that turn by simp
qed

lemma waiting_start:
  assumes "mpsc_laws mp contents closed" "start_call mp trying t name req s = Some s'" "waiting_inv contents s"
  shows "waiting_inv contents s'"
  using assms(1,2)
proof (cases rule: start_call_cases)
  case queued
  have "t \<notin> fst ` set (contents (nd_chan s))" using assms(3) queued(1) by (auto simp: waiting_inv_def)
  then show ?thesis using assms(3) queued by (auto simp: waiting_inv_def)
next
  case (refused r)
  then show ?thesis using assms(3) by (auto simp: waiting_inv_def)
qed

lemma waiting_step:
  assumes "mpsc_laws mp contents closed" "dispatcher_step mp u to_value e s = Some s'" "waiting_inv contents s"
  shows "waiting_inv contents s'"
proof (cases e)
  case WorkerTurn
  obtain t name req where turn: "contents (nd_chan s) = (t, name, req) # contents (nd_chan s')"
      and calls: "nd_calls s' = (nd_calls s)(t \<mapsto> Returned (dispatch u to_value (nd_services s) name req))"
    by (rule turn_answers[OF assms(1) assms(2)[unfolded WorkerTurn] assms(3)])
  have "distinct (map fst (contents (nd_chan s')))" "t \<notin> fst ` set (contents (nd_chan s'))"
    using assms(3) turn by (auto simp: waiting_inv_def)
  moreover have "(t', n, q) \<in> set (contents (nd_chan s')) \<longleftrightarrow> (\<exists>trying. nd_calls s' t' = Some (AwaitingReply trying n q))" for t' n q
  proof (cases "t' = t")
    case True
    then show ?thesis using calculation(2) by (force simp: calls)
  next
    case False
    then have "(t', n, q) \<in> set (contents (nd_chan s')) \<longleftrightarrow> (t', n, q) \<in> set (contents (nd_chan s))" using turn by auto
    then show ?thesis using False assms(3) by (simp add: calls waiting_inv_def)
  qed
  ultimately show ?thesis by (simp add: waiting_inv_def)
next
  case (Call t name req)
  then show ?thesis using waiting_start[OF assms(1) _ assms(3)] assms(2) by simp
next
  case (TryCall t name req)
  then show ?thesis using waiting_start[OF assms(1) _ assms(3)] assms(2) by simp
next
  case (ServicesChange r)
  then show ?thesis using assms(2,3) by (auto simp: waiting_inv_def)
qed

lemma waiting_new: "mpsc_laws mp contents closed \<Longrightarrow> waiting_inv contents (nonrt_dispatcher mp capacity services)"
  using law_new[of mp contents closed capacity] by (simp add: waiting_inv_def nonrt_dispatcher_def)

lemma waiting_run:
  "mpsc_laws mp contents closed \<Longrightarrow> dispatcher_run mp u to_value es s = Some s' \<Longrightarrow> waiting_inv contents s \<Longrightarrow> waiting_inv contents s'"
proof (induction es arbitrary: s)
  case (Cons e es)
  then obtain s1 where "dispatcher_step mp u to_value e s = Some s1" "dispatcher_run mp u to_value es s1 = Some s'"
    by (auto split: option.splits)
  then show ?case using Cons waiting_step by blast
qed simp

lemma dispatcher_run_append:
  "dispatcher_run mp u to_value (es @ fs) s =
   (case dispatcher_run mp u to_value es s of None \<Rightarrow> None | Some s' \<Rightarrow> dispatcher_run mp u to_value fs s')"
  by (induction es arbitrary: s) (auto split: option.splits)

section \<open>What a step does to one call\<close>

fun starts :: "('j, 'r, 'n) dispatcher_event \<Rightarrow> nat \<Rightarrow> string \<Rightarrow> 'j \<Rightarrow> bool" where
  "starts (Call t' name' req') t name req \<longleftrightarrow> t' = t \<and> name' = name \<and> req' = req"
| "starts (TryCall t' name' req') t name req \<longleftrightarrow> t' = t \<and> name' = name \<and> req' = req"
| "starts _ t name req \<longleftrightarrow> False"

lemma other_events:
  assumes "mpsc_laws mp contents closed" "dispatcher_step mp u to_value e s = Some s'" "e \<noteq> WorkerTurn"
  shows "\<exists>new. contents (nd_chan s') = contents (nd_chan s) @ new"
    and "nd_calls s t \<noteq> None \<Longrightarrow> nd_calls s' t = nd_calls s t"
    and "nd_calls s t = None \<Longrightarrow> nd_calls s' t = Some p \<Longrightarrow>
      \<exists>name req. starts e t name req \<and> ((\<exists>trying. p = AwaitingReply trying name req) \<or> (\<exists>r. p = Returned r \<and> refusal_of r))"
proof -
  consider (start) trying t' name req where "start_call mp trying t' name req s = Some s'" "starts e t' name req"
    | (change) "contents (nd_chan s') = contents (nd_chan s)" "nd_calls s' = nd_calls s"
    using assms(2,3) by (cases e) auto
  then have "(\<exists>new. contents (nd_chan s') = contents (nd_chan s) @ new) \<and> (nd_calls s t \<noteq> None \<longrightarrow> nd_calls s' t = nd_calls s t) \<and>
    (nd_calls s t = None \<longrightarrow> nd_calls s' t = Some p \<longrightarrow>
      (\<exists>name req. starts e t name req \<and> ((\<exists>trying. p = AwaitingReply trying name req) \<or> (\<exists>r. p = Returned r \<and> refusal_of r))))" for p
  proof cases
    case start
    from assms(1) start(1) show ?thesis
    proof (cases rule: start_call_cases)
      case queued
      then show ?thesis using start(2) by auto
    next
      case (refused r)
      then show ?thesis using start(2) by auto
    qed
  qed simp
  then show "\<exists>new. contents (nd_chan s') = contents (nd_chan s) @ new" "nd_calls s t \<noteq> None \<Longrightarrow> nd_calls s' t = nd_calls s t"
    "nd_calls s t = None \<Longrightarrow> nd_calls s' t = Some p \<Longrightarrow>
      \<exists>name req. starts e t name req \<and> ((\<exists>trying. p = AwaitingReply trying name req) \<or> (\<exists>r. p = Returned r \<and> refusal_of r))"
    by blast+
qed

section \<open>Answers\<close>

text \<open>Where the answer of a call came from: the turn in which its request was in front.\<close>

definition answered_at ::
  "('j nonrt_request, 'ch) mpsc \<Rightarrow> ('n, 'j, 'x) nonrt_service \<Rightarrow> (service_status \<Rightarrow> (string, 'j) result)
   \<Rightarrow> ('ch \<Rightarrow> 'j nonrt_request list) \<Rightarrow> ('j, 'r, 'n) dispatcher_event list \<Rightarrow> ('j, 'r, 'n, 'ch) dispatcher_system
   \<Rightarrow> nat \<Rightarrow> string \<Rightarrow> 'j \<Rightarrow> (string, 'j) result \<Rightarrow> bool" where
  "answered_at mp u to_value contents es s0 t name req r \<longleftrightarrow>
     (\<exists>es1 es2 s1 rest. es = es1 @ WorkerTurn # es2 \<and> dispatcher_run mp u to_value es1 s0 = Some s1 \<and>
        contents (nd_chan s1) = (t, name, req) # rest \<and> r = dispatch u to_value (nd_services s1) name req)"

lemma answered_at_more: "answered_at mp u to_value contents es s0 t name req r \<Longrightarrow> answered_at mp u to_value contents (es @ fs) s0 t name req r"
  unfolding answered_at_def by (elim exE conjE) (intro exI conjI, auto)

definition accounted ::
  "('j nonrt_request, 'ch) mpsc \<Rightarrow> ('n, 'j, 'x) nonrt_service \<Rightarrow> (service_status \<Rightarrow> (string, 'j) result)
   \<Rightarrow> ('ch \<Rightarrow> 'j nonrt_request list) \<Rightarrow> ('j, 'r, 'n) dispatcher_event list \<Rightarrow> ('j, 'r, 'n, 'ch) dispatcher_system
   \<Rightarrow> nat \<Rightarrow> 'j call_phase \<Rightarrow> bool" where
  "accounted mp u to_value contents es s0 t p \<longleftrightarrow>
     (\<exists>name req e. e \<in> set es \<and> starts e t name req \<and>
        (case p of
           AwaitingReply trying n q \<Rightarrow> n = name \<and> q = req
         | Returned r \<Rightarrow> refusal_of r \<or> answered_at mp u to_value contents es s0 t name req r))"

lemma accounted_more: "accounted mp u to_value contents es s0 t p \<Longrightarrow> accounted mp u to_value contents (es @ fs) s0 t p"
  unfolding accounted_def
proof (elim exE conjE)
  fix name req e
  assume "e \<in> set es" "starts e t name req"
    and "case p of AwaitingReply trying n q \<Rightarrow> n = name \<and> q = req
      | Returned r \<Rightarrow> refusal_of r \<or> answered_at mp u to_value contents es s0 t name req r"
  then show "\<exists>name req e. e \<in> set (es @ fs) \<and> starts e t name req \<and>
      (case p of AwaitingReply trying n q \<Rightarrow> n = name \<and> q = req
       | Returned r \<Rightarrow> refusal_of r \<or> answered_at mp u to_value contents (es @ fs) s0 t name req r)"
    by (intro exI[of _ name] exI[of _ req] exI[of _ e]) (auto split: call_phase.splits dest: answered_at_more)
qed

lemma calls_accounted:
  assumes "mpsc_laws mp contents closed"
  shows "dispatcher_run mp u to_value es (nonrt_dispatcher mp capacity services) = Some s \<Longrightarrow> nd_calls s t = Some p \<Longrightarrow>
    accounted mp u to_value contents es (nonrt_dispatcher mp capacity services) t p"
proof (induction es arbitrary: s t p rule: rev_induct)
  case Nil
  then show ?case by (auto simp: nonrt_dispatcher_def)
next
  case (snoc e es)
  let ?s0 = "nonrt_dispatcher mp capacity services"
  obtain s1 where s1: "dispatcher_run mp u to_value es ?s0 = Some s1" "dispatcher_step mp u to_value e s1 = Some s"
    using snoc.prems(1) by (auto simp: dispatcher_run_append split: option.splits)
  have inv: "waiting_inv contents s1" by (rule waiting_run[OF assms s1(1) waiting_new[OF assms]])
  show ?case
  proof (cases "e = WorkerTurn")
    case True
    obtain t' name req where turn: "contents (nd_chan s1) = (t', name, req) # contents (nd_chan s)"
        "nd_calls s = (nd_calls s1)(t' \<mapsto> Returned (dispatch u to_value (nd_services s1) name req))"
      by (rule turn_answers[OF assms s1(2)[unfolded True] inv])
    show ?thesis
    proof (cases "t = t'")
      case same: True
      have "(t', name, req) \<in> set (contents (nd_chan s1))" by (simp add: turn(1))
      from waiting_member[OF inv this] obtain trying where "nd_calls s1 t = Some (AwaitingReply trying name req)"
        unfolding same by (rule exE)
      from snoc.IH[OF s1(1) this] obtain e0 where "e0 \<in> set es" "starts e0 t name req" by (auto simp: accounted_def)
      moreover have "answered_at mp u to_value contents (es @ [e]) ?s0 t name req (dispatch u to_value (nd_services s1) name req)"
        unfolding answered_at_def using s1(1) turn(1) True same
        by (intro exI[of _ es] exI[of _ "[]"] exI[of _ s1] exI[of _ "contents (nd_chan s)"]) simp
      ultimately show ?thesis
        using snoc.prems(2) turn(2) same unfolding accounted_def
        by (intro exI[of _ name] exI[of _ req] exI[of _ e0]) auto
    next
      case False
      then have "nd_calls s1 t = Some p" using snoc.prems(2) turn(2) by simp
      from accounted_more[OF snoc.IH[OF s1(1) this]] show ?thesis .
    qed
  next
    case False
    show ?thesis
    proof (cases "nd_calls s1 t")
      case None
      obtain name req where "starts e t name req"
          "(\<exists>trying. p = AwaitingReply trying name req) \<or> (\<exists>r. p = Returned r \<and> refusal_of r)"
        using other_events(3)[OF assms s1(2) False None snoc.prems(2)] by (elim exE conjE)
      then show ?thesis
        unfolding accounted_def by (intro exI[of _ name] exI[of _ req] exI[of _ e]) auto
    next
      case (Some p1)
      then have "nd_calls s1 t = Some p" using other_events(2)[OF assms s1(2) False, of t] snoc.prems(2) by simp
      from accounted_more[OF snoc.IH[OF s1(1) this]] show ?thesis .
    qed
  qed
qed

text \<open>
  C9. Replies are never crossed: a call that returned was made with some name and request, and either
  the channel refused it or its result is what the dispatcher makes of just that name and request on
  the service map of the moment its turn came, however many callers there are and whatever is
  registered meanwhile.
\<close>

theorem callers_get_their_answers:
  assumes "mpsc_laws mp contents closed"
    and "dispatcher_run mp u to_value es (nonrt_dispatcher mp capacity services) = Some s"
    and "nd_calls s t = Some (Returned r)"
  shows "\<exists>name req e. e \<in> set es \<and> starts e t name req \<and>
     (refusal_of r \<or> answered_at mp u to_value contents es (nonrt_dispatcher mp capacity services) t name req r)"
  using calls_accounted[OF assms] by (simp add: accounted_def)

section \<open>How long a call takes\<close>

definition turns :: "('j, 'r, 'n) dispatcher_event list \<Rightarrow> nat" where
  "turns es = length (filter (\<lambda>e. case e of WorkerTurn \<Rightarrow> True | _ \<Rightarrow> False) es)"

lemma turns_simps [simp]:
  "turns [] = 0" "turns (WorkerTurn # es) = Suc (turns es)" "e \<noteq> WorkerTurn \<Longrightarrow> turns (e # es) = turns es"
  by (simp_all add: turns_def split: dispatcher_event.splits)

lemma returned_stays:
  assumes "mpsc_laws mp contents closed"
  shows "dispatcher_run mp u to_value es s = Some s' \<Longrightarrow> waiting_inv contents s \<Longrightarrow> nd_calls s t = Some (Returned r) \<Longrightarrow>
    nd_calls s' t = Some (Returned r)"
proof (induction es arbitrary: s)
  case (Cons e es)
  obtain s1 where s1: "dispatcher_step mp u to_value e s = Some s1" "dispatcher_run mp u to_value es s1 = Some s'"
    using Cons.prems(1) by (auto split: option.splits)
  have "nd_calls s1 t = Some (Returned r)"
  proof (cases "e = WorkerTurn")
    case True
    obtain t' name req where turn: "contents (nd_chan s) = (t', name, req) # contents (nd_chan s1)"
        "nd_calls s1 = (nd_calls s)(t' \<mapsto> Returned (dispatch u to_value (nd_services s) name req))"
      by (rule turn_answers[OF assms s1(1)[unfolded True] Cons.prems(2)])
    have "t' \<noteq> t" using waiting_member[OF Cons.prems(2), of t' name req] turn(1) Cons.prems(3) by auto
    then show ?thesis using turn(2) Cons.prems(3) by simp
  next
    case False
    then show ?thesis using other_events(2)[OF assms s1(1) False, of t] Cons.prems(3) by simp
  qed
  from Cons.IH[OF s1(2) waiting_step[OF assms s1(1) Cons.prems(2)] this] show ?case .
qed simp

lemma waits_its_turn:
  assumes "mpsc_laws mp contents closed"
  shows "dispatcher_run mp u to_value es s = Some s' \<Longrightarrow> waiting_inv contents s \<Longrightarrow> k < length (contents (nd_chan s)) \<Longrightarrow>
    contents (nd_chan s) ! k = (t, name, req) \<Longrightarrow> nd_calls s t = Some p \<Longrightarrow>
    if turns es \<le> k then nd_calls s' t = Some p else \<exists>r. nd_calls s' t = Some (Returned r)"
proof (induction es arbitrary: s k)
  case (Cons e es)
  obtain s1 where s1: "dispatcher_step mp u to_value e s = Some s1" "dispatcher_run mp u to_value es s1 = Some s'"
    using Cons.prems(1) by (auto split: option.splits)
  note inv = waiting_step[OF assms s1(1) Cons.prems(2)]
  show ?case
  proof (cases "e = WorkerTurn")
    case True
    obtain t' name' req' where turn: "contents (nd_chan s) = (t', name', req') # contents (nd_chan s1)"
        "nd_calls s1 = (nd_calls s)(t' \<mapsto> Returned (dispatch u to_value (nd_services s) name' req'))"
      by (rule turn_answers[OF assms s1(1)[unfolded True] Cons.prems(2)])
    show ?thesis
    proof (cases k)
      case 0
      then have "nd_calls s1 t = Some (Returned (dispatch u to_value (nd_services s) name' req'))"
        using turn Cons.prems(4) by simp
      from returned_stays[OF assms s1(2) inv this] show ?thesis using 0 True by simp
    next
      case (Suc j)
      have j: "j < length (contents (nd_chan s1))" "contents (nd_chan s1) ! j = (t, name, req)"
        using turn(1) Cons.prems(3,4) Suc by simp_all
      have "t \<in> fst ` set (contents (nd_chan s1))" using j nth_mem[OF j(1)] by (metis fst_conv imageI)
      moreover have "t' \<notin> fst ` set (contents (nd_chan s1))" using Cons.prems(2) turn(1) by (simp add: waiting_inv_def)
      ultimately have "nd_calls s1 t = Some p" using turn(2) Cons.prems(5) by auto
      from Cons.IH[OF s1(2) inv j this] show ?thesis using True Suc by simp
    qed
  next
    case False
    obtain new where new: "contents (nd_chan s1) = contents (nd_chan s) @ new"
      using other_events(1)[OF assms s1(1) False] by (rule exE)
    have "nd_calls s1 t = Some p" using other_events(2)[OF assms s1(1) False, of t] Cons.prems(5) by simp
    moreover have "k < length (contents (nd_chan s1))" "contents (nd_chan s1) ! k = (t, name, req)"
      using new Cons.prems(3,4) by (simp_all add: nth_append)
    ultimately show ?thesis using Cons.IH[OF s1(2) inv, of k] False by simp
  qed
qed simp

lemma worker_not_blocked:
  assumes "mpsc_laws mp contents closed" "contents (nd_chan s) \<noteq> []"
  shows "dispatcher_step mp u to_value WorkerTurn s \<noteq> None"
proof -
  obtain outcome ch where recv: "mp_recv mp (nd_chan s) = (outcome, ch)" by (cases "mp_recv mp (nd_chan s)")
  show ?thesis using law_recv[OF assms(1) recv] assms(2) recv by (cases outcome) auto
qed

text \<open>
  C10. A call that is waiting returns after as many turns of the dispatcher as there are requests up to its
  own, and not before, whatever else happens; and the dispatcher can always take the next turn. That
  holds for \<open>try_call\<close> as for \<open>call\<close>: once its request is taken it blocks the same way.
\<close>

theorem calls_return_after_their_turn:
  assumes "mpsc_laws mp contents closed"
    and "dispatcher_run mp u to_value es (nonrt_dispatcher mp capacity services) = Some s"
    and "nd_calls s t = Some (AwaitingReply trying name req)"
  shows "dispatcher_step mp u to_value WorkerTurn s \<noteq> None \<and>
     (\<exists>k. k < length (contents (nd_chan s)) \<and> contents (nd_chan s) ! k = (t, name, req) \<and>
        (\<forall>fs s'. dispatcher_run mp u to_value fs s = Some s' \<longrightarrow>
           (if turns fs \<le> k then nd_calls s' t = Some (AwaitingReply trying name req)
            else \<exists>r. nd_calls s' t = Some (Returned r))))"
proof -
  have inv: "waiting_inv contents s" by (rule waiting_run[OF assms(1,2) waiting_new[OF assms(1)]])
  have "(t, name, req) \<in> set (contents (nd_chan s))" using inv assms(3) by (auto simp: waiting_inv_def)
  then obtain k where k: "k < length (contents (nd_chan s))" "contents (nd_chan s) ! k = (t, name, req)"
    by (auto simp: in_set_conv_nth)
  then have "contents (nd_chan s) \<noteq> []" by auto
  then show ?thesis
    using worker_not_blocked[OF assms(1), of s u to_value] waits_its_turn[OF assms(1) _ inv k assms(3)] k by blast
qed

section \<open>Concrete runs\<close>

text \<open>Services that are their names, one of them registered, and two callers.\<close>

definition named_service :: "(string, string, unit) nonrt_service" where
  "named_service =
     \<lparr>ns_name = \<lambda>n. n, ns_start = \<lambda>n. (Ok (), n), ns_stop = \<lambda>n. (Ok (), n), ns_health_check = \<lambda>n. True,
      ns_status = service_status_new, ns_call = default_call\<rparr>"

definition name_value :: "service_status \<Rightarrow> (string, string) result" where
  "name_value st = Ok (ss_name st)"

definition one_service :: "(unit, string) service_registry" where
  "one_service = register_non_rt (ns_name named_service) ''a'' service_registry_new"

definition two_callers :: "(string, unit, string) dispatcher_event list" where
  "two_callers = [Call 0 ''a'' ''q'', TryCall 1 ''b'' ''q'']"

lemmas dispatcher_eval = start_call_def finish_call_def list_mpsc_def nonrt_dispatcher_def dispatcher_call_def
  dispatcher_try_call_def dispatch_def

lemma one_service_of: "non_rt_of one_service name = (if name = ''a'' then Some ''a'' else None)"
  by (simp add: one_service_def register_non_rt_def put_non_rt_def non_rt_of_def service_registry_new_def named_service_def)

lemma full_run:
  "\<exists>s. dispatcher_run list_mpsc named_service name_value (two_callers @ [WorkerTurn]) (nonrt_dispatcher list_mpsc 1 one_service) = Some s \<and>
     nd_calls s 0 = Some (Returned (Ok ''a'')) \<and> nd_calls s 1 = Some (Returned (Err ''Dispatcher channel full or closed''))"
  by (simp add: two_callers_def dispatcher_eval one_service_of)
    (simp add: named_service_def name_value_def service_status_new_def)

theorem callers_get_their_answers_witness:
  "\<exists>s. dispatcher_run list_mpsc named_service name_value (two_callers @ [WorkerTurn]) (nonrt_dispatcher list_mpsc 1 one_service) = Some s \<and>
     nd_calls s 0 = Some (Returned (Ok ''a'')) \<and>
     (\<exists>name req e. e \<in> set (two_callers @ [WorkerTurn]) \<and> starts e 0 name req \<and>
        answered_at list_mpsc named_service name_value fst (two_callers @ [WorkerTurn]) (nonrt_dispatcher list_mpsc 1 one_service) 0
          name req (Ok ''a''))"
proof (rule exE[OF full_run], elim conjE)
  fix s
  assume s: "dispatcher_run list_mpsc named_service name_value (two_callers @ [WorkerTurn]) (nonrt_dispatcher list_mpsc 1 one_service) = Some s"
    "nd_calls s 0 = Some (Returned (Ok ''a''))"
  have "\<not> refusal_of (Ok ''a'')" by (simp add: refusal_of_def)
  then show ?thesis using callers_get_their_answers[OF list_mpsc_lawful s] s by (intro exI[of _ s]) simp
qed

lemma waiting_demo:
  "\<exists>s s1 s2. dispatcher_run list_mpsc named_service name_value two_callers (nonrt_dispatcher list_mpsc 2 one_service) = Some s \<and>
     nd_calls s 1 = Some (AwaitingReply True ''b'' ''q'') \<and> map fst (fst (nd_chan s)) = [0, 1] \<and>
     dispatcher_run list_mpsc named_service name_value [WorkerTurn] s = Some s1 \<and>
     dispatcher_run list_mpsc named_service name_value [WorkerTurn, WorkerTurn] s = Some s2"
  by (simp add: two_callers_def dispatcher_eval)

theorem calls_return_after_their_turn_witness:
  "\<exists>s s1 s2. dispatcher_run list_mpsc named_service name_value two_callers (nonrt_dispatcher list_mpsc 2 one_service) = Some s \<and>
     dispatcher_run list_mpsc named_service name_value [WorkerTurn] s = Some s1 \<and>
     nd_calls s1 1 = Some (AwaitingReply True ''b'' ''q'') \<and>
     dispatcher_run list_mpsc named_service name_value [WorkerTurn, WorkerTurn] s = Some s2 \<and>
     (\<exists>r. nd_calls s2 1 = Some (Returned r))"
proof (rule exE[OF waiting_demo], elim exE conjE)
  fix s s1 s2
  assume s: "dispatcher_run list_mpsc named_service name_value two_callers (nonrt_dispatcher list_mpsc 2 one_service) = Some s"
    "nd_calls s 1 = Some (AwaitingReply True ''b'' ''q'')" "map fst (fst (nd_chan s)) = [0, 1]"
    and runs: "dispatcher_run list_mpsc named_service name_value [WorkerTurn] s = Some s1"
      "dispatcher_run list_mpsc named_service name_value [WorkerTurn, WorkerTurn] s = Some s2"
  obtain k where k: "k < length (fst (nd_chan s))" "fst (nd_chan s) ! k = (1, ''b'', ''q'')"
      and after: "\<forall>fs s'. dispatcher_run list_mpsc named_service name_value fs s = Some s' \<longrightarrow>
         (if turns fs \<le> k then nd_calls s' 1 = Some (AwaitingReply True ''b'' ''q'') else \<exists>r. nd_calls s' 1 = Some (Returned r))"
    using calls_return_after_their_turn[OF list_mpsc_lawful s(1,2)] by (elim exE conjE)
  have "[0, 1] ! k = (1 :: nat)" using k s(3) nth_map[of k "fst (nd_chan s)" fst] by simp
  moreover have "k < 2" using k(1) s(3) by (metis length_Cons length_map list.size(3) numeral_2_eq_2)
  ultimately have "k = 1" by (cases k) simp_all
  then show ?thesis
    using s(1) runs after[THEN spec, THEN spec, THEN mp, OF runs(1)] after[THEN spec, THEN spec, THEN mp, OF runs(2)]
    by (intro exI[of _ s] exI[of _ s1] exI[of _ s2]) (simp del: dispatcher_run.simps)
qed

end
