(* ===== verification/Engine_Main.thy ===== *)
theory Engine_Main
  imports Engine Gateway_Loop Channels
begin

text \<open>
  \<open>engine/fischertechnikdtengine/src/bin/main.rs\<close>: the engine that reads the machine through the MQTT
  gateway. Its tasks run interleaved with the gateway's (\<open>gateway_old/mqtt/src/gateway.rs\<close>); between them are
  the channel of events and the channel of commands. A step is what a task does up to its next await, a
  step of a task that has to wait is \<open>None\<close>. The channels are \<open>tokio\<close>'s, two records of methods.
\<close>

section \<open>The program\<close>

definition main_config :: gateway_config where
  "main_config =
     \<lparr>gc_downstream =
        \<lparr>dc_host = ''127.0.0.1'', dc_port = 1883, dc_client_id = ''sampleengine-ft-gw'', dc_username = None,
         dc_password = None, dc_keep_alive_secs = 30, dc_subscribe_filter = ''fischertechnik/#''\<rparr>,
      gc_upstream = \<lparr>uc_command_prefix = ''fischertechnik/commands'', uc_structured_event_prefix = Some ''fischertechnik/events''\<rparr>,
      gc_event_channel_capacity = 2048, gc_command_channel_capacity = 256\<rparr>"

text \<open>What the task in lines 60 to 74 prints at a turn.\<close>

datatype property_line =
    SpeedLine f64 "string option"
  | PositionLine f64 "string option"

definition report_turn :: "property_model \<Rightarrow> property_line list" where
  "report_turn pm =
     (case property_get (pm_speed pm) conveyor_1_4 of
        Some s \<Rightarrow> [SpeedLine (ps_value s) (ps_unit s)]
      | None \<Rightarrow> []) @
     (case property_get (pm_position pm) conveyor_1_4 of
        Some p \<Rightarrow> [PositionLine (ps_value p) (ps_unit p)]
      | None \<Rightarrow> [])"

text \<open>
  The body of the main loop up to the send: the warning it prints, the property model, and the command
  it is about to send.
\<close>

datatype main_warning =
    FailureWarning string "string option"
  | DeviationWarning string i64 i64

definition has_suffix :: "string \<Rightarrow> string \<Rightarrow> bool" where
  "has_suffix suffix s \<longleftrightarrow> length suffix \<le> length s \<and> drop (length s - length suffix) s = suffix"

definition number_of :: "gw_value \<Rightarrow> f64 option" where
  "number_of v = (case v of Number x unit \<Rightarrow> Some x | _ \<Rightarrow> None)"

definition main_event :: "gateway_event \<Rightarrow> property_model \<Rightarrow> main_warning list \<times> property_model \<times> gw_command option" where
  "main_event evt pm =
     (case evt of
        Telemetry t \<Rightarrow>
          (let pm' = apply_telemetry t pm
           in case number_of (te_value t) of
                Some v \<Rightarrow>
                  if has_suffix ''/speed'' (te_topic t) \<and> f64_less (f64_lit 1 0) v
                  then ([], pm', Some (set_target_speed_cmd conveyor_1_4 (f64_lit 7 1)))
                  else ([], pm', None)
              | None \<Rightarrow> ([], pm', None))
      | MachineFailure f \<Rightarrow> ([FailureWarning (me_component f) (me_message f)], pm, None)
      | CounterDeviation d \<Rightarrow> ([DeviationWarning (ce_counter_name d) (ce_expected d) (ce_actual d)], pm, None))"

text \<open>
  The rest of \<open>main\<close>: a queue, a workflow engine and a synchronizer with one mapping, over ports that are
  parameters (see the header). Nothing in the program uses them again.
\<close>

record 'w main_parts =
  mn_queue :: event_queue
  mn_workflow :: workflow_engine
  mn_synchronizer :: "'w mapping list"
  mn_props :: property_model

definition main_parts_new ::
  "('w \<Rightarrow> (mapping_io_error, position3) result \<times> 'w) \<Rightarrow> (position3 \<Rightarrow> 'w \<Rightarrow> (mapping_io_error, unit) result \<times> 'w)
   \<Rightarrow> 'w main_parts exec" where
  "main_parts_new get_position try_set_position =
     (case event_queue_new 1024 of
        Panic \<Rightarrow> Panic
      | Return q \<Rightarrow>
          Return \<lparr>mn_queue = q, mn_workflow = with_budget 32 workflow_engine_new,
                  mn_synchronizer = [position_mapping ''PositionMapping'' get_position try_set_position],
                  mn_props = property_model_default\<rparr>)"

section \<open>The engine and the gateway\<close>

text \<open>
  The gateway's task is selecting; or in the middle of the events of a message, the front one in its
  property model already and waiting for the channel (\<open>el_forwarding\<close>); or inside \<open>publish\<close> with a command,
  waiting for the client (\<open>el_publishing\<close>). The engine's is receiving, or about to send a command, or has
  left. \<open>el_published\<close> is a ghost: the commands the client took.
\<close>

record ('e, 'c, 'net) engine_loop =
  el_gateway :: "('e, 'net) gateway"
  el_forwarding :: "gateway_event list"
  el_publishing :: "(gw_command \<times> mqtt_publish) option"
  el_commands :: 'c
  el_props :: property_model
  el_sending :: "gw_command option"
  el_left :: bool
  el_published :: "gw_command list"

definition engine_loop_new ::
  "(gateway_event, 'e) mpsc \<Rightarrow> (gw_command, 'c) mpsc \<Rightarrow> gateway_config \<Rightarrow> 'net \<Rightarrow> ('e, 'c, 'net) engine_loop" where
  "engine_loop_new me mc cfg net =
     \<lparr>el_gateway = gateway_new (mp_new me (gc_event_channel_capacity cfg)) net, el_forwarding = [],
      el_publishing = None, el_commands = mp_new mc (gc_command_channel_capacity cfg), el_props = property_model_default,
      el_sending = None, el_left = False, el_published = []\<rparr>"

text \<open>
  The gateway selects on its shutdown, its commands and \<open>recv\<close>. Each time it does, \<open>recv\<close> polls the client,
  which may take some of its requests (\<open>PollNetwork\<close>) and may come back with a message (\<open>TakeMessage\<close>).
\<close>

datatype loop_event =
    PollNetwork nat
  | TakeMessage nat mqtt_message timestamp
  | ForwardEvent
  | TakeCommand timestamp
  | PublishCommand
  | ShutDown
  | TakeEvent
  | SendCommand

text \<open>The gateway's task ends: it drops its sender of events and its receiver of commands.\<close>

definition end_task ::
  "(gateway_event, 'e) mpsc \<Rightarrow> (gw_command, 'c) mpsc \<Rightarrow> (string, unit) result \<Rightarrow> ('e, 'c, 'net) engine_loop \<Rightarrow> ('e, 'c, 'net) engine_loop" where
  "end_task me mc res s =
     s\<lparr>el_gateway := (el_gateway s)\<lparr>gw_ended := Some res, gw_events_tx := mp_drop_sender me (gw_events_tx (el_gateway s))\<rparr>,
       el_forwarding := [], el_publishing := None, el_commands := mp_drop_receiver mc (el_commands s)\<rparr>"

text \<open>The next of the events: into the property model, then it waits for the channel.\<close>

definition next_event :: "gateway_event list \<Rightarrow> ('e, 'c, 'net) engine_loop \<Rightarrow> ('e, 'c, 'net) engine_loop" where
  "next_event evts s =
     (case evts of
        [] \<Rightarrow> s\<lparr>el_forwarding := []\<rparr>
      | e # es \<Rightarrow>
          s\<lparr>el_forwarding := e # es,
            el_gateway := (el_gateway s)\<lparr>gw_properties := track e (gw_properties (el_gateway s))\<rparr>\<rparr>)"

definition selecting :: "('e, 'c, 'net) engine_loop \<Rightarrow> bool" where
  "selecting s \<longleftrightarrow> el_forwarding s = [] \<and> el_publishing s = None"

definition poll_client :: "('j, 'net) gateway_env \<Rightarrow> nat \<Rightarrow> ('e, 'c, 'net) engine_loop \<Rightarrow> ('e, 'c, 'net) engine_loop" where
  "poll_client E n s = s\<lparr>el_gateway := (el_gateway s)\<lparr>gw_net := ge_poll E n (gw_net (el_gateway s))\<rparr>\<rparr>"

fun gateway_task ::
  "(gateway_event, 'e) mpsc \<Rightarrow> (gw_command, 'c) mpsc \<Rightarrow> ('j, 'net) gateway_env \<Rightarrow> upstream_config
   \<Rightarrow> loop_event \<Rightarrow> ('e, 'c, 'net) engine_loop \<Rightarrow> ('e, 'c, 'net) engine_loop option" where
  "gateway_task me mc E cfg (PollNetwork n) s = (if selecting s then Some (poll_client E n s) else None)"
| "gateway_task me mc E cfg (TakeMessage n msg now) s =
     (if selecting s then Some (next_event (decode_events (ge_decoders E) cfg now msg) (poll_client E n s)) else None)"
| "gateway_task me mc E cfg ForwardEvent s =
     (case el_forwarding s of
        [] \<Rightarrow> None
      | e # es \<Rightarrow>
          (case mp_try_send me e (gw_events_tx (el_gateway s)) of
             (Sent, ch) \<Rightarrow> Some (next_event es (s\<lparr>el_gateway := (el_gateway s)\<lparr>gw_events_tx := ch\<rparr>\<rparr>))
           | (SendFull _, _) \<Rightarrow> None
           | (SendClosed _, ch) \<Rightarrow> Some (end_task me mc (Ok ()) (s\<lparr>el_gateway := (el_gateway s)\<lparr>gw_events_tx := ch\<rparr>\<rparr>))))"
| "gateway_task me mc E cfg (TakeCommand now) s =
     (if \<not> selecting s then None
      else
        (case mp_recv mc (el_commands s) of
           (NothingYet, _) \<Rightarrow> None
         | (AllSendersDropped, ch) \<Rightarrow> Some (s\<lparr>el_commands := ch\<rparr>)
         | (Received c, ch) \<Rightarrow>
             (case encode_command (ge_to_vec E) cfg now c of
                Inl e \<Rightarrow> Some (end_task me mc (Err e) (s\<lparr>el_commands := ch\<rparr>))
              | Inr p \<Rightarrow> Some (s\<lparr>el_commands := ch, el_publishing := Some (c, p)\<rparr>))))"
| "gateway_task me mc E cfg PublishCommand s =
     (case el_publishing s of
        None \<Rightarrow> None
      | Some (c, p) \<Rightarrow>
          (case downstream_publish (ge_client_publish E) p (gw_net (el_gateway s)) of
             None \<Rightarrow> None
           | Some (Inl e, net) \<Rightarrow> Some (end_task me mc (Err e) (s\<lparr>el_gateway := (el_gateway s)\<lparr>gw_net := net\<rparr>\<rparr>))
           | Some (Inr _, net) \<Rightarrow>
               Some (s\<lparr>el_gateway := (el_gateway s)\<lparr>gw_net := net\<rparr>, el_publishing := None,
                       el_published := el_published s @ [c]\<rparr>)))"
| "gateway_task me mc E cfg ShutDown s = (if selecting s then Some (end_task me mc (Ok ()) s) else None)"
| "gateway_task me mc E cfg TakeEvent s = None"
| "gateway_task me mc E cfg SendCommand s = None"

fun engine_task ::
  "(gateway_event, 'e) mpsc \<Rightarrow> (gw_command, 'c) mpsc \<Rightarrow> loop_event \<Rightarrow> ('e, 'c, 'net) engine_loop \<Rightarrow> ('e, 'c, 'net) engine_loop option" where
  "engine_task me mc TakeEvent s =
     (if el_left s \<or> el_sending s \<noteq> None then None
      else
        (case mp_recv me (gw_events_tx (el_gateway s)) of
           (NothingYet, _) \<Rightarrow> None
         | (AllSendersDropped, ch) \<Rightarrow> Some (s\<lparr>el_gateway := (el_gateway s)\<lparr>gw_events_tx := ch\<rparr>, el_left := True\<rparr>)
         | (Received evt, ch) \<Rightarrow>
             (case main_event evt (el_props s) of
                (warnings, pm, cmd) \<Rightarrow>
                  Some (s\<lparr>el_gateway := (el_gateway s)\<lparr>gw_events_tx := ch\<rparr>, el_props := pm, el_sending := cmd\<rparr>))))"
| "engine_task me mc SendCommand s =
     (case el_sending s of
        None \<Rightarrow> None
      | Some c \<Rightarrow>
          (case mp_try_send mc c (el_commands s) of
             (SendFull _, _) \<Rightarrow> None
           | (Sent, ch) \<Rightarrow> Some (s\<lparr>el_commands := ch, el_sending := None\<rparr>)
           | (SendClosed _, ch) \<Rightarrow> Some (s\<lparr>el_commands := ch, el_sending := None\<rparr>)))"
| "engine_task me mc _ s = None"

definition loop_step ::
  "(gateway_event, 'e) mpsc \<Rightarrow> (gw_command, 'c) mpsc \<Rightarrow> ('j, 'net) gateway_env \<Rightarrow> upstream_config
   \<Rightarrow> loop_event \<Rightarrow> ('e, 'c, 'net) engine_loop \<Rightarrow> ('e, 'c, 'net) engine_loop option" where
  "loop_step me mc E cfg e s =
     (if e = TakeEvent \<or> e = SendCommand then engine_task me mc e s
      else if gw_ended (el_gateway s) \<noteq> None then None
      else gateway_task me mc E cfg e s)"

fun loop_run ::
  "(gateway_event, 'e) mpsc \<Rightarrow> (gw_command, 'c) mpsc \<Rightarrow> ('j, 'net) gateway_env \<Rightarrow> upstream_config
   \<Rightarrow> loop_event list \<Rightarrow> ('e, 'c, 'net) engine_loop \<Rightarrow> ('e, 'c, 'net) engine_loop option" where
  "loop_run me mc E cfg [] s = Some s"
| "loop_run me mc E cfg (e # es) s =
     (case loop_step me mc E cfg e s of None \<Rightarrow> None | Some s' \<Rightarrow> loop_run me mc E cfg es s')"

lemma loop_run_append:
  "loop_run me mc E cfg (es @ fs) s = (case loop_run me mc E cfg es s of None \<Rightarrow> None | Some s' \<Rightarrow> loop_run me mc E cfg fs s')"
  by (induction es arbitrary: s) (simp_all split: option.splits)

section \<open>What the two channels hold\<close>

text \<open>
  More of what the documentation of the channel promises: how much it takes, and that only the drop of
  its last sender ends it.
\<close>

definition bounded_laws ::
  "('m, 'ch) mpsc \<Rightarrow> ('ch \<Rightarrow> 'm list) \<Rightarrow> ('ch \<Rightarrow> bool) \<Rightarrow> ('ch \<Rightarrow> nat) \<Rightarrow> ('ch \<Rightarrow> nat) \<Rightarrow> bool" where
  "bounded_laws mp contents closed capacity senders \<longleftrightarrow>
     mpsc_laws mp contents closed \<and>
     (\<forall>n. capacity (mp_new mp n) = n \<and> senders (mp_new mp n) = 1) \<and>
     (\<forall>m ch. case mp_try_send mp m ch of (outcome, ch') \<Rightarrow>
        capacity ch' = capacity ch \<and> senders ch' = senders ch \<and>
        (outcome = Sent \<longleftrightarrow> \<not> closed ch \<and> length (contents ch) < capacity ch) \<and> ((\<exists>m. outcome = SendClosed m) \<longleftrightarrow> closed ch)) \<and>
     (\<forall>ch. case mp_recv mp ch of (outcome, ch') \<Rightarrow>
        capacity ch' = capacity ch \<and> senders ch' = senders ch \<and> (outcome = AllSendersDropped \<longrightarrow> senders ch = 0)) \<and>
     (\<forall>ch. capacity (mp_drop_sender mp ch) = capacity ch)"

lemma bounded_mpsc: "bounded_laws mp contents closed capacity senders \<Longrightarrow> mpsc_laws mp contents closed"
  by (simp add: bounded_laws_def)

lemma bounded_new: "bounded_laws mp contents closed capacity senders \<Longrightarrow>
    contents (mp_new mp n) = [] \<and> \<not> closed (mp_new mp n) \<and> capacity (mp_new mp n) = n \<and> senders (mp_new mp n) = 1"
  using law_new[OF bounded_mpsc, of mp contents closed capacity senders n] by (simp add: bounded_laws_def)

lemma bounded_send_law:
  assumes "bounded_laws mp contents closed capacity senders" "mp_try_send mp m ch = (outcome, ch')"
  shows "capacity ch' = capacity ch \<and> senders ch' = senders ch \<and> closed ch' = closed ch \<and>
    contents ch' = contents ch @ (if outcome = Sent then [m] else []) \<and>
    (outcome = Sent \<longleftrightarrow> \<not> closed ch \<and> length (contents ch) < capacity ch) \<and> ((\<exists>m. outcome = SendClosed m) \<longleftrightarrow> closed ch)"
proof -
  have "case mp_try_send mp m ch of (outcome, ch') \<Rightarrow>
        capacity ch' = capacity ch \<and> senders ch' = senders ch \<and>
        (outcome = Sent \<longleftrightarrow> \<not> closed ch \<and> length (contents ch) < capacity ch) \<and> ((\<exists>m. outcome = SendClosed m) \<longleftrightarrow> closed ch)"
    using assms(1) by (simp add: bounded_laws_def)
  then show ?thesis using law_send[OF bounded_mpsc[OF assms(1)] assms(2)] assms(2) by simp
qed

lemma bounded_recv_law:
  assumes "bounded_laws mp contents closed capacity senders" "mp_recv mp ch = (outcome, ch')"
  shows "capacity ch' = capacity ch \<and> senders ch' = senders ch \<and> closed ch' = closed ch \<and>
    contents ch = (case outcome of Received m \<Rightarrow> [m] | _ \<Rightarrow> []) @ contents ch' \<and>
    ((\<nexists>m. outcome = Received m) \<longrightarrow> contents ch' = []) \<and> (outcome = AllSendersDropped \<longrightarrow> senders ch = 0)"
proof -
  have "case mp_recv mp ch of (outcome, ch') \<Rightarrow>
        capacity ch' = capacity ch \<and> senders ch' = senders ch \<and> (outcome = AllSendersDropped \<longrightarrow> senders ch = 0)"
    using assms(1) by (simp add: bounded_laws_def)
  then show ?thesis using law_recv[OF bounded_mpsc[OF assms(1)] assms(2)] assms(2) by simp
qed

lemma list_mpsc_bounded: "bounded_laws list_mpsc fst (\<lambda>(q, cap, gone, n). gone) (\<lambda>(q, cap, gone, n). cap) (\<lambda>(q, cap, gone, n). n)"
  unfolding bounded_laws_def by (intro conjI list_mpsc_lawful) (auto simp: list_mpsc_def split: list.splits)

text \<open>What the engine answers, and which messages the gateway took.\<close>

definition too_fast :: "gateway_event \<Rightarrow> bool" where
  "too_fast evt \<longleftrightarrow> (\<exists>t v unit. evt = Telemetry t \<and> te_value t = Number v unit \<and> has_suffix ''/speed'' (te_topic t) \<and>
     f64_less (f64_lit 1 0) v)"

definition slow_down :: gw_command where
  "slow_down = SetConveyorSpeed conveyor_1_4 (f64_lit 7 1)"

definition answers :: "gateway_event list \<Rightarrow> gw_command list" where
  "answers evts = replicate (length (filter too_fast evts)) slow_down"

lemma answers_simps [simp]: "answers [] = []" "answers (xs @ ys) = answers xs @ answers ys"
    "answers [e] = (if too_fast e then [slow_down] else [])"
  by (simp_all add: answers_def replicate_add)

lemma main_event_answers: "main_event evt pm = (ws, pm', cmd) \<Longrightarrow>
    pm' = track evt pm \<and> cmd = (if too_fast evt then Some slow_down else None)"
  by (cases evt) (auto simp: main_event_def track_def too_fast_def slow_down_def set_target_speed_cmd_def number_of_def Let_def
      split: gw_value.splits if_splits)

definition decoded_by :: "('j, 'net) gateway_env \<Rightarrow> upstream_config \<Rightarrow> loop_event \<Rightarrow> gateway_event list" where
  "decoded_by E cfg e = (case e of TakeMessage n msg now \<Rightarrow> decode_events (ge_decoders E) cfg now msg | _ \<Rightarrow> [])"

lemma speed_suffix: "has_suffix ''/speed'' s \<longleftrightarrow> drop (length s - 6) s = ''/speed''"
proof -
  have "6 \<le> length s" if "drop (length s - 6) s = ''/speed''"
    using arg_cong[OF that, of length] by simp
  then show ?thesis by (auto simp: has_suffix_def eval_nat_numeral)
qed

lemma main_event_sample_engine:
  "main_event evt pm = (ws, pm', cmd) \<Longrightarrow> sample_engine_step evt pm = (case cmd of Some c \<Rightarrow> [c] | None \<Rightarrow> [], pm')"
  by (cases evt) (auto simp: main_event_def sample_engine_step_def speed_suffix number_of_def Let_def
      split: gw_value.splits if_splits)

section \<open>The invariant of the loop\<close>

abbreviation event_chan :: "('e, 'c, 'net) engine_loop \<Rightarrow> 'e" where
  "event_chan s \<equiv> gw_events_tx (el_gateway s)"

abbreviation running :: "('e, 'c, 'net) engine_loop \<Rightarrow> bool" where
  "running s \<equiv> gw_ended (el_gateway s) = None"

text \<open>Who still holds which end of which channel, and how much is in it.\<close>

definition ends_inv ::
  "('e \<Rightarrow> gateway_event list) \<Rightarrow> ('e \<Rightarrow> bool) \<Rightarrow> ('e \<Rightarrow> nat) \<Rightarrow> ('e \<Rightarrow> nat) \<Rightarrow> ('c \<Rightarrow> gw_command list) \<Rightarrow> ('c \<Rightarrow> bool) \<Rightarrow>
   ('c \<Rightarrow> nat) \<Rightarrow> nat \<Rightarrow> nat \<Rightarrow> ('e, 'c, 'net) engine_loop \<Rightarrow> bool" where
  "ends_inv econt eclosed ecap esend ccont cclosed ccap ne nc s \<longleftrightarrow>
     \<not> eclosed (event_chan s) \<and> ecap (event_chan s) = ne \<and> length (econt (event_chan s)) \<le> ne \<and>
     (running s \<longrightarrow> esend (event_chan s) = 1 \<and> \<not> cclosed (el_commands s) \<and> ccap (el_commands s) = nc \<and>
        length (ccont (el_commands s)) \<le> nc \<and> \<not> el_left s) \<and>
     (\<not> running s \<longrightarrow> el_forwarding s = [] \<and> el_publishing s = None) \<and>
     (el_forwarding s = [] \<or> el_publishing s = None)"

text \<open>
  Nothing is lost or reordered between the two: \<open>evts\<close> the decoded events, \<open>seen\<close> those the engine has taken.
\<close>

definition flow_inv ::
  "('e \<Rightarrow> gateway_event list) \<Rightarrow> ('c \<Rightarrow> gw_command list) \<Rightarrow> gateway_event list \<Rightarrow> gateway_event list \<Rightarrow> ('e, 'c, 'net) engine_loop \<Rightarrow> bool" where
  "flow_inv econt ccont evts seen s \<longleftrightarrow>
     seen @ econt (event_chan s) @ el_forwarding s = evts \<and>
     el_props s = fold track seen property_model_default \<and>
     gw_properties (el_gateway s) = fold track (seen @ econt (event_chan s) @ take 1 (el_forwarding s)) property_model_default \<and>
     (running s \<longrightarrow> el_published s @ (case el_publishing s of Some (c, p) \<Rightarrow> [c] | None \<Rightarrow> []) @ ccont (el_commands s) @ (case el_sending s of Some c \<Rightarrow> [c] | None \<Rightarrow> []) = answers seen) \<and>
     (\<exists>rest. el_published s @ rest = answers seen)"

lemma next_event_keeps [simp]:
  "event_chan (next_event es s) = event_chan s" "el_forwarding (next_event es s) = es"
  "el_commands (next_event es s) = el_commands s" "el_props (next_event es s) = el_props s"
  "el_sending (next_event es s) = el_sending s" "el_left (next_event es s) = el_left s"
  "el_publishing (next_event es s) = el_publishing s" "gw_net (el_gateway (next_event es s)) = gw_net (el_gateway s)"
  "el_published (next_event es s) = el_published s" "gw_ended (el_gateway (next_event es s)) = gw_ended (el_gateway s)"
  "gw_properties (el_gateway (next_event es s)) = fold track (take 1 es) (gw_properties (el_gateway s))"
  by (simp_all add: next_event_def split: list.splits)

lemma end_task_keeps [simp]:
  "event_chan (end_task me mc r s) = mp_drop_sender me (event_chan s)" "el_forwarding (end_task me mc r s) = []"
  "el_props (end_task me mc r s) = el_props s" "el_sending (end_task me mc r s) = el_sending s"
  "el_left (end_task me mc r s) = el_left s" "el_published (end_task me mc r s) = el_published s"
  "el_publishing (end_task me mc r s) = None" "gw_net (el_gateway (end_task me mc r s)) = gw_net (el_gateway s)"
  "gw_ended (el_gateway (end_task me mc r s)) = Some r"
  "gw_properties (el_gateway (end_task me mc r s)) = gw_properties (el_gateway s)"
  by (simp_all add: end_task_def)

lemma poll_client_keeps [simp]:
  "event_chan (poll_client E n s) = event_chan s" "el_forwarding (poll_client E n s) = el_forwarding s"
  "el_commands (poll_client E n s) = el_commands s" "el_props (poll_client E n s) = el_props s"
  "el_sending (poll_client E n s) = el_sending s" "el_left (poll_client E n s) = el_left s"
  "el_publishing (poll_client E n s) = el_publishing s" "el_published (poll_client E n s) = el_published s"
  "gw_ended (el_gateway (poll_client E n s)) = gw_ended (el_gateway s)"
  "gw_properties (el_gateway (poll_client E n s)) = gw_properties (el_gateway s)"
  "gw_net (el_gateway (poll_client E n s)) = ge_poll E n (gw_net (el_gateway s))"
  by (simp_all add: poll_client_def)

text \<open>The effect of each kind of step, as equations on what the two invariants speak of.\<close>

lemma forward_cases:
  assumes "bounded_laws me econt eclosed ecap esend" "gateway_task me mc E cfg ForwardEvent s = Some s'" "\<not> eclosed (event_chan s)"
  obtains e es ch where "el_forwarding s = e # es" "econt ch = econt (event_chan s) @ [e]" "\<not> eclosed ch"
    "ecap ch = ecap (event_chan s)" "esend ch = esend (event_chan s)" "length (econt (event_chan s)) < ecap (event_chan s)"
    "s' = next_event es (s\<lparr>el_gateway := (el_gateway s)\<lparr>gw_events_tx := ch\<rparr>\<rparr>)"
proof -
  obtain e es where fwd: "el_forwarding s = e # es" using assms(2) by (auto split: list.splits)
  obtain outcome ch where sent: "mp_try_send me e (event_chan s) = (outcome, ch)" by fastforce
  note law = bounded_send_law[OF assms(1) sent]
  have "outcome = Sent" using assms(2,3) fwd sent law by (cases outcome) (auto split: if_splits)
  then show thesis using that[of e es ch] law sent fwd assms(2) by simp
qed

lemma take_command_cases:
  assumes "bounded_laws mc ccont cclosed ccap csend" "gateway_task me mc E cfg (TakeCommand now) s = Some s'"
  obtains (gone) ch where "selecting s" "ccont ch = ccont (el_commands s)" "cclosed ch = cclosed (el_commands s)"
      "ccap ch = ccap (el_commands s)" "s' = s\<lparr>el_commands := ch\<rparr>"
  | (failed) e ch where "selecting s" "s' = end_task me mc (Err e) (s\<lparr>el_commands := ch\<rparr>)"
  | (taken) c p ch where "selecting s" "ccont (el_commands s) = c # ccont ch" "cclosed ch = cclosed (el_commands s)"
      "ccap ch = ccap (el_commands s)" "s' = s\<lparr>el_commands := ch, el_publishing := Some (c, p)\<rparr>"
proof -
  have idle: "selecting s" using assms(2) by (auto split: if_splits)
  obtain outcome ch where recv: "mp_recv mc (el_commands s) = (outcome, ch)" by fastforce
  note law = bounded_recv_law[OF assms(1) recv]
  show thesis
  proof (cases outcome)
    case AllSendersDropped
    then show thesis using gone[of ch] law recv idle assms(2) by simp
  next
    case NothingYet
    then show thesis using recv idle assms(2) by simp
  next
    case (Received c)
    then show thesis
      using failed[of _ ch] taken[of c ch] law recv idle assms(2) by (cases "encode_command (ge_to_vec E) cfg now c") auto
  qed
qed

lemma publish_cases:
  assumes "gateway_task me mc E cfg PublishCommand s = Some s'"
  obtains (failed) c p e net where "el_publishing s = Some (c, p)"
      "downstream_publish (ge_client_publish E) p (gw_net (el_gateway s)) = Some (Err e, net)"
      "s' = end_task me mc (Err e) (s\<lparr>el_gateway := (el_gateway s)\<lparr>gw_net := net\<rparr>\<rparr>)"
  | (published) c p net where "el_publishing s = Some (c, p)"
      "downstream_publish (ge_client_publish E) p (gw_net (el_gateway s)) = Some (Ok (), net)"
      "s' = s\<lparr>el_gateway := (el_gateway s)\<lparr>gw_net := net\<rparr>, el_publishing := None, el_published := el_published s @ [c]\<rparr>"
proof -
  obtain c p where c: "el_publishing s = Some (c, p)" using assms by (auto split: option.splits)
  obtain r net where r: "downstream_publish (ge_client_publish E) p (gw_net (el_gateway s)) = Some (r, net)"
    using assms c by (auto split: option.splits)
  show thesis using failed[of c p _ net] published[of c p net] assms c r by (cases r) simp_all
qed

lemma take_event_cases:
  assumes "bounded_laws me econt eclosed ecap esend" "engine_task me mc TakeEvent s = Some s'"
  obtains (left) ch where "\<not> el_left s" "el_sending s = None" "esend (event_chan s) = 0" "econt (event_chan s) = []" "econt ch = []"
      "eclosed ch = eclosed (event_chan s)" "ecap ch = ecap (event_chan s)" "esend ch = esend (event_chan s)"
      "s' = s\<lparr>el_gateway := (el_gateway s)\<lparr>gw_events_tx := ch\<rparr>, el_left := True\<rparr>"
  | (taken) evt ch where "\<not> el_left s" "el_sending s = None" "econt (event_chan s) = evt # econt ch"
      "eclosed ch = eclosed (event_chan s)" "ecap ch = ecap (event_chan s)" "esend ch = esend (event_chan s)"
      "s' = s\<lparr>el_gateway := (el_gateway s)\<lparr>gw_events_tx := ch\<rparr>, el_props := track evt (el_props s),
              el_sending := if too_fast evt then Some slow_down else None\<rparr>"
proof -
  have idle: "\<not> el_left s" "el_sending s = None" using assms(2) by (auto split: if_splits)
  obtain outcome ch where recv: "mp_recv me (event_chan s) = (outcome, ch)" by fastforce
  note law = bounded_recv_law[OF assms(1) recv]
  show thesis
  proof (cases outcome)
    case AllSendersDropped
    then show thesis using left[of ch] law recv idle assms(2) by simp
  next
    case NothingYet
    then show thesis using recv idle assms(2) by simp
  next
    case (Received evt)
    obtain ws pm cmd where evt: "main_event evt (el_props s) = (ws, pm, cmd)" by (cases "main_event evt (el_props s)") 
    show thesis using taken[of evt ch] main_event_answers[OF evt] evt Received law recv idle assms(2) by simp
  qed
qed

lemma send_command_cases:
  assumes "bounded_laws mc ccont cclosed ccap csend" "engine_task me mc SendCommand s = Some s'"
  obtains c ch where "el_sending s = Some c" "ccap ch = ccap (el_commands s)" "cclosed ch = cclosed (el_commands s)"
    "cclosed (el_commands s) \<or> ccont ch = ccont (el_commands s) @ [c] \<and> length (ccont (el_commands s)) < ccap (el_commands s)"
    "s' = s\<lparr>el_commands := ch, el_sending := None\<rparr>"
proof -
  obtain c where c: "el_sending s = Some c" using assms(2) by (auto split: option.splits)
  obtain outcome ch where sent: "mp_try_send mc c (el_commands s) = (outcome, ch)" by fastforce
  note law = bounded_send_law[OF assms(1) sent]
  show thesis
    using that[of c ch] law sent c assms(2) by (cases outcome) (auto split: if_splits)
qed

lemma ends_step:
  assumes "bounded_laws me econt eclosed ecap esend" "bounded_laws mc ccont cclosed ccap csend"
    and "loop_step me mc E cfg e s = Some s'" "ends_inv econt eclosed ecap esend ccont cclosed ccap ne nc s"
  shows "ends_inv econt eclosed ecap esend ccont cclosed ccap ne nc s'"
proof (cases "e = TakeEvent \<or> e = SendCommand")
  case False
  then have run: "running s" and step: "gateway_task me mc E cfg e s = Some s'"
    using assms(3) by (auto simp: loop_step_def split: if_splits)
  have drop: "econt (mp_drop_sender me ch) = econt ch" "eclosed (mp_drop_sender me ch) = eclosed ch" "ecap (mp_drop_sender me ch) = ecap ch" for ch
    using assms(1) law_senders[OF bounded_mpsc[OF assms(1)]] by (simp_all add: bounded_laws_def)
  show ?thesis
  proof (cases e)
    case (PollNetwork n)
    then show ?thesis using step assms(4) run by (auto simp: ends_inv_def split: if_splits)
  next
    case (TakeMessage n msg now)
    then show ?thesis using step assms(4) run by (auto simp: ends_inv_def selecting_def split: if_splits)
  next
    case ForwardEvent
    have "\<not> eclosed (event_chan s)" using assms(4) by (simp add: ends_inv_def)
    from assms(1) step[unfolded ForwardEvent] this show ?thesis
      by (cases rule: forward_cases) (use assms(4) run in \<open>auto simp: ends_inv_def\<close>)
  next
    case (TakeCommand now)
    from assms(2) step[unfolded TakeCommand] show ?thesis
      by (cases rule: take_command_cases) (use assms(4) run in \<open>auto simp: ends_inv_def drop selecting_def\<close>)
  next
    case PublishCommand
    from step[unfolded PublishCommand] show ?thesis
      by (cases rule: publish_cases) (use assms(4) run in \<open>auto simp: ends_inv_def drop\<close>)
  next
    case ShutDown
    then show ?thesis using step assms(4) run by (auto simp: ends_inv_def drop selecting_def split: if_splits)
  qed (use False in simp_all)
next
  case True
  then consider "e = TakeEvent" "engine_task me mc TakeEvent s = Some s'" | "e = SendCommand" "engine_task me mc SendCommand s = Some s'"
    using assms(3) by (auto simp: loop_step_def)
  then show ?thesis
  proof cases
    case 1
    from assms(1) 1(2) show ?thesis
      by (cases rule: take_event_cases) (use assms(4) in \<open>auto simp: ends_inv_def\<close>)
  next
    case 2
    from assms(2) 2(2) show ?thesis
      by (cases rule: send_command_cases) (use assms(4) in \<open>auto simp: ends_inv_def\<close>)
  qed
qed

lemma longer_rest: "p @ r = a \<Longrightarrow> \<exists>r'. p @ r' = a @ b"
  by auto

lemma flow_step:
  assumes "bounded_laws me econt eclosed ecap esend" "bounded_laws mc ccont cclosed ccap csend"
    and "loop_step me mc E cfg e s = Some s'" "ends_inv econt eclosed ecap esend ccont cclosed ccap ne nc s"
    and "flow_inv econt ccont evts seen s"
  shows "\<exists>seen'. flow_inv econt ccont (evts @ decoded_by E cfg e) seen' s'"
proof (cases "e = TakeEvent \<or> e = SendCommand")
  case False
  then have run: "running s" and step: "gateway_task me mc E cfg e s = Some s'"
    using assms(3) by (auto simp: loop_step_def split: if_splits)
  have drop: "econt (mp_drop_sender me ch) = econt ch" for ch
    using law_senders[OF bounded_mpsc[OF assms(1)]] by simp
  have "flow_inv econt ccont (evts @ decoded_by E cfg e) seen s'"
  proof (cases e)
    case (PollNetwork n)
    then show ?thesis using step assms(5) run by (auto simp: flow_inv_def decoded_by_def split: if_splits)
  next
    case (TakeMessage n msg now)
    then show ?thesis using step assms(5) run by (auto simp: flow_inv_def decoded_by_def selecting_def split: if_splits)
  next
    case ForwardEvent
    have "\<not> eclosed (event_chan s)" using assms(4) by (simp add: ends_inv_def)
    from assms(1) step[unfolded ForwardEvent] this show ?thesis
      by (cases rule: forward_cases) (use assms(5) run ForwardEvent in \<open>auto simp: flow_inv_def decoded_by_def\<close>)
  next
    case (TakeCommand now)
    from assms(2) step[unfolded TakeCommand] show ?thesis
      by (cases rule: take_command_cases) (use assms(5) run TakeCommand in \<open>auto simp: flow_inv_def decoded_by_def drop selecting_def\<close>)
  next
    case PublishCommand
    from step[unfolded PublishCommand] show ?thesis
      by (cases rule: publish_cases)
        (use assms(4,5) run PublishCommand in \<open>auto simp: flow_inv_def ends_inv_def decoded_by_def drop\<close>)
  next
    case ShutDown
    then show ?thesis using step assms(5) run by (auto simp: flow_inv_def decoded_by_def drop selecting_def split: if_splits)
  qed (use False in simp_all)
  then show ?thesis by (rule exI)
next
  case True
  then consider "e = TakeEvent" "engine_task me mc TakeEvent s = Some s'" | "e = SendCommand" "engine_task me mc SendCommand s = Some s'"
    using assms(3) by (auto simp: loop_step_def)
  then show ?thesis
  proof cases
    case 1
    from assms(1) 1(2) show ?thesis
    proof (cases rule: take_event_cases)
      case (left ch)
      then show ?thesis using assms(5) 1(1) by (intro exI[of _ seen]) (auto simp: flow_inv_def decoded_by_def)
    next
      case (taken evt ch)
      then show ?thesis
        using assms(5) 1(1) by (intro exI[of _ "seen @ [evt]"]) (auto simp: flow_inv_def decoded_by_def intro: longer_rest)
    qed
  next
    case 2
    from assms(2) 2(2) show ?thesis
      by (cases rule: send_command_cases)
        (use assms(4,5) 2(1) in \<open>intro exI[of _ seen], auto simp: flow_inv_def ends_inv_def decoded_by_def\<close>)
  qed
qed

end
