(* ===== verification/Float64_Exact.thy ===== *)
theory Float64_Exact
  imports Gateway_Parser
begin

text \<open>
  Where the double precision operations of \<open>Float64\<close> are exact: a mantissa of at most 53 bits is kept as
  it is, so that integers, their literals and their comparison are those of mathematics.
\<close>

lemma bit_length_range: "2 ^ n \<le> m \<Longrightarrow> m < 2 ^ Suc n \<Longrightarrow> bit_length m = Suc n"
proof (induction n arbitrary: m)
  case 0
  then have "m = 1" by simp
  then show ?case by (simp add: bit_length.simps[of "Suc 0"] bit_length.simps[of 0])
next
  case (Suc n)
  then have "bit_length (m div 2) = Suc n" by auto
  then show ?case using Suc.prems by (simp add: bit_length.simps[of m])
qed

lemma round_half_even_exact: "round_half_even (c * 2 ^ j) j = c"
  by (simp add: round_half_even_def)

lemma f64_round_exact:
  assumes c: "2 ^ 52 \<le> c" "c < 2 ^ 53" and e: "- 1074 \<le> e + int j" "e + int j \<le> 971"
  shows "f64_round s (c * 2 ^ j) e = f64_pack s (nat (e + int j + 1075)) (c - 2 ^ 52)"
proof -
  have "2 ^ (52 + j) \<le> c * 2 ^ j" "c * 2 ^ j < 2 ^ Suc (52 + j)"
    using c by (simp_all add: power_add)
  then have b: "bit_length (c * 2 ^ j) = 53 + j" using bit_length_range[of "52 + j" "c * 2 ^ j"] by simp
  have bc: "bit_length c = 53" using bit_length_range[of 52 c] c by simp
  have pos: "c * 2 ^ j \<noteq> 0" using c by auto
  have k: "max (int (53 + j) - 53) (- 1074 - e) = int j" using e by simp
  show ?thesis
  proof (cases "j = 0")
    case True
    then show ?thesis using pos bc b c e k by (simp add: f64_round_def Let_def del: power_numeral)
  next
    case False
    then show ?thesis
      using pos bc c e unfolding f64_round_def b k
      by (simp add: Let_def round_half_even_exact del: power_numeral)
  qed
qed

lemma unat_small: "n < 2 ^ 63 \<Longrightarrow> unat (word_of_nat n :: u64) = n"
  by (simp add: unsigned_of_nat take_bit_nat_eq_self)

lemma f64_decode_pack: "0 < ex \<Longrightarrow> ex < 2047 \<Longrightarrow> fr < 2 ^ 52 \<Longrightarrow> f64_decode (f64_pack False ex fr) = Fin False (fr + 2 ^ 52) (int ex - 1075)"
proof -
  assume *: "0 < ex" "ex < 2047" "fr < 2 ^ 52"
  have small: "ex * 2 ^ 52 + fr < 2 ^ 63"
  proof -
    have "ex * 2 ^ 52 + fr < Suc ex * 2 ^ 52" using *(3) by simp
    also have "\<dots> \<le> 2047 * 2 ^ 52" using *(2) by (intro mult_right_mono) simp_all
    finally show ?thesis by simp
  qed
  then have "unat (word_of_nat (ex * 2 ^ 52 + fr) :: u64) = ex * 2 ^ 52 + fr" by (rule unat_small)
  moreover have "(ex * 2 ^ 52 + fr) div 2 ^ 63 = 0" using small by simp
  moreover have "(ex * 2 ^ 52 + fr) div 2 ^ 52 = ex" "(ex * 2 ^ 52 + fr) mod 2 ^ 52 = fr" using *(3) by simp_all
  ultimately show ?thesis using *(1,2) by (simp add: f64_pack_def f64_decode_def Let_def del: power_numeral)
qed

text \<open>Natural numbers below \<open>2^53\<close>: how far each is shifted to fill the mantissa.\<close>

definition shift_of :: "nat \<Rightarrow> nat" where
  "shift_of n = 53 - bit_length n"

definition exact_nat :: "nat \<Rightarrow> bool" where
  "exact_nat n \<longleftrightarrow> 0 < n \<and> n < 2 ^ 53"

lemma bit_length_bounds: "0 < n \<Longrightarrow> 2 ^ (bit_length n - 1) \<le> n \<and> n < 2 ^ bit_length n \<and> 0 < bit_length n"
proof (induction n rule: bit_length.induct)
  case (1 n)
  show ?case
  proof (cases "n div 2 = 0")
    case True
    then have "n = 1" using "1.prems" by simp
    then show ?thesis by (simp add: bit_length.simps[of "Suc 0"] bit_length.simps[of 0])
  next
    case False
    then have ih: "2 ^ (bit_length (n div 2) - 1) \<le> n div 2" "n div 2 < 2 ^ bit_length (n div 2)" "0 < bit_length (n div 2)"
      using "1.IH" "1.prems" by simp_all
    obtain b where b: "bit_length (n div 2) = Suc b" using ih(3) by (cases "bit_length (n div 2)") simp_all
    show ?thesis using ih "1.prems" unfolding bit_length.simps[of n] b by simp linarith
  qed
qed

lemma shifted:
  assumes "exact_nat n"
  shows "2 ^ 52 \<le> n * 2 ^ shift_of n \<and> n * 2 ^ shift_of n < 2 ^ 53 \<and> shift_of n \<le> 52 \<and> bit_length n = 53 - shift_of n"
proof -
  note b = bit_length_bounds[of n]
  have n: "0 < n" "n < 2 ^ 53" using assms by (simp_all add: exact_nat_def)
  have "bit_length n - 1 < 53"
  proof (rule ccontr)
    assume "\<not> bit_length n - 1 < 53"
    then have "(2 :: nat) ^ 53 \<le> 2 ^ (bit_length n - 1)" by (intro power_increasing) simp_all
    then show False using b n by simp
  qed
  then obtain t where t: "53 = bit_length n + t" "shift_of n = t" by (auto simp: shift_of_def intro: that[of "53 - bit_length n"])
  obtain k where k: "bit_length n = Suc k" using b n by (cases "bit_length n") simp_all
  have low: "2 ^ k * 2 ^ t \<le> n * 2 ^ t" and high: "n * 2 ^ t < 2 ^ Suc k * 2 ^ t"
    using b n by (simp_all add: k)
  have "52 = k + t" "53 = Suc k + t" using t k by simp_all
  then have "(2 :: nat) ^ k * 2 ^ t = 2 ^ 52" "(2 :: nat) ^ Suc k * 2 ^ t = 2 ^ 53"
    by (simp_all only: power_add[symmetric])
  then show ?thesis using low high t k by (simp only: t(2)) simp
qed

lemma f64_round_nat:
  assumes "exact_nat n"
  shows "f64_round False n 0 = f64_pack False (1075 - shift_of n) (n * 2 ^ shift_of n - 2 ^ 52)"
proof -
  note s = shifted[OF assms]
  have pos: "n \<noteq> 0" using assms by (simp add: exact_nat_def)
  have e: "nat (1075 - int (shift_of n)) = 1075 - shift_of n" by (simp add: nat_diff_distrib')
  show ?thesis
    using pos s unfolding f64_round_def
    by (simp add: Let_def e del: power_numeral)
qed

lemma f64_decode_nat:
  assumes "exact_nat n"
  shows "f64_decode (f64_round False n 0) = Fin False (n * 2 ^ shift_of n) (- int (shift_of n))"
proof -
  have "c - 2 ^ 52 < 2 ^ 52" if "c < 2 ^ 53" for c :: nat using that by simp
  then have "n * 2 ^ shift_of n - 2 ^ 52 < 2 ^ 52" using shifted[OF assms] by blast
  then show ?thesis
    using shifted[OF assms] unfolding f64_round_nat[OF assms]
    by (subst f64_decode_pack) (simp_all del: power_numeral)
qed

lemma f64_ratio_nat:
  assumes "exact_nat n"
  shows "f64_ratio False n 1 = f64_round False n 0"
proof -
  note s = shifted[OF assms]
  have pos: "n \<noteq> 0" using assms by (simp add: exact_nat_def)
  obtain r where r: "57 = shift_of n + r" using s le_Suc_ex[of "shift_of n" 57] by auto
  have q: "2 * (n * 2 ^ 56) = n * 2 ^ shift_of n * 2 ^ r"
  proof -
    have "2 * (n * 2 ^ 56) = n * 2 ^ 57" by simp
    also have "\<dots> = n * (2 ^ shift_of n * 2 ^ r)" unfolding r by (simp only: power_add)
    finally show ?thesis by simp
  qed
  have "f64_round False (n * 2 ^ shift_of n * 2 ^ r) (- 57) = f64_pack False (nat (- 57 + int r + 1075)) (n * 2 ^ shift_of n - 2 ^ 52)"
    by (rule f64_round_exact) (use s r in \<open>simp_all del: power_numeral\<close>)
  moreover have "nat (- 57 + int r + 1075) = 1075 - shift_of n" using r by simp
  moreover have "bit_length 1 = 1" by (simp add: bit_length.simps[of "Suc 0"] bit_length.simps[of 0])
  moreover have "f64_ratio False n 1 = f64_round False (2 * (n * 2 ^ 56)) (- 57)"
    using pos \<open>bit_length 1 = 1\<close> by (simp add: f64_ratio_def Let_def del: power_numeral)
  ultimately show ?thesis unfolding q f64_round_nat[OF assms] by simp
qed

lemma exact_one: "exact_nat 1"
  by (simp add: exact_nat_def)

lemma shift_one: "shift_of 1 = 52"
  by (simp add: shift_of_def bit_length.simps[of "Suc 0"] bit_length.simps[of 0])

lemma f64_lit_nat:
  assumes "exact_nat n"
  shows "f64_lit n 0 = f64_round False n 0"
proof -
  let ?t = "shift_of n"
  note s = shifted[OF assms]
  have "bit_length (2 ^ 52) = 53" by (rule bit_length_range[of 52, simplified]) simp_all
  have d: "n * 2 ^ ?t * 2 ^ 108 = n * 2 ^ ?t * 2 ^ 56 * 2 ^ 52" by (simp flip: power_add add: mult.assoc)
  have q: "2 * (n * 2 ^ ?t * 2 ^ 108 div 2 ^ 52) = n * 2 ^ ?t * 2 ^ 57" "n * 2 ^ ?t * 2 ^ 108 mod 2 ^ 52 = 0"
    unfolding d by simp_all
  have "f64_lit n 0 = f64_round False (n * 2 ^ ?t * 2 ^ 57) (- 57 - int ?t)"
    using f64_decode_nat[OF assms] f64_decode_nat[OF exact_one] q \<open>bit_length (2 ^ 52) = 53\<close>
    unfolding f64_lit_def f64_div_def shift_one
    by (simp add: Let_def del: power_numeral)
  also have "\<dots> = f64_pack False (nat (- 57 - int ?t + int 57 + 1075)) (n * 2 ^ ?t - 2 ^ 52)"
    by (rule f64_round_exact) (use s in \<open>simp_all del: power_numeral\<close>)
  also have "nat (- 57 - int ?t + int 57 + 1075) = 1075 - ?t" using s by simp
  finally show ?thesis unfolding f64_round_nat[OF assms] .
qed

lemma f64_less_nat:
  assumes "exact_nat m" "exact_nat n"
  shows "f64_less (f64_round False m 0) (f64_round False n 0) \<longleftrightarrow> m < n"
proof -
  obtain G where G: "min (- int (shift_of m)) (- int (shift_of n)) = - int G" "shift_of m \<le> G" "shift_of n \<le> G"
    by (rule that[of "max (shift_of m) (shift_of n)"]) simp_all
  have common: "k * 2 ^ shift_of k * 2 ^ nat (int G - int (shift_of k)) = k * 2 ^ G" if "shift_of k \<le> G" for k
  proof -
    have "nat (int G - int (shift_of k)) = G - shift_of k" by simp
    then show ?thesis using that by (simp add: mult.assoc flip: power_add)
  qed
  have "f64_less (f64_round False m 0) (f64_round False n 0) \<longleftrightarrow>
      int (m * 2 ^ shift_of m * 2 ^ nat (int G - int (shift_of m))) < int (n * 2 ^ shift_of n * 2 ^ nat (int G - int (shift_of n)))"
    unfolding f64_less_def f64_decode_nat[OF assms(1)] f64_decode_nat[OF assms(2)]
    by (simp add: Let_def G(1) signed_mantissa_def del: of_nat_mult of_nat_power of_nat_less_iff)
  then show ?thesis unfolding common[OF G(2)] common[OF G(3)] by simp
qed

end
