(* ===== verification/Engine_Main_Properties.thy ===== *)
theory Engine_Main_Properties
  imports Engine_Main Gateway_Properties Float64_Exact
begin

text \<open>
  The engine of \<open>bin/main.rs\<close> and the gateway together: every reading that is too fast is answered, in
  order; how far the engine's property model is behind; and when the two tasks cannot go on.
\<close>

section \<open>Runs from the start\<close>

definition decoded_run :: "('j, 'net) gateway_env \<Rightarrow> upstream_config \<Rightarrow> loop_event list \<Rightarrow> gateway_event list" where
  "decoded_run E cfg es = concat (map (decoded_by E cfg) es)"

lemma decoded_run_simps [simp]:
  "decoded_run E cfg [] = []" "decoded_run E cfg (e # es) = decoded_by E cfg e @ decoded_run E cfg es"
  "decoded_run E cfg (es @ fs) = decoded_run E cfg es @ decoded_run E cfg fs"
  by (simp_all add: decoded_run_def)

definition loop_inv ::
  "('e \<Rightarrow> gateway_event list) \<Rightarrow> ('e \<Rightarrow> bool) \<Rightarrow> ('e \<Rightarrow> nat) \<Rightarrow> ('e \<Rightarrow> nat) \<Rightarrow> ('c \<Rightarrow> gw_command list) \<Rightarrow> ('c \<Rightarrow> bool) \<Rightarrow>
   ('c \<Rightarrow> nat) \<Rightarrow> nat \<Rightarrow> nat \<Rightarrow> gateway_event list \<Rightarrow> ('e, 'c, 'net) engine_loop \<Rightarrow> bool" where
  "loop_inv econt eclosed ecap esend ccont cclosed ccap ne nc evts s \<longleftrightarrow>
     ends_inv econt eclosed ecap esend ccont cclosed ccap ne nc s \<and> (\<exists>seen. flow_inv econt ccont evts seen s)"

lemma loop_inv_step:
  assumes "bounded_laws me econt eclosed ecap esend" "bounded_laws mc ccont cclosed ccap csend"
    and "loop_step me mc E cfg e s = Some s'" "loop_inv econt eclosed ecap esend ccont cclosed ccap ne nc evts s"
  shows "loop_inv econt eclosed ecap esend ccont cclosed ccap ne nc (evts @ decoded_by E cfg e) s'"
proof -
  have ends: "ends_inv econt eclosed ecap esend ccont cclosed ccap ne nc s" using assms(4) by (simp add: loop_inv_def)
  obtain seen where "flow_inv econt ccont evts seen s" using assms(4) by (auto simp: loop_inv_def)
  from flow_step[OF assms(1-3) ends this] ends_step[OF assms(1-3) ends] show ?thesis by (simp add: loop_inv_def)
qed

lemma loop_inv_run:
  assumes "bounded_laws me econt eclosed ecap esend" "bounded_laws mc ccont cclosed ccap csend"
  shows "loop_run me mc E cfg es s = Some s' \<Longrightarrow> loop_inv econt eclosed ecap esend ccont cclosed ccap ne nc evts s \<Longrightarrow>
    loop_inv econt eclosed ecap esend ccont cclosed ccap ne nc (evts @ decoded_run E cfg es) s'"
proof (induction es arbitrary: s evts)
  case (Cons e es)
  obtain s1 where s1: "loop_step me mc E cfg e s = Some s1" "loop_run me mc E cfg es s1 = Some s'"
    using Cons.prems(1) by (auto split: option.splits)
  from Cons.IH[OF s1(2) loop_inv_step[OF assms s1(1) Cons.prems(2)]] show ?case by simp
qed simp

lemma loop_inv_new:
  assumes "bounded_laws me econt eclosed ecap esend" "bounded_laws mc ccont cclosed ccap csend"
  shows "loop_inv econt eclosed ecap esend ccont cclosed ccap (gc_event_channel_capacity cfg) (gc_command_channel_capacity cfg) []
    (engine_loop_new me mc cfg net)"
  using bounded_new[OF assms(1)] bounded_new[OF assms(2)]
  by (auto simp: loop_inv_def ends_inv_def flow_inv_def engine_loop_new_def gateway_new_def intro: exI[of _ "[]"])

text \<open>
  C7. Whatever the gateway and the engine do in whatever order, the engine takes the events decoded from
  the machine's messages one by one in order, and answers exactly those of a speed above one: the
  commands the client took, the one waiting in \<open>publish\<close>, those in the channel and the one about to be
  sent are one \<open>slow_down\<close> for each, until the gateway ends. The engine's property model is that of the events it took, the
  gateway's that of the events it has begun to forward.
\<close>

theorem fast_readings_are_answered:
  assumes "bounded_laws me econt eclosed ecap esend" and "bounded_laws mc ccont cclosed ccap csend"
    and "loop_run me mc E (gc_upstream cfg) es (engine_loop_new me mc cfg net) = Some s"
  shows "\<exists>seen. seen @ econt (event_chan s) @ el_forwarding s = decoded_run E (gc_upstream cfg) es \<and>
     el_props s = fold track seen property_model_default \<and>
     gw_properties (el_gateway s) = fold track (seen @ econt (event_chan s) @ take 1 (el_forwarding s)) property_model_default \<and>
     length (el_published s) \<le> length (filter too_fast seen) \<and> set (el_published s) \<subseteq> {slow_down} \<and>
     (running s \<longrightarrow>
        el_published s @ (case el_publishing s of Some (c, p) \<Rightarrow> [c] | None \<Rightarrow> []) @ ccont (el_commands s) @
          (case el_sending s of Some c \<Rightarrow> [c] | None \<Rightarrow> []) =
        replicate (length (filter too_fast seen)) slow_down)"
proof -
  obtain seen where flow: "flow_inv econt ccont (decoded_run E (gc_upstream cfg) es) seen s"
    using loop_inv_run[OF assms loop_inv_new[OF assms(1,2)]] by (auto simp: loop_inv_def)
  obtain rest where rest: "el_published s @ rest = answers seen" using flow by (auto simp: flow_inv_def)
  have "length (el_published s) \<le> length (filter too_fast seen)" "set (el_published s) \<subseteq> {slow_down}"
    using arg_cong[OF rest, of length] arg_cong[OF rest, of set] by (auto simp: answers_def split: if_splits)
  then show ?thesis using flow by (intro exI[of _ seen]) (simp add: flow_inv_def answers_def)
qed

text \<open>
  C20. The engine's property model lags behind the gateway's by what is between them. Of the events decoded
  so far the engine took the first ones, the channel holds the next, and the gateway is still to send
  the rest. For each asset the engine's model has the last numeric speed and position among those it
  took; the gateway's has the last one in the channel or in the event it is sending, and agrees with the
  engine's where these say nothing of the asset. So the two agree when nothing is on the way.
\<close>

theorem engine_model_lags_by_the_channel:
  assumes "bounded_laws me econt eclosed ecap esend" and "bounded_laws mc ccont cclosed ccap csend"
    and "loop_run me mc E (gc_upstream cfg) es (engine_loop_new me mc cfg net) = Some s"
  shows "\<exists>seen. seen @ econt (event_chan s) @ el_forwarding s = decoded_run E (gc_upstream cfg) es \<and>
     (\<forall>asset. let between = econt (event_chan s) @ take 1 (el_forwarding s); gateway = gw_properties (el_gateway s)
        in pm_speed (el_props s) asset = last_reading [''speed'', ''rpm''] asset seen \<and>
           pm_position (el_props s) asset = last_reading [''position'', ''pos''] asset seen \<and>
           pm_speed gateway asset =
             (case last_reading [''speed'', ''rpm''] asset between of Some r \<Rightarrow> Some r | None \<Rightarrow> pm_speed (el_props s) asset) \<and>
           pm_position gateway asset =
             (case last_reading [''position'', ''pos''] asset between of Some r \<Rightarrow> Some r | None \<Rightarrow> pm_position (el_props s) asset)) \<and>
     (econt (event_chan s) = [] \<and> el_forwarding s = [] \<longrightarrow> gw_properties (el_gateway s) = el_props s)"
proof -
  obtain seen where "flow_inv econt ccont (decoded_run E (gc_upstream cfg) es) seen s"
    using loop_inv_run[OF assms loop_inv_new[OF assms(1,2)]] by (auto simp: loop_inv_def)
  then have flow: "seen @ econt (event_chan s) @ el_forwarding s = decoded_run E (gc_upstream cfg) es"
      "el_props s = fold track seen property_model_default"
      "gw_properties (el_gateway s) = fold track (seen @ econt (event_chan s) @ take 1 (el_forwarding s)) property_model_default"
    by (simp_all add: flow_inv_def)
  show ?thesis
    unfolding Let_def flow(2,3)
    using flow(1) tracked_readings[of seen] tracked_readings[of "seen @ econt (event_chan s) @ take 1 (el_forwarding s)"]
    by (intro exI[of _ seen]) (simp add: last_reading_append[of _ _ seen] cong: option.case_cong)
qed

section \<open>When the tasks cannot go on\<close>

lemma send_refused:
  assumes "bounded_laws mp contents closed capacity senders" "\<not> closed ch" "capacity ch \<le> length (contents ch)"
  shows "\<exists>ch' m'. mp_try_send mp m ch = (SendFull m', ch')"
proof -
  obtain outcome ch' where "mp_try_send mp m ch = (outcome, ch')" by fastforce
  with bounded_send_law[OF assms(1) this] assms(2,3) show ?thesis by (cases outcome) auto
qed

lemma send_accepted:
  assumes "bounded_laws mp contents closed capacity senders" "\<not> closed ch" "length (contents ch) < capacity ch"
  shows "\<exists>ch'. mp_try_send mp m ch = (Sent, ch')"
proof -
  obtain outcome ch' where "mp_try_send mp m ch = (outcome, ch')" by fastforce
  with bounded_send_law[OF assms(1) this] assms(2,3) show ?thesis by auto
qed

lemma recv_something:
  assumes "bounded_laws mp contents closed capacity senders" "contents ch \<noteq> []"
  shows "\<exists>m ch'. mp_recv mp ch = (Received m, ch')"
proof -
  obtain outcome ch' where "mp_recv mp ch = (outcome, ch')" by fastforce
  with bounded_recv_law[OF assms(1) this] assms(2) show ?thesis by (cases outcome) auto
qed

text \<open>
  The gateway waits for room in the channel of events, and the engine, about to send a command, in that of
  the commands.
\<close>

definition both_wait ::
  "('e \<Rightarrow> gateway_event list) \<Rightarrow> ('c \<Rightarrow> gw_command list) \<Rightarrow> gateway_config \<Rightarrow> ('e, 'c, 'net) engine_loop \<Rightarrow> bool" where
  "both_wait econt ccont cfg s \<longleftrightarrow>
     el_forwarding s \<noteq> [] \<and> length (econt (event_chan s)) = gc_event_channel_capacity cfg \<and>
     el_sending s \<noteq> None \<and> length (ccont (el_commands s)) = gc_command_channel_capacity cfg"

lemma both_wait_stuck:
  assumes laws: "bounded_laws me econt eclosed ecap esend" "bounded_laws mc ccont cclosed ccap csend"
    and inv: "ends_inv econt eclosed ecap esend ccont cclosed ccap (gc_event_channel_capacity cfg) (gc_command_channel_capacity cfg) s"
    and "running s" "both_wait econt ccont cfg s"
  shows "loop_step me mc E up e s = None"
proof -
  obtain f fs where fwd: "el_forwarding s = f # fs" using assms(5) by (auto simp: both_wait_def neq_Nil_conv)
  obtain c where c: "el_sending s = Some c" using assms(5) by (auto simp: both_wait_def)
  have "\<not> eclosed (event_chan s)" "ecap (event_chan s) \<le> length (econt (event_chan s))"
    "\<not> cclosed (el_commands s)" "ccap (el_commands s) \<le> length (ccont (el_commands s))"
    using assms(4,5) inv by (auto simp: both_wait_def ends_inv_def)
  then have "\<exists>ch m. mp_try_send me f (event_chan s) = (SendFull m, ch)" "\<exists>ch m. mp_try_send mc c (el_commands s) = (SendFull m, ch)"
    using send_refused[OF laws(1)] send_refused[OF laws(2)] by blast+
  moreover have "el_publishing s = None" "\<not> selecting s" using inv fwd by (auto simp: ends_inv_def selecting_def)
  ultimately show ?thesis using fwd c by (cases e) (auto simp: loop_step_def)
qed

lemma both_wait_events:
  assumes inv: "loop_inv econt eclosed ecap esend ccont cclosed ccap (gc_event_channel_capacity cfg) (gc_command_channel_capacity cfg) evts s"
    and "running s" and wait: "both_wait econt ccont cfg s"
  shows "gc_event_channel_capacity cfg + gc_command_channel_capacity cfg + 2 \<le> length evts"
proof -
  have ends: "ends_inv econt eclosed ecap esend ccont cclosed ccap (gc_event_channel_capacity cfg) (gc_command_channel_capacity cfg) s"
    using inv by (simp add: loop_inv_def)
  obtain seen where flow: "flow_inv econt ccont evts seen s" using inv by (auto simp: loop_inv_def)
  obtain f fs where "el_forwarding s = f # fs" using wait by (auto simp: both_wait_def neq_Nil_conv)
  then have seen: "seen @ econt (event_chan s) @ f # fs = evts"
      "el_published s @ ccont (el_commands s) @ (case el_sending s of Some c \<Rightarrow> [c] | None \<Rightarrow> []) = answers seen"
    using flow ends assms(2) by (auto simp: flow_inv_def ends_inv_def)
  have "length (answers seen) \<le> length seen" by (simp add: answers_def)
  then show ?thesis
    using arg_cong[OF seen(1), of length] arg_cong[OF seen(2), of length] wait by (auto simp: both_wait_def)
qed

lemma some_step:
  assumes laws: "bounded_laws me econt eclosed ecap esend" "bounded_laws mc ccont cclosed ccap csend"
    and inv: "ends_inv econt eclosed ecap esend ccont cclosed ccap (gc_event_channel_capacity cfg) (gc_command_channel_capacity cfg) s"
    and "running s" "0 < gc_event_channel_capacity cfg" "\<not> both_wait econt ccont cfg s"
  shows "el_forwarding s = [] \<or> (\<exists>e \<in> {ForwardEvent, TakeEvent, SendCommand}. loop_step me mc E up e s \<noteq> None)"
proof -
  have ends: "\<not> eclosed (event_chan s)" "ecap (event_chan s) = gc_event_channel_capacity cfg" "\<not> el_left s"
      "\<not> cclosed (el_commands s)" "ccap (el_commands s) = gc_command_channel_capacity cfg"
      "length (econt (event_chan s)) \<le> gc_event_channel_capacity cfg" "length (ccont (el_commands s)) \<le> gc_command_channel_capacity cfg"
    using assms(4) inv by (auto simp: ends_inv_def)
  have forward: "el_forwarding s = [] \<or> loop_step me mc E up ForwardEvent s \<noteq> None"
    if room: "length (econt (event_chan s)) < gc_event_channel_capacity cfg"
  proof (cases "el_forwarding s")
    case (Cons f fs)
    obtain ch where "mp_try_send me f (event_chan s) = (Sent, ch)"
      using send_accepted[OF laws(1) ends(1), of f] room ends(2) by auto
    then show ?thesis using Cons assms(4) by (simp add: loop_step_def)
  qed simp
  show ?thesis
  proof (cases "el_sending s")
    case None
    show ?thesis
    proof (cases "econt (event_chan s) = []")
      case True
      then show ?thesis using forward assms(5) by auto
    next
      case False
      from recv_something[OF laws(1) this] have "loop_step me mc E up TakeEvent s \<noteq> None"
        using None ends(3) by (auto simp: loop_step_def split: prod.splits)
      then show ?thesis by blast
    qed
  next
    case (Some c)
    show ?thesis
    proof (cases "length (ccont (el_commands s)) = gc_command_channel_capacity cfg")
      case True
      then show ?thesis using forward ends(6) assms(6) Some by (auto simp: both_wait_def)
    next
      case False
      then have "\<exists>ch. mp_try_send mc c (el_commands s) = (Sent, ch)"
        using send_accepted[OF laws(2) ends(4)] ends(5,7) by simp
      then show ?thesis using Some by (auto simp: loop_step_def)
    qed
  qed
qed

text \<open>
  The gateway waits inside \<open>publish\<close> for room among the client's requests, and the engine for an event or for
  room in the channel of commands.
\<close>

definition publish_waits :: "('j, 'net) gateway_env \<Rightarrow> ('e, 'c, 'net) engine_loop \<Rightarrow> bool" where
  "publish_waits E s \<longleftrightarrow>
     (\<exists>c p. el_publishing s = Some (c, p) \<and> downstream_publish (ge_client_publish E) p (gw_net (el_gateway s)) = None)"

definition engine_waits ::
  "('e \<Rightarrow> gateway_event list) \<Rightarrow> ('c \<Rightarrow> gw_command list) \<Rightarrow> gateway_config \<Rightarrow> ('e, 'c, 'net) engine_loop \<Rightarrow> bool" where
  "engine_waits econt ccont cfg s \<longleftrightarrow>
     (case el_sending s of
        None \<Rightarrow> econt (event_chan s) = []
      | Some c \<Rightarrow> length (ccont (el_commands s)) = gc_command_channel_capacity cfg)"

lemma engine_waits_stuck:
  assumes laws: "bounded_laws me econt eclosed ecap esend" "bounded_laws mc ccont cclosed ccap csend"
    and inv: "ends_inv econt eclosed ecap esend ccont cclosed ccap (gc_event_channel_capacity cfg) (gc_command_channel_capacity cfg) s"
    and "running s" "engine_waits econt ccont cfg s"
  shows "engine_task me mc e s = None"
proof -
  have ends: "esend (event_chan s) = 1" "\<not> cclosed (el_commands s)" "ccap (el_commands s) = gc_command_channel_capacity cfg"
    using assms(4) inv by (auto simp: ends_inv_def)
  have "engine_task me mc TakeEvent s = None"
  proof (rule ccontr)
    assume "engine_task me mc TakeEvent s \<noteq> None"
    then obtain s' where "engine_task me mc TakeEvent s = Some s'" by blast
    from laws(1) this show False
      by (cases rule: take_event_cases) (use ends assms(5) in \<open>auto simp: engine_waits_def\<close>)
  qed
  moreover have "engine_task me mc SendCommand s = None"
  proof (rule ccontr)
    assume "engine_task me mc SendCommand s \<noteq> None"
    then obtain s' where "engine_task me mc SendCommand s = Some s'" by blast
    from laws(2) this show False
      by (cases rule: send_command_cases) (use ends assms(5) in \<open>auto simp: engine_waits_def\<close>)
  qed
  ultimately show ?thesis by (cases e) simp_all
qed

lemma engine_stuck_waits:
  assumes laws: "bounded_laws me econt eclosed ecap esend" "bounded_laws mc ccont cclosed ccap csend"
    and inv: "ends_inv econt eclosed ecap esend ccont cclosed ccap (gc_event_channel_capacity cfg) (gc_command_channel_capacity cfg) s"
    and "running s" "engine_task me mc TakeEvent s = None" "engine_task me mc SendCommand s = None"
  shows "engine_waits econt ccont cfg s"
proof (cases "el_sending s")
  case None
  have "econt (event_chan s) = []"
  proof (rule ccontr)
    assume "econt (event_chan s) \<noteq> []"
    from recv_something[OF laws(1) this] show False
      using None assms(4,5) inv by (auto simp: ends_inv_def split: prod.splits)
  qed
  then show ?thesis using None by (simp add: engine_waits_def)
next
  case (Some c)
  have ends: "\<not> cclosed (el_commands s)" "ccap (el_commands s) = gc_command_channel_capacity cfg"
      "length (ccont (el_commands s)) \<le> gc_command_channel_capacity cfg"
    using assms(4) inv by (auto simp: ends_inv_def)
  have "\<not> length (ccont (el_commands s)) < gc_command_channel_capacity cfg"
  proof
    assume "length (ccont (el_commands s)) < gc_command_channel_capacity cfg"
    then obtain ch where "mp_try_send mc c (el_commands s) = (Sent, ch)" using send_accepted[OF laws(2) ends(1), of c] ends(2) by auto
    then show False using Some assms(6) by simp
  qed
  then show ?thesis using Some ends(3) by (simp add: engine_waits_def)
qed

lemma publish_waits_stuck:
  assumes laws: "bounded_laws me econt eclosed ecap esend" "bounded_laws mc ccont cclosed ccap csend"
    and inv: "ends_inv econt eclosed ecap esend ccont cclosed ccap (gc_event_channel_capacity cfg) (gc_command_channel_capacity cfg) s"
    and "running s" "publish_waits E s" "engine_waits econt ccont cfg s"
  shows "loop_step me mc E up e s = None"
proof -
  have "gateway_task me mc E up e s = None"
    using assms(5) inv by (cases e) (auto simp: publish_waits_def ends_inv_def selecting_def)
  then show ?thesis using engine_waits_stuck[OF laws inv assms(4,6), of e] by (simp add: loop_step_def)
qed

text \<open>A publish that waits does so for ever: only the engine takes steps then, and they do not reach the client.\<close>

lemma publish_waits_step:
  assumes "loop_step me mc E up e s = Some s'" "running s" "publish_waits E s" "el_forwarding s = []"
  shows "running s' \<and> publish_waits E s' \<and> el_forwarding s' = [] \<and> el_published s' = el_published s"
proof -
  have "gateway_task me mc E up e s = None"
    using assms(3,4) by (cases e) (auto simp: publish_waits_def selecting_def)
  then have "engine_task me mc e s = Some s'" using assms(1) by (auto simp: loop_step_def split: if_splits)
  then show ?thesis
    using assms(2-4)
    by (cases e) (auto simp: publish_waits_def split: if_splits prod.splits recv_outcome.splits option.splits try_send_outcome.splits)
qed

lemma publish_waits_run:
  "loop_run me mc E up fs s = Some s' \<Longrightarrow> running s \<Longrightarrow> publish_waits E s \<Longrightarrow> el_forwarding s = [] \<Longrightarrow>
   running s' \<and> publish_waits E s' \<and> el_published s' = el_published s"
proof (induction fs arbitrary: s)
  case (Cons e fs)
  obtain s1 where s1: "loop_step me mc E up e s = Some s1" "loop_run me mc E up fs s1 = Some s'"
    using Cons.prems(1) by (auto split: option.splits)
  show ?case using publish_waits_step[OF s1(1) Cons.prems(2-4)] Cons.IH[OF s1(2)] by simp
qed simp

lemma publish_law:
  assumes "client_laws client_publish poll queued cap"
  shows "downstream_publish client_publish p net = None \<Longrightarrow> cap \<le> queued net"
    and "downstream_publish client_publish p net = Some (r, net') \<Longrightarrow> queued net' \<le> queued net + (if is_ok r then 1 else 0)"
proof -
  have law: "case client_publish (mp_topic p) (map_qos (mp_qos p)) (mp_retain p) (mp_payload p) net of
        None \<Rightarrow> cap \<le> queued net
      | Some (True, net') \<Rightarrow> queued net < cap \<and> queued net' = Suc (queued net)
      | Some (False, net') \<Rightarrow> queued net' = queued net"
    using assms unfolding client_laws_def by blast
  show "downstream_publish client_publish p net = None \<Longrightarrow> cap \<le> queued net"
    "downstream_publish client_publish p net = Some (r, net') \<Longrightarrow> queued net' \<le> queued net + (if is_ok r then 1 else 0)"
    using law by (auto simp: downstream_publish_def split: option.splits bool.splits)
qed

text \<open>The client has no more requests to send than commands were published.\<close>

lemma queued_step:
  assumes "client_laws (ge_client_publish E) (ge_poll E) queued cap" "loop_step me mc E up e s = Some s'"
  shows "queued (gw_net (el_gateway s')) + length (el_published s) \<le> queued (gw_net (el_gateway s)) + length (el_published s')"
proof (cases "e = TakeEvent \<or> e = SendCommand")
  case True
  then have "gw_net (el_gateway s') = gw_net (el_gateway s) \<and> el_published s' = el_published s"
    using assms(2)
    by (auto simp: loop_step_def split: if_splits prod.splits recv_outcome.splits option.splits try_send_outcome.splits)
  then show ?thesis by simp
next
  case False
  then have step: "gateway_task me mc E up e s = Some s'" using assms(2) by (auto simp: loop_step_def split: if_splits)
  have poll: "queued (ge_poll E n net) \<le> queued net" for n net using assms(1) by (simp add: client_laws_def)
  show ?thesis
  proof (cases e)
    case PublishCommand
    from step[unfolded PublishCommand] show ?thesis
      by (cases rule: publish_cases) (use publish_law(2)[OF assms(1)] in \<open>fastforce+\<close>)
  qed (use step poll in \<open>auto split: if_splits prod.splits recv_outcome.splits sum.splits list.splits try_send_outcome.splits\<close>)
qed

lemma queued_run:
  assumes "client_laws (ge_client_publish E) (ge_poll E) queued cap"
  shows "loop_run me mc E up es s = Some s' \<Longrightarrow>
    queued (gw_net (el_gateway s')) + length (el_published s) \<le> queued (gw_net (el_gateway s)) + length (el_published s')"
proof (induction es arbitrary: s)
  case (Cons e es)
  obtain s1 where s1: "loop_step me mc E up e s = Some s1" "loop_run me mc E up es s1 = Some s'"
    using Cons.prems(1) by (auto split: option.splits)
  show ?case using queued_step[OF assms s1(1)] Cons.IH[OF s1(2)] by simp
qed simp

text \<open>
  C17. While the gateway runs there are exactly two ways in which neither task can take a step, so that no
  command gets through and no shutdown is noticed. In one, both channels are full, the gateway is in the
  middle of a message and the engine about to send a command; at least \<open>n + m + 2\<close> events have been decoded
  then, for channels that take \<open>n\<close> events and \<open>m\<close> commands. In the other, the gateway waits inside \<open>publish\<close>
  for room among the client's requests, which only its own poll would make: that wait alone never ends,
  whatever the engine does, and starts once the client has been given more commands than it has room for.
\<close>

theorem stuck_exactly_when_waiting:
  assumes "bounded_laws me econt eclosed ecap esend" and "bounded_laws mc ccont cclosed ccap csend"
    and "client_laws (ge_client_publish E) (ge_poll E) queued request_capacity"
    and "0 < gc_event_channel_capacity cfg"
    and "loop_run me mc E (gc_upstream cfg) es (engine_loop_new me mc cfg net) = Some s" and "running s"
  shows "((\<forall>e. loop_step me mc E (gc_upstream cfg) e s = None) \<longleftrightarrow>
        both_wait econt ccont cfg s \<or> publish_waits E s \<and> engine_waits econt ccont cfg s) \<and>
     (both_wait econt ccont cfg s \<longrightarrow>
        gc_event_channel_capacity cfg + gc_command_channel_capacity cfg + 2 \<le> length (decoded_run E (gc_upstream cfg) es)) \<and>
     (publish_waits E s \<longrightarrow>
        request_capacity \<le> queued net + length (el_published s) \<and>
        (\<forall>fs s'. loop_run me mc E (gc_upstream cfg) fs s = Some s' \<longrightarrow>
           running s' \<and> publish_waits E s' \<and> el_published s' = el_published s))"
proof -
  let ?up = "gc_upstream cfg"
  have inv: "loop_inv econt eclosed ecap esend ccont cclosed ccap (gc_event_channel_capacity cfg) (gc_command_channel_capacity cfg)
      (decoded_run E ?up es) s"
    using loop_inv_run[OF assms(1,2,5) loop_inv_new[OF assms(1,2)]] by simp
  then have ends: "ends_inv econt eclosed ecap esend ccont cclosed ccap (gc_event_channel_capacity cfg) (gc_command_channel_capacity cfg) s"
    by (simp add: loop_inv_def)
  have waits: "publish_waits E s \<and> engine_waits econt ccont cfg s"
    if stuck: "\<forall>e. loop_step me mc E ?up e s = None" and "\<not> both_wait econt ccont cfg s"
  proof -
    have steps: "loop_step me mc E ?up ShutDown s = None" "loop_step me mc E ?up PublishCommand s = None"
        "loop_step me mc E ?up TakeEvent s = None" "loop_step me mc E ?up SendCommand s = None"
      using stuck by blast+
    have "el_forwarding s = []" using some_step[OF assms(1,2) ends assms(6,4) that(2), of E ?up] stuck by auto
    then obtain c p where publishing: "el_publishing s = Some (c, p)"
      using steps(1) assms(6) by (auto simp: loop_step_def selecting_def split: if_splits)
    then have "downstream_publish (ge_client_publish E) p (gw_net (el_gateway s)) = None"
      using steps(2) assms(6) by (auto simp: loop_step_def split: option.splits prod.splits sum.splits)
    moreover have "engine_waits econt ccont cfg s"
      using engine_stuck_waits[OF assms(1,2) ends assms(6)] steps(3,4) by (simp add: loop_step_def)
    ultimately show ?thesis using publishing by (simp add: publish_waits_def)
  qed
  have events: "gc_event_channel_capacity cfg + gc_command_channel_capacity cfg + 2 \<le> length (decoded_run E ?up es)"
    if "both_wait econt ccont cfg s" by (rule both_wait_events[OF inv assms(6) that])
  have requests: "request_capacity \<le> queued net + length (el_published s)" if wait: "publish_waits E s"
  proof -
    obtain p where "downstream_publish (ge_client_publish E) p (gw_net (el_gateway s)) = None"
      using wait by (auto simp: publish_waits_def)
    from publish_law(1)[OF assms(3) this] queued_run[OF assms(3,5)] show ?thesis
      by (simp add: engine_loop_new_def gateway_new_def)
  qed
  have "el_forwarding s = []" if "publish_waits E s" using that ends by (auto simp: publish_waits_def ends_inv_def)
  then have for_ever: "running s' \<and> publish_waits E s' \<and> el_published s' = el_published s"
    if "publish_waits E s" "loop_run me mc E ?up fs s = Some s'" for fs s'
    using publish_waits_run[OF that(2) assms(6) that(1)] that(1) by simp
  show ?thesis
    using waits events requests for_ever both_wait_stuck[OF assms(1,2) ends assms(6)] publish_waits_stuck[OF assms(1,2) ends assms(6)]
    by blast
qed

text \<open>
  The run to such a state: \<open>todo\<close> are the messages that have not come in yet.
\<close>

definition todo_events :: "('j, 'net) gateway_env \<Rightarrow> upstream_config \<Rightarrow> (mqtt_message \<times> timestamp) list \<Rightarrow> gateway_event list" where
  "todo_events E cfg ms = concat (map (\<lambda>(m, t). decode_events (ge_decoders E) cfg t m) ms)"

definition takes :: "loop_event list \<Rightarrow> (mqtt_message \<times> timestamp) list" where
  "takes es = concat (map (\<lambda>e. case e of TakeMessage n m t \<Rightarrow> [(m, t)] | _ \<Rightarrow> []) es)"

definition todo_measure :: "('e \<Rightarrow> gateway_event list) \<Rightarrow> (mqtt_message \<times> timestamp) list \<Rightarrow> gateway_event list \<Rightarrow> ('e, 'c, 'net) engine_loop \<Rightarrow> nat" where
  "todo_measure econt ms rest s =
     length ms + 3 * (length (el_forwarding s) + length rest) + 2 * length (econt (event_chan s)) +
     (if el_sending s = None then 0 else 1)"

lemma todo_step:
  assumes laws: "bounded_laws me econt eclosed ecap esend" "bounded_laws mc ccont cclosed ccap csend"
    and ends: "ends_inv econt eclosed ecap esend ccont cclosed ccap ne nc s"
    and "running s" "el_published s = []" "e \<in> {ForwardEvent, TakeEvent, SendCommand}" "loop_step me mc E cfg e s = Some s'"
  shows "running s' \<and> el_published s' = [] \<and> el_publishing s' = el_publishing s \<and> todo_measure econt ms rest s' < todo_measure econt ms rest s \<and> decoded_by E cfg e = []"
proof -
  have ends_open: "\<not> eclosed (event_chan s)" "esend (event_chan s) = 1" using ends assms(4) by (auto simp: ends_inv_def)
  consider "e = ForwardEvent" "gateway_task me mc E cfg ForwardEvent s = Some s'" | "e = TakeEvent" "engine_task me mc TakeEvent s = Some s'"
    | "e = SendCommand" "engine_task me mc SendCommand s = Some s'"
    using assms(4,6,7) by (auto simp: loop_step_def)
  then show ?thesis
  proof cases
    case 1
    from laws(1) 1(2) ends_open(1) show ?thesis
      by (cases rule: forward_cases) (use assms(4,5) 1(1) in \<open>auto simp: todo_measure_def decoded_by_def\<close>)
  next
    case 2
    from laws(1) 2(2) show ?thesis
      by (cases rule: take_event_cases) (use assms(4,5) ends_open 2(1) in \<open>auto simp: todo_measure_def decoded_by_def\<close>)
  next
    case 3
    from laws(2) 3(2) show ?thesis
      by (cases rule: send_command_cases) (use assms(4,5) 3(1) in \<open>auto simp: todo_measure_def decoded_by_def\<close>)
  qed
qed

lemma takes_simps [simp]:
  "takes [] = []" "takes (TakeMessage n m t # es) = (m, t) # takes es"
  "e \<in> {ForwardEvent, TakeEvent, SendCommand} \<Longrightarrow> takes (e # es) = takes es"
  by (auto simp: takes_def)

lemma backlog_not_done:
  assumes inv: "loop_inv econt eclosed ecap esend ccont cclosed ccap ne nc evts s" and "running s" "selecting s"
    and "el_published s = []" "\<forall>e\<in>set evts. too_fast e"
  shows "length evts < ne + nc + 2"
proof -
  obtain seen where ends: "ends_inv econt eclosed ecap esend ccont cclosed ccap ne nc s" and "flow_inv econt ccont evts seen s"
    using inv by (auto simp: loop_inv_def)
  then have flow: "seen @ econt (event_chan s) = evts"
      "ccont (el_commands s) @ (case el_sending s of Some c \<Rightarrow> [c] | None \<Rightarrow> []) = answers seen"
    using assms(2-4) by (auto simp: flow_inv_def selecting_def)
  have "filter too_fast seen = seen" using flow(1) assms(5) by (auto simp: filter_id_conv)
  then have "length (answers seen) = length seen" by (simp add: answers_def)
  then show ?thesis
    using arg_cong[OF flow(1), of length] arg_cong[OF flow(2), of length] ends assms(2)
    by (auto simp: ends_inv_def split: option.splits)
qed

lemma backlog_blocks:
  assumes laws: "bounded_laws me econt eclosed ecap esend" "bounded_laws mc ccont cclosed ccap csend"
    and room: "0 < gc_event_channel_capacity cfg"
  shows "loop_inv econt eclosed ecap esend ccont cclosed ccap (gc_event_channel_capacity cfg) (gc_command_channel_capacity cfg) evts s \<Longrightarrow>
    running s \<Longrightarrow> el_published s = [] \<and> el_publishing s = None \<Longrightarrow> \<forall>e\<in>set (evts @ todo_events E (gc_upstream cfg) ms). too_fast e \<Longrightarrow>
    gc_event_channel_capacity cfg + gc_command_channel_capacity cfg + 2 \<le> length (evts @ todo_events E (gc_upstream cfg) ms) \<Longrightarrow>
    \<exists>fs s' later. loop_run me mc E (gc_upstream cfg) fs s = Some s' \<and> running s' \<and> both_wait econt ccont cfg s' \<and> takes fs @ later = ms"
proof (induction "todo_measure econt ms (todo_events E (gc_upstream cfg) ms) s" arbitrary: s ms evts rule: less_induct)
  case less
  let ?up = "gc_upstream cfg"
  have ends: "ends_inv econt eclosed ecap esend ccont cclosed ccap (gc_event_channel_capacity cfg) (gc_command_channel_capacity cfg) s"
    using less.prems(1) by (simp add: loop_inv_def)
  show ?case
  proof (cases "both_wait econt ccont cfg s")
    case True
    then show ?thesis using less.prems(2) by (intro exI[of _ "[]"] exI[of _ s] exI[of _ ms]) simp
  next
    case False
    from some_step[OF laws ends less.prems(2) room False, of E ?up] show ?thesis
    proof
      assume idle: "el_forwarding s = []"
      show ?thesis
      proof (cases ms)
        case Nil
        then have "todo_events E ?up ms = []" by (simp add: todo_events_def)
        then show ?thesis
          using backlog_not_done[OF less.prems(1,2)] idle less.prems(3-5) by (simp add: selecting_def)
      next
        case (Cons mt ms')
        obtain m t where mt: "mt = (m, t)" by (cases mt)
        let ?new = "decode_events (ge_decoders E) ?up t m"
        let ?s = "poll_client E 0 s"
        have step: "loop_step me mc E ?up (TakeMessage 0 m t) s = Some (next_event ?new ?s)"
          using idle less.prems(2,3) by (simp add: loop_step_def selecting_def)
        have todo: "todo_events E ?up (mt # ms') = ?new @ todo_events E ?up ms'" by (simp add: mt todo_events_def)
        have inv: "loop_inv econt eclosed ecap esend ccont cclosed ccap (gc_event_channel_capacity cfg) (gc_command_channel_capacity cfg)
            (evts @ ?new) (next_event ?new ?s)"
          using loop_inv_step[OF laws step less.prems(1)] by (simp add: decoded_by_def)
        have "\<exists>fs s' later. loop_run me mc E ?up fs (next_event ?new ?s) = Some s' \<and> running s' \<and> both_wait econt ccont cfg s' \<and> takes fs @ later = ms'"
          by (rule less.hyps[OF _ inv]) (use less.prems idle in \<open>simp_all add: todo todo_measure_def Cons\<close>)
        then obtain fs s' later where "loop_run me mc E ?up fs (next_event ?new ?s) = Some s'" "running s'" "both_wait econt ccont cfg s'"
            "takes fs @ later = ms'"
          by (elim exE conjE)
        then show ?thesis
          using step by (intro exI[of _ "TakeMessage 0 m t # fs"] exI[of _ s'] exI[of _ later]) (simp add: Cons mt)
      qed
    next
      assume "\<exists>e \<in> {ForwardEvent, TakeEvent, SendCommand}. loop_step me mc E ?up e s \<noteq> None"
      then obtain e s1 where e: "e \<in> {ForwardEvent, TakeEvent, SendCommand}" and step: "loop_step me mc E ?up e s = Some s1" by blast
      have quiet: "el_published s = []" using less.prems(3) by simp
      note next_state = todo_step[OF laws ends less.prems(2) quiet e step, of ms "todo_events E ?up ms"]
      have inv: "loop_inv econt eclosed ecap esend ccont cclosed ccap (gc_event_channel_capacity cfg) (gc_command_channel_capacity cfg) evts s1"
        using loop_inv_step[OF laws step less.prems(1)] next_state by simp
      have "\<exists>fs s' later. loop_run me mc E ?up fs s1 = Some s' \<and> running s' \<and> both_wait econt ccont cfg s' \<and> takes fs @ later = ms"
        by (rule less.hyps[OF _ inv]) (use less.prems next_state in simp_all)
      then obtain fs s' later where "loop_run me mc E ?up fs s1 = Some s'" "running s'" "both_wait econt ccont cfg s'" "takes fs @ later = ms"
        by (elim exE conjE)
      then show ?thesis using step e by (intro exI[of _ "e # fs"] exI[of _ s'] exI[of _ later]) simp
    qed
  qed
qed

text \<open>
  C8. Such a state is reached: when more readings that are too fast come in than both channels take and two
  more, there is an order of steps - the gateway takes messages before commands - after which neither
  task ever takes a step again, whatever comes in, and not one command was published.
\<close>

theorem backlog_can_deadlock:
  assumes "bounded_laws me econt eclosed ecap esend" and "bounded_laws mc ccont cclosed ccap csend"
    and "0 < gc_event_channel_capacity cfg"
    and "\<forall>e\<in>set (todo_events E (gc_upstream cfg) ms). too_fast e"
    and "gc_event_channel_capacity cfg + gc_command_channel_capacity cfg + 2 \<le> length (todo_events E (gc_upstream cfg) ms)"
  shows "\<exists>es s later. loop_run me mc E (gc_upstream cfg) es (engine_loop_new me mc cfg net) = Some s \<and> takes es @ later = ms \<and>
     running s \<and> (\<forall>e. loop_step me mc E (gc_upstream cfg) e s = None)"
proof -
  note start = loop_inv_new[OF assms(1,2), of cfg net]
  have "\<exists>es s later. loop_run me mc E (gc_upstream cfg) es (engine_loop_new me mc cfg net) = Some s \<and> running s \<and>
      both_wait econt ccont cfg s \<and> takes es @ later = ms"
    by (rule backlog_blocks[OF assms(1-3) start]) (use assms(4,5) in \<open>simp_all add: engine_loop_new_def gateway_new_def\<close>)
  then obtain es s later where run: "loop_run me mc E (gc_upstream cfg) es (engine_loop_new me mc cfg net) = Some s" "running s"
      "both_wait econt ccont cfg s" "takes es @ later = ms"
    by (elim exE conjE)
  have "ends_inv econt eclosed ecap esend ccont cclosed ccap (gc_event_channel_capacity cfg) (gc_command_channel_capacity cfg) s"
    using loop_inv_run[OF assms(1,2) run(1) start] by (simp add: loop_inv_def)
  from both_wait_stuck[OF assms(1,2) this run(2,3), where E = E and up = "gc_upstream cfg"] show ?thesis
    using run by (intro exI[of _ es] exI[of _ s] exI[of _ later]) simp
qed

section \<open>Concrete runs\<close>

text \<open>
  Channels for one message each, an asset that reports a speed of seven, and a client that counts the
  requests it has not sent.
\<close>

definition loop_config :: gateway_config where
  "loop_config = main_config\<lparr>gc_upstream := bench_cfg, gc_event_channel_capacity := 1, gc_command_channel_capacity := 1\<rparr>"

definition loop_env :: "(unit, nat) gateway_env" where
  "loop_env =
     \<lparr>ge_decoders = bench_decoders, ge_to_vec = (\<lambda>c. Ok []),
      ge_client_publish = (\<lambda>t q r p queued. if queued < request_capacity then Some (True, Suc queued) else None),
      ge_poll = (\<lambda>n queued. queued - n)\<rparr>"

lemma loop_client_laws: "client_laws (ge_client_publish loop_env) (ge_poll loop_env) (\<lambda>queued. queued) request_capacity"
  by (simp add: client_laws_def loop_env_def)

definition loop_start :: "(gateway_event list \<times> nat \<times> bool \<times> nat, gw_command list \<times> nat \<times> bool \<times> nat, nat) engine_loop" where
  "loop_start = engine_loop_new list_mpsc list_mpsc loop_config 0"

abbreviation loop_demo_step ::
  "loop_event \<Rightarrow> (gateway_event list \<times> nat \<times> bool \<times> nat, gw_command list \<times> nat \<times> bool \<times> nat, nat) engine_loop
   \<Rightarrow> (gateway_event list \<times> nat \<times> bool \<times> nat, gw_command list \<times> nat \<times> bool \<times> nat, nat) engine_loop option" where
  "loop_demo_step \<equiv> loop_step list_mpsc list_mpsc loop_env bench_cfg"

abbreviation loop_demo_run ::
  "loop_event list \<Rightarrow> (gateway_event list \<times> nat \<times> bool \<times> nat, gw_command list \<times> nat \<times> bool \<times> nat, nat) engine_loop
   \<Rightarrow> (gateway_event list \<times> nat \<times> bool \<times> nat, gw_command list \<times> nat \<times> bool \<times> nat, nat) engine_loop option" where
  "loop_demo_run \<equiv> loop_run list_mpsc list_mpsc loop_env bench_cfg"

definition fast_messages :: "(mqtt_message \<times> timestamp) list" where
  "fast_messages = [(speed_message ''7'', 1), (speed_message ''7'', 2), (speed_message ''7'', 3), (speed_message ''7'', 4)]"

definition one_command :: "loop_event list" where
  "one_command = [TakeMessage 0 (speed_message ''7'') 1, ForwardEvent, TakeEvent, SendCommand, TakeCommand 2]"

definition one_answer :: "loop_event list" where
  "one_answer = one_command @ [PublishCommand]"

lemma loop_config_simps [simp]:
  "gc_upstream loop_config = bench_cfg" "gc_event_channel_capacity loop_config = 1" "gc_command_channel_capacity loop_config = 1"
  by (simp_all add: loop_config_def)

lemma seven_decodes: "decode_events (ge_decoders loop_env) bench_cfg now (speed_message ''7'') = [speed_event ''7'' 7 now]"
  using speed_message_decodes[of "''7''" 7 now] by (simp add: loop_env_def)

lemma seven_exceeds_one: "f64_less (f64_lit 1 0) (f64_ratio False 7 1)"
  using f64_less_nat[of 1 7] f64_lit_nat[of 1] f64_ratio_nat[of 7] by (simp add: exact_nat_def)

lemma seven_too_fast: "too_fast (speed_event ''7'' 7 now)"
  using seven_exceeds_one by (simp add: too_fast_def speed_event_def has_suffix_def)

lemma telemetry_is_silent: "\<exists>pm' cmd. main_event (Telemetry t) pm = ([], pm', cmd)"
  by (cases "number_of (te_value t)") (simp_all add: main_event_def Let_def)

lemma seven_event: "main_event (speed_event ''7'' 7 now) pm = ([], track (speed_event ''7'' 7 now) pm, Some slow_down)"
proof -
  obtain pm' cmd where evt: "main_event (speed_event ''7'' 7 now) pm = ([], pm', cmd)"
    using telemetry_is_silent unfolding speed_event_def by blast
  show ?thesis using main_event_answers[OF evt] evt seven_too_fast by simp
qed

lemma fast_events: "todo_events loop_env bench_cfg fast_messages =
    [speed_event ''7'' 7 1, speed_event ''7'' 7 2, speed_event ''7'' 7 3, speed_event ''7'' 7 4]"
  by (simp add: todo_events_def fast_messages_def seven_decodes)

lemma list_mpsc_simps:
  "mp_new list_mpsc cap = ([], cap, False, 1)"
  "mp_try_send list_mpsc m (q, cap, False, n) = (if length q < cap then (Sent, (q @ [m], cap, False, n)) else (SendFull m, (q, cap, False, n)))"
  "mp_recv list_mpsc (m # q, cap, gone, n) = (Received m, (q, cap, gone, n))"
  by (simp_all add: list_mpsc_def)

lemma loop_env_publishes:
  "\<exists>p. encode_command (ge_to_vec loop_env) up now c = Inr p"
  "downstream_publish (ge_client_publish loop_env) p queued = (if queued < request_capacity then Some (Ok (), Suc queued) else None)"
  by (simp_all add: loop_env_def encode_command_def to_mqtt_def downstream_publish_def)

text \<open>The state between two answers: nothing on the way, and the client never polled for its requests.\<close>

definition resting :: "nat \<Rightarrow> (gateway_event list \<times> nat \<times> bool \<times> nat, gw_command list \<times> nat \<times> bool \<times> nat, nat) engine_loop \<Rightarrow> bool" where
  "resting k s \<longleftrightarrow> running s \<and> selecting s \<and> event_chan s = ([], 1, False, 1) \<and> el_commands s = ([], 1, False, 1) \<and>
     el_sending s = None \<and> \<not> el_left s \<and> gw_net (el_gateway s) = k \<and> length (el_published s) = k"

lemma resting_start: "resting 0 loop_start"
  by (simp add: resting_def loop_start_def engine_loop_new_def gateway_new_def list_mpsc_simps selecting_def)

lemma loop_env_polls: "ge_poll loop_env 0 queued = queued"
  by (simp add: loop_env_def)

text \<open>A reading is forwarded and answered up to the publish, which goes through while the client has room.\<close>

lemma command_reaches_publish:
  assumes "resting k s"
  shows "\<exists>s' p. loop_demo_run one_command s = Some s' \<and> running s' \<and> el_forwarding s' = [] \<and> event_chan s' = ([], 1, False, 1) \<and>
    el_commands s' = ([], 1, False, 1) \<and> el_sending s' = None \<and> \<not> el_left s' \<and> gw_net (el_gateway s') = k \<and>
    length (el_published s') = k \<and> el_published s' = el_published s \<and> el_publishing s' = Some (slow_down, p)"
proof -
  obtain p where p: "encode_command (ge_to_vec loop_env) bench_cfg 2 slow_down = Inr p" using loop_env_publishes(1) by blast
  show ?thesis
    using assms
    by (simp add: one_command_def resting_def selecting_def loop_step_def seven_decodes poll_client_def next_event_def seven_event
        list_mpsc_simps p loop_env_polls)
qed

lemma answer_published:
  assumes "resting k s" "k < request_capacity"
  shows "\<exists>s'. loop_demo_run one_answer s = Some s' \<and> resting (Suc k) s' \<and> el_published s' = el_published s @ [slow_down]"
proof -
  obtain s1 p where "loop_demo_run one_command s = Some s1" "running s1" "el_forwarding s1 = []" "event_chan s1 = ([], 1, False, 1)"
      "el_commands s1 = ([], 1, False, 1)" "el_sending s1 = None" "\<not> el_left s1" "gw_net (el_gateway s1) = k"
      "length (el_published s1) = k" "el_published s1 = el_published s" "el_publishing s1 = Some (slow_down, p)"
    using command_reaches_publish[OF assms(1)] by (elim exE conjE)
  then show ?thesis
    using assms(2) by (simp add: one_answer_def loop_run_append loop_step_def loop_env_publishes(2) resting_def selecting_def)
qed

lemma answers_published: "k \<le> request_capacity \<Longrightarrow> \<exists>es s. loop_demo_run es loop_start = Some s \<and> resting k s"
proof (induction k)
  case 0
  then show ?case using resting_start by (intro exI[of _ "[]"]) simp
next
  case (Suc k)
  then obtain es s where s: "loop_demo_run es loop_start = Some s" "resting k s" by auto
  obtain s' where "loop_demo_run one_answer s = Some s'" "resting (Suc k) s'" using answer_published[OF s(2)] Suc.prems by auto
  then show ?case using s(1) by (intro exI[of _ "es @ one_answer"] exI[of _ s']) (simp add: loop_run_append)
qed

lemma publish_blocks:
  "\<exists>es s. loop_demo_run es loop_start = Some s \<and> running s \<and> publish_waits loop_env s \<and> engine_waits fst fst loop_config s \<and>
     length (el_published s) = request_capacity"
proof -
  obtain es s where s: "loop_demo_run es loop_start = Some s" "resting request_capacity s" using answers_published by blast
  obtain s' p where "loop_demo_run one_command s = Some s'" "running s'" "event_chan s' = ([], 1, False, 1)"
      "el_sending s' = None" "gw_net (el_gateway s') = request_capacity" "length (el_published s') = request_capacity"
      "el_publishing s' = Some (slow_down, p)"
    using command_reaches_publish[OF s(2)] by (elim exE conjE)
  then show ?thesis
    using s(1)
    by (intro exI[of _ "es @ one_command"] exI[of _ s'])
      (simp add: loop_run_append publish_waits_def engine_waits_def loop_env_publishes(2))
qed

lemma one_answer_run: "\<exists>s. loop_demo_run one_answer loop_start = Some s \<and> el_published s = [slow_down] \<and> running s"
  using answer_published[OF resting_start]
  by (auto simp: request_capacity_def resting_def loop_start_def engine_loop_new_def)

theorem fast_readings_are_answered_witness:
  "\<exists>s seen. loop_demo_run one_answer loop_start = Some s \<and> el_published s = [slow_down] \<and>
     seen @ fst (event_chan s) @ el_forwarding s = decoded_run loop_env bench_cfg one_answer \<and> 1 \<le> length (filter too_fast seen)"
proof (rule exE[OF one_answer_run], elim conjE)
  fix s
  assume s: "loop_demo_run one_answer loop_start = Some s" "el_published s = [slow_down]"
  from fast_readings_are_answered[OF list_mpsc_bounded list_mpsc_bounded, of loop_env loop_config one_answer 0 s]
  obtain seen where "seen @ fst (event_chan s) @ el_forwarding s = decoded_run loop_env bench_cfg one_answer"
      "length (el_published s) \<le> length (filter too_fast seen)"
    using s(1) unfolding loop_start_def loop_config_simps by (elim meta_impE exE conjE) 
  then show ?thesis using s by (intro exI[of _ s] exI[of _ seen]) simp
qed

text \<open>Before the engine takes the second reading, its model still has the first.\<close>

definition one_behind :: "loop_event list" where
  "one_behind =
     [TakeMessage 0 (speed_message ''7'') 1, ForwardEvent, TakeEvent, TakeMessage 0 (speed_message ''8'') 2, ForwardEvent]"

lemma eight_decodes: "decode_events (ge_decoders loop_env) bench_cfg now (speed_message ''8'') = [speed_event ''8'' 8 now]"
  using speed_message_decodes[of "''8''" 8 now] by (simp add: loop_env_def)

lemma one_behind_run:
  "\<exists>s. loop_demo_run one_behind loop_start = Some s \<and> fst (event_chan s) = [speed_event ''8'' 8 2] \<and> el_forwarding s = []"
  by (simp add: one_behind_def loop_start_def engine_loop_new_def gateway_new_def loop_step_def seven_decodes eight_decodes
      selecting_def poll_client_def next_event_def seven_event list_mpsc_simps)

theorem engine_model_lags_by_the_channel_witness:
  "\<exists>s. loop_demo_run one_behind loop_start = Some s \<and>
     pm_speed (el_props s) ''c1'' = Some \<lparr>ps_value = f64_ratio False 7 1, ps_unit = None, ps_ts = 1\<rparr> \<and>
     pm_speed (gw_properties (el_gateway s)) ''c1'' = Some \<lparr>ps_value = f64_ratio False 8 1, ps_unit = None, ps_ts = 2\<rparr>"
proof (rule exE[OF one_behind_run], elim conjE)
  fix s
  assume s: "loop_demo_run one_behind loop_start = Some s" "fst (event_chan s) = [speed_event ''8'' 8 2]" "el_forwarding s = []"
  have "\<exists>seen. seen @ fst (event_chan s) @ el_forwarding s = decoded_run loop_env bench_cfg one_behind \<and>
      pm_speed (el_props s) ''c1'' = last_reading [''speed'', ''rpm''] ''c1'' seen \<and>
      pm_speed (gw_properties (el_gateway s)) ''c1'' =
        (case last_reading [''speed'', ''rpm''] ''c1'' (fst (event_chan s) @ take 1 (el_forwarding s)) of
           Some r \<Rightarrow> Some r | None \<Rightarrow> pm_speed (el_props s) ''c1'')"
    using engine_model_lags_by_the_channel[OF list_mpsc_bounded list_mpsc_bounded, of loop_env loop_config one_behind 0 s] s(1)
    unfolding loop_start_def loop_config_simps Let_def by blast
  moreover have "decoded_run loop_env bench_cfg one_behind = [speed_event ''7'' 7 1, speed_event ''8'' 8 2]"
    by (simp add: one_behind_def decoded_by_def seven_decodes eight_decodes)
  ultimately show ?thesis
    using s by (intro exI[of _ s]) (auto simp: last_reading_def List.map_filter_simps speed_event_reading)
qed

lemma fast_backlog:
  "\<forall>e\<in>set (todo_events loop_env (gc_upstream loop_config) fast_messages). too_fast e"
  "gc_event_channel_capacity loop_config + gc_command_channel_capacity loop_config + 2 \<le>
     length (todo_events loop_env (gc_upstream loop_config) fast_messages)"
  by (simp_all add: fast_events seven_too_fast)

lemma demo_blocks: "\<exists>es s. loop_demo_run es loop_start = Some s \<and> running s \<and> both_wait fst fst loop_config s"
proof -
  have room: "0 < gc_event_channel_capacity loop_config" by simp
  show ?thesis
    using backlog_blocks[OF list_mpsc_bounded list_mpsc_bounded room loop_inv_new[OF list_mpsc_bounded list_mpsc_bounded],
        of 0 loop_env fast_messages] fast_backlog
    unfolding loop_start_def by (auto simp: engine_loop_new_def gateway_new_def)
qed

text \<open>Both ways are reached, and \<open>50\<close> commands fill the client.\<close>

theorem stuck_exactly_when_waiting_witness:
  "(\<exists>es s. loop_demo_run es loop_start = Some s \<and> running s \<and> (\<forall>e. loop_demo_step e s = None) \<and>
      4 \<le> length (decoded_run loop_env bench_cfg es)) \<and>
   (\<exists>es s. loop_demo_run es loop_start = Some s \<and> running s \<and> (\<forall>e. loop_demo_step e s = None) \<and>
      publish_waits loop_env s \<and> length (el_published s) = 50)"
proof -
  have law: "((\<forall>e. loop_demo_step e s = None) \<longleftrightarrow>
        both_wait fst fst loop_config s \<or> publish_waits loop_env s \<and> engine_waits fst fst loop_config s) \<and>
      (both_wait fst fst loop_config s \<longrightarrow> 4 \<le> length (decoded_run loop_env bench_cfg es))"
    if "loop_demo_run es loop_start = Some s" "running s" for es s
    using stuck_exactly_when_waiting[OF list_mpsc_bounded list_mpsc_bounded loop_client_laws, of loop_config es 0 s] that
    unfolding loop_start_def loop_config_simps by (simp add: eval_nat_numeral)
  obtain es1 s1 where one: "loop_demo_run es1 loop_start = Some s1" "running s1" "both_wait fst fst loop_config s1"
    using demo_blocks by blast
  obtain es2 s2 where two: "loop_demo_run es2 loop_start = Some s2" "running s2" "publish_waits loop_env s2"
      "engine_waits fst fst loop_config s2" "length (el_published s2) = 50"
    using publish_blocks unfolding request_capacity_def by blast
  show ?thesis
    using law[OF one(1,2)] law[OF two(1,2)] one two by blast
qed

theorem backlog_can_deadlock_witness:
  "\<exists>es s later. loop_demo_run es loop_start = Some s \<and> takes es @ later = fast_messages \<and> running s \<and> (\<forall>e. loop_demo_step e s = None)"
proof -
  have room: "0 < gc_event_channel_capacity loop_config" by simp
  from backlog_can_deadlock[OF list_mpsc_bounded list_mpsc_bounded room fast_backlog, of 0]
  show ?thesis unfolding loop_start_def loop_config_simps .
qed

end
