(* ===== verification/Sample_Engine.thy ===== *)
theory Sample_Engine
  imports Service_Properties Manager_Properties
begin

text \<open>
  \<open>SampleEngine::run_for\<close> (\<open>servicemanagement/src/sample_engine.rs\<close>) in time: when it ticks, how often, and
  that it returns. An \<open>Instant\<close> is a number of nanoseconds; the clock enters as what each cycle took and
  how late the sleep after it ended.
\<close>

section \<open>The loop\<close>

text \<open>Seconds of an \<open>Instant\<close> are an \<open>i64\<close>; \<open>+\<close> panics when the sum is not representable.\<close>

definition instant_limit :: nat where
  "instant_limit = 2 ^ 63 * 1000000000"

definition instant_add :: "nat \<Rightarrow> duration \<Rightarrow> nat exec" where
  "instant_add t d = (if t + as_nanos d < instant_limit then Return (t + as_nanos d) else Panic)"

definition instant_elapsed :: "nat \<Rightarrow> nat \<Rightarrow> duration" where
  "instant_elapsed now start = Duration (now - start)"

record cycle_timing =
  ct_elapsed :: "nat \<Rightarrow> duration"
  ct_body :: duration
  ct_late :: duration
  ct_gap :: duration

text \<open>
  The loop from its \<open>k\<close>-th cycle on, with \<open>now\<close> the clock reading of its test. \<open>ct_body\<close> is the time from
  the test to the reading before the sleep, \<open>ct_late\<close> how late the sleep ends, \<open>ct_gap\<close> the time from
  there (or, without a sleep, from that reading) to the next test. It answers the number of cycles it ended after;
  \<open>None\<close> is out of fuel (its own, or that of the drain inside a cycle).
\<close>

fun run_cycles ::
  "nat \<Rightarrow> ('r, 'ch) rt_service \<Rightarrow> nat \<Rightarrow> ('ch \<Rightarrow> 'j engine_event option \<times> 'ch) \<Rightarrow> (nat \<Rightarrow> cycle_timing)
   \<Rightarrow> duration \<Rightarrow> duration \<Rightarrow> nat \<Rightarrow> nat \<Rightarrow> nat \<Rightarrow> nat \<Rightarrow> ('r, 'n, 'j, 'ch) service_manager
   \<Rightarrow> (nat \<times> ('r, 'n, 'j, 'ch) service_manager) option exec" where
  "run_cycles 0 v drain try_recv clock run_time period start k now next_tick m = Return None"
| "run_cycles (Suc fuel) v drain try_recv clock run_time period start k now next_tick m =
     (if \<not> instant_elapsed now start < run_time then Return (Some (k, m))
      else
        exec_bind (engine_cycle v drain try_recv (ct_elapsed (clock k)) m) (\<lambda>r.
          case r of
            None \<Rightarrow> Return None
          | Some m1 \<Rightarrow>
              (let t = now + as_nanos (ct_body (clock k));
                   t' = (if t < next_tick then next_tick + as_nanos (ct_late (clock k)) else t) + as_nanos (ct_gap (clock k))
               in exec_bind (instant_add next_tick period) (\<lambda>next'.
                    run_cycles fuel v drain try_recv clock run_time period start (Suc k) t' next' m1))))"

text \<open>The clock is read twice before the loop, \<open>gap\<close> apart, and \<open>wait\<close> later at its first test.\<close>

definition run_for ::
  "nat \<Rightarrow> ('r, 'ch) rt_service \<Rightarrow> nat \<Rightarrow> ('ch \<Rightarrow> 'j engine_event option \<times> 'ch) \<Rightarrow> (nat \<Rightarrow> cycle_timing)
   \<Rightarrow> nat \<Rightarrow> nat \<Rightarrow> nat \<Rightarrow> duration \<Rightarrow> duration \<Rightarrow> ('r, 'n, 'j, 'ch) service_manager
   \<Rightarrow> (nat \<times> ('r, 'n, 'j, 'ch) service_manager) option exec" where
  "run_for fuel v drain try_recv clock start gap wait run_time period m =
     exec_bind (instant_add (start + gap) period) (\<lambda>next_tick.
       run_cycles fuel v drain try_recv clock run_time period start 0 (start + gap + wait) next_tick m)"

section \<open>One cycle\<close>

text \<open>No tick leaves more than \<open>cap\<close> events in the channel, which is bounded.\<close>

definition ticks_bounded :: "('r, 'ch) rt_service \<Rightarrow> ('ch \<Rightarrow> 'j engine_event list) \<Rightarrow> nat \<Rightarrow> bool" where
  "ticks_bounded v contents cap \<longleftrightarrow>
     (\<forall>ctx s res s' ctx'. length (contents (ctx_events ctx)) \<le> cap \<longrightarrow> svc_tick v ctx s = Return (res, s', ctx') \<longrightarrow>
        length (contents (ctx_events ctx')) \<le> cap)"

lemma tick_entries_bounded:
  "ticks_bounded v contents cap \<Longrightarrow> length (contents (ctx_events ctx)) \<le> cap \<Longrightarrow>
    tick_entries v cfg elapsed i ctx es = Return (ws, es', ctx') \<Longrightarrow> length (contents (ctx_events ctx')) \<le> cap"
proof (induction es arbitrary: i ctx ws es')
  case (Cons e es)
  show ?case
  proof (cases "st_disabled (en_stats e)")
    case True
    then show ?thesis using Cons by (auto simp: exec_bind_Return)
  next
    case False
    then obtain res s ctx1 ws1 es1 where tick: "svc_tick v ctx (en_service e) = Return (res, s, ctx1)"
        and rest: "tick_entries v cfg elapsed (Suc i) ctx1 es = Return (ws1, es1, ctx')"
      using Cons.prems(3) by (auto simp: exec_bind_Return)
    have "length (contents (ctx_events ctx1)) \<le> cap"
      using Cons.prems(1,2) tick unfolding ticks_bounded_def by blast
    from Cons.IH[OF Cons.prems(1) this rest] show ?thesis .
  qed
qed simp

lemma cycle_spec:
  assumes "tick_returns v" "fifo_channel try_recv contents" "ticks_bounded v contents cap" "cap < drain"
    and "length (contents (ctx_events (sm_ctx m))) \<le> cap"
    and "\<forall>e \<in> set (sm_entries m). stats_inv cfg (en_stats e) \<and> unat (st_calls (en_stats e)) < 2 ^ 64 - 1"
    and "mc_rt_check_config (sm_config m) = cfg"
  shows "\<exists>m1. engine_cycle v drain try_recv elapsed m = Return (Some m1) \<and> sm_config m1 = sm_config m \<and>
    length (contents (ctx_events (sm_ctx m1))) \<le> cap \<and> length (sm_entries m1) = length (sm_entries m) \<and>
    (\<forall>k < length (sm_entries m). entry_step v cfg (elapsed k) (sm_entries m ! k) (sm_entries m1 ! k) \<and>
       stats_inv cfg (en_stats (sm_entries m1 ! k)) \<and>
       unat (st_calls (en_stats (sm_entries m1 ! k))) \<le> Suc (unat (st_calls (en_stats (sm_entries m ! k)))))"
proof -
  obtain ws es' ctx' where t: "tick_entries v cfg elapsed 0 (sm_ctx m) (sm_entries m) = Return (ws, es', ctx')"
      "length es' = length (sm_entries m)"
      "\<forall>k < length (sm_entries m). entry_step v cfg (elapsed k) (sm_entries m ! k) (es' ! k) \<and> stats_inv cfg (en_stats (es' ! k)) \<and>
        unat (st_calls (en_stats (es' ! k))) \<le> Suc (unat (st_calls (en_stats (sm_entries m ! k))))"
    using tick_entries_spec[OF assms(1,6), of elapsed 0 "sm_ctx m"] by auto
  have "length (contents (ctx_events ctx')) < drain"
    using tick_entries_bounded[OF assms(3,5) t(1)] assms(4) by simp
  from process_events_spec[OF assms(2) this] obtain ctx'' where "process_events drain try_recv ctx' = Some ctx''"
      "contents (ctx_events ctx'') = []"
    by (elim exE conjE)
  then show ?thesis using t assms(7) by (simp add: engine_cycle_def tick_rt_def)
qed

section \<open>The whole run\<close>

text \<open>
  The clock at the \<open>k\<close>-th test of the loop, when its ticks are due at \<open>first\<close>, \<open>first + period\<close>, and so on.
  Every cycle keeps its period, when its body and a sleep that ends (with the way to the test) at most
  \<open>late\<close> nanoseconds late fit in it.
\<close>

fun test_time :: "(nat \<Rightarrow> cycle_timing) \<Rightarrow> nat \<Rightarrow> nat \<Rightarrow> nat \<Rightarrow> nat \<Rightarrow> nat" where
  "test_time clock period first t0 0 = t0"
| "test_time clock period first t0 (Suc k) =
     (let t = test_time clock period first t0 k + as_nanos (ct_body (clock k)); due = first + (k + 1) * period
      in (if t < due then due + as_nanos (ct_late (clock k)) else t) + as_nanos (ct_gap (clock k)))"

definition keeps_pace :: "(nat \<Rightarrow> cycle_timing) \<Rightarrow> nat \<Rightarrow> nat \<Rightarrow> bool" where
  "keeps_pace clock period late \<longleftrightarrow>
     (\<forall>k. as_nanos (ct_late (clock k)) + as_nanos (ct_gap (clock k)) \<le> late \<and> as_nanos (ct_body (clock k)) + late \<le> period)"

lemma test_time_due: "first \<le> t0 \<Longrightarrow> first + k * period \<le> test_time clock period first t0 k"
  by (cases k) (auto simp: Let_def)

lemma test_time_pace:
  assumes "keeps_pace clock period late" "t0 \<le> first + late"
  shows "test_time clock period first t0 k \<le> first + k * period + late"
proof (induction k)
  case 0
  then show ?case using assms(2) by simp
next
  case (Suc k)
  have "as_nanos (ct_late (clock k)) + as_nanos (ct_gap (clock k)) \<le> late" "as_nanos (ct_body (clock k)) + late \<le> period"
    using assms(1) by (simp_all add: keeps_pace_def)
  then show ?case using Suc by (simp add: Let_def)
qed

lemma run_cycles_spec:
  fixes clock :: "nat \<Rightarrow> cycle_timing" and period run_time :: duration and first t0 :: nat
  defines "T \<equiv> test_time clock (as_nanos period) first t0"
  assumes svc: "tick_returns v" "fifo_channel try_recv contents" "ticks_bounded v contents cap" "cap < drain"
    and time: "0 < as_nanos period" "as_nanos run_time \<le> n * as_nanos period" "first + (n + 1) * as_nanos period < instant_limit"
      "start \<le> first" "first \<le> t0"
  shows "n - k < fuel \<Longrightarrow> k \<le> n \<Longrightarrow> length (contents (ctx_events (sm_ctx m))) \<le> cap \<Longrightarrow>
    \<forall>e \<in> set (sm_entries m). stats_inv cfg (en_stats e) \<and> unat (st_calls (en_stats e)) + (n - k) < 2 ^ 64 \<Longrightarrow>
    mc_rt_check_config (sm_config m) = cfg \<Longrightarrow>
    \<exists>j m'. run_cycles fuel v drain try_recv clock run_time period start k (T k) (first + (k + 1) * as_nanos period) m = Return (Some (k + j, m')) \<and>
      k + j \<le> n \<and> (\<forall>l. k \<le> l \<and> l < k + j \<longrightarrow> T l - start < as_nanos run_time) \<and> as_nanos run_time \<le> T (k + j) - start \<and>
      length (sm_entries m') = length (sm_entries m) \<and>
      (\<forall>i < length (sm_entries m).
         stats_run (en_budget (sm_entries m ! i)) cfg (map (\<lambda>l. ct_elapsed (clock l) i) [k..<k + j]) (en_stats (sm_entries m ! i)) =
           Return (en_stats (sm_entries m' ! i)))"
proof (induction fuel arbitrary: k m)
  case (Suc fuel)
  let ?P = "as_nanos period" and ?R = "as_nanos run_time"
  show ?case
  proof (cases "instant_elapsed (T k) start < run_time")
    case False
    then have "?R \<le> T k - start" by (simp add: instant_elapsed_def less_duration_def)
    then show ?thesis using False Suc.prems(2) by (intro exI[of _ 0] exI[of _ m]) auto
  next
    case True
    then have running: "T k - start < ?R" by (simp add: instant_elapsed_def less_duration_def)
    have "k * ?P < ?R" using running test_time_due[OF time(5), of k ?P clock] time(4) unfolding T_def by linarith
    from less_le_trans[OF this time(2)] have "k < n" by simp
    have "\<forall>e \<in> set (sm_entries m). stats_inv cfg (en_stats e) \<and> unat (st_calls (en_stats e)) < 2 ^ 64 - 1"
      using Suc.prems(4) \<open>k < n\<close> by fastforce
    from cycle_spec[OF svc Suc.prems(3) this Suc.prems(5), of "ct_elapsed (clock k)"] obtain m1 where
      m1: "engine_cycle v drain try_recv (ct_elapsed (clock k)) m = Return (Some m1)" "sm_config m1 = sm_config m"
        "length (contents (ctx_events (sm_ctx m1))) \<le> cap" "length (sm_entries m1) = length (sm_entries m)"
      and step: "\<And>i. i < length (sm_entries m) \<Longrightarrow> entry_step v cfg (ct_elapsed (clock k) i) (sm_entries m ! i) (sm_entries m1 ! i)"
      and inv: "\<And>i. i < length (sm_entries m) \<Longrightarrow> stats_inv cfg (en_stats (sm_entries m1 ! i)) \<and>
         unat (st_calls (en_stats (sm_entries m1 ! i))) \<le> Suc (unat (st_calls (en_stats (sm_entries m ! i))))"
      by auto
    let ?next = "first + (k + 1) * ?P"
    have "(k + 1) * ?P + ?P \<le> (n + 1) * ?P"
    proof -
      have "(k + 1) * ?P + ?P = (k + 2) * ?P" by simp
      also have "\<dots> \<le> (n + 1) * ?P" using \<open>k < n\<close> by (intro mult_right_mono) simp_all
      finally show ?thesis .
    qed
    then have add: "instant_add ?next period = Return (first + (Suc k + 1) * ?P)"
      using time(3) by (simp add: instant_add_def algebra_simps)
    have entries: "\<forall>e \<in> set (sm_entries m1). stats_inv cfg (en_stats e) \<and> unat (st_calls (en_stats e)) + (n - Suc k) < 2 ^ 64"
    proof
      fix e assume "e \<in> set (sm_entries m1)"
      then obtain i where i: "i < length (sm_entries m)" "e = sm_entries m1 ! i" using m1(4) by (auto simp: in_set_conv_nth)
      then have "unat (st_calls (en_stats (sm_entries m ! i))) + (n - k) < 2 ^ 64" using Suc.prems(4) by simp
      then show "stats_inv cfg (en_stats e) \<and> unat (st_calls (en_stats e)) + (n - Suc k) < 2 ^ 64"
        using inv[OF i(1)] i(2) less_imp_Suc_add[OF \<open>k < n\<close>] by auto
    qed
    have "n - Suc k < fuel" "Suc k \<le> n" using Suc.prems(1) \<open>k < n\<close> by auto
    from Suc.IH[OF this m1(3) entries] Suc.prems(5) m1(2) obtain j m' where
      m': "run_cycles fuel v drain try_recv clock run_time period start (Suc k) (T (Suc k)) (first + (Suc k + 1) * ?P) m1 = Return (Some (Suc k + j, m'))"
        "Suc k + j \<le> n" "length (sm_entries m') = length (sm_entries m1)"
      and tests: "\<And>l. Suc k \<le> l \<Longrightarrow> l < Suc k + j \<Longrightarrow> T l - start < ?R" "?R \<le> T (Suc k + j) - start"
      and run: "\<And>i. i < length (sm_entries m1) \<Longrightarrow> stats_run (en_budget (sm_entries m1 ! i)) cfg
         (map (\<lambda>l. ct_elapsed (clock l) i) [Suc k..<Suc k + j]) (en_stats (sm_entries m1 ! i)) = Return (en_stats (sm_entries m' ! i))"
      by auto
    have "run_cycles (Suc fuel) v drain try_recv clock run_time period start k (T k) ?next m = Return (Some (k + Suc j, m'))"
    proof -
      have "run_cycles (Suc fuel) v drain try_recv clock run_time period start k (T k) ?next m =
          exec_bind (instant_add ?next period) (\<lambda>next'. run_cycles fuel v drain try_recv clock run_time period start (Suc k) (T (Suc k)) next' m1)"
        using True m1(1) by (simp add: T_def Let_def)
      then show ?thesis using m'(1) by (simp only: add exec_bind_simps) simp
    qed
    moreover have "T l - start < ?R" if "k \<le> l" "l < k + Suc j" for l
      using that running tests(1)[of l] by (cases "l = k") simp_all
    moreover have "stats_run (en_budget (sm_entries m ! i)) cfg (map (\<lambda>l. ct_elapsed (clock l) i) [k..<k + Suc j]) (en_stats (sm_entries m ! i)) =
        Return (en_stats (sm_entries m' ! i))" if i: "i < length (sm_entries m)" for i
    proof -
      have "[k..<k + Suc j] = k # [Suc k..<Suc k + j]" by (simp add: upt_rec)
      then show ?thesis using stats_run_step[OF step[OF i] run[of i]] i m1(4) by simp
    qed
    ultimately show ?thesis using m'(2,3) m1(4) tests(2) by (intro exI[of _ "Suc j"] exI[of _ m']) simp
  qed
qed simp

lemma with_services_ctx: "sm_ctx (with_services svcs m) = sm_ctx m"
  unfolding with_services_def by (induction svcs arbitrary: m) (auto simp: manager_register_rt_def)

text \<open>
  C4. \<open>run_for\<close> returns: after at most as many cycles as periods cover the run time, if no service panics
  and each tick keeps to the bound of the channel - however long the cycles take. The cycles it makes
  are exactly those whose test reads less than the run time since the start, the last one included; the
  test that ends it reads the run time or more. No tick begins before it is due, the due times being a
  period apart, and while each cycle keeps its period with sleeps at most \<open>late\<close> too long, each begins
  at most \<open>late\<close> after it: the ticks do not drift. Every service is called at each of them until its
  overruns disable it.
\<close>

theorem run_for_returns:
  fixes v :: "('r, 'ch) rt_service"
  assumes "tick_returns v" and "fifo_channel try_recv contents" and "ticks_bounded v contents cap" and "cap < drain"
    and "contents ch = []" and "0 < as_nanos period" and "as_nanos run_time \<le> n * as_nanos period" and "n < 2 ^ 64"
    and "start + gap + (n + 1) * as_nanos period < instant_limit" and "n < fuel"
  shows "\<exists>k (m :: ('r, 'n, 'j, 'ch) service_manager).
    let T = test_time clock (as_nanos period) (start + gap) (start + gap + wait)
    in run_for fuel v drain try_recv clock start gap wait run_time period (with_services svcs (with_config ch mcfg)) = Return (Some (k, m)) \<and>
    k \<le> n \<and> (\<forall>l < k. T l - start < as_nanos run_time) \<and> as_nanos run_time \<le> T k - start \<and>
    (\<forall>l. start + gap + l * as_nanos period \<le> T l) \<and>
    (\<forall>late. keeps_pace clock (as_nanos period) late \<and> wait \<le> late \<longrightarrow> (\<forall>l. T l \<le> start + gap + l * as_nanos period + late)) \<and>
    (\<forall>i < length svcs.
       let limit = overrun_limit (mc_rt_check_config mcfg); budget = snd (svcs ! i); es = map (\<lambda>l. ct_elapsed (clock l) i) [0..<k]
       in unat (st_calls (en_stats (sm_entries m ! i))) = length (served budget limit es) \<and>
          (st_disabled (en_stats (sm_entries m ! i)) \<longleftrightarrow> limit \<le> overruns budget es))"
proof -
  let ?T = "test_time clock (as_nanos period) (start + gap) (start + gap + wait)"
  define m0 :: "('r, 'n, 'j, 'ch) service_manager" where "m0 = with_services svcs (with_config ch mcfg)"
  have new: "length (sm_entries m0) = length svcs" "mc_rt_check_config (sm_config m0) = mc_rt_check_config mcfg"
      "i < length svcs \<Longrightarrow> en_stats (sm_entries m0 ! i) = rt_service_stats_default"
      "i < length svcs \<Longrightarrow> en_budget (sm_entries m0 ! i) = snd (svcs ! i)" for i
    by (simp_all add: m0_def with_services_new split: prod.splits)
  have channel: "length (contents (ctx_events (sm_ctx m0))) \<le> cap"
    using assms(5) by (simp add: m0_def with_services_ctx with_config_def)
  have entries: "\<forall>e \<in> set (sm_entries m0). stats_inv (mc_rt_check_config mcfg) (en_stats e) \<and> unat (st_calls (en_stats e)) + (n - 0) < 2 ^ 64"
    using new_entries_inv[OF assms(8)] unfolding m0_def by simp
  have fuel: "n - 0 < fuel" using assms(10) by simp
  from run_cycles_spec[OF assms(1-4,6,7,9) le_add1 le_add1 fuel le0 channel entries new(2), of clock wait] obtain k m where
    m: "run_cycles fuel v drain try_recv clock run_time period start 0 (start + gap + wait) (start + gap + (0 + 1) * as_nanos period) m0 = Return (Some (k, m))"
      "k \<le> n" "\<forall>l < k. ?T l - start < as_nanos run_time" "as_nanos run_time \<le> ?T k - start"
    and stats: "\<And>i. i < length svcs \<Longrightarrow> stats_run (snd (svcs ! i)) (mc_rt_check_config mcfg)
        (map (\<lambda>l. ct_elapsed (clock l) i) [0..<k]) rt_service_stats_default = Return (en_stats (sm_entries m ! i))"
    using new by auto
  have "as_nanos period \<le> (n + 1) * as_nanos period" by simp
  then have "instant_add (start + gap) period = Return (start + gap + (0 + 1) * as_nanos period)"
    using assms(9) by (simp add: instant_add_def)
  then have "run_for fuel v drain try_recv clock start gap wait run_time period m0 = Return (Some (k, m))"
    using m(1) by (simp add: run_for_def)
  moreover have "length (map (\<lambda>l. ct_elapsed (clock l) i) [0..<k]) < 2 ^ 64" for i using m(2) assms(8) by simp
  moreover have "start + gap + l * as_nanos period \<le> ?T l" for l by (rule test_time_due) simp
  moreover have "?T l \<le> start + gap + l * as_nanos period + late" if "keeps_pace clock (as_nanos period) late" "wait \<le> late" for late l
    using that by (intro test_time_pace) simp_all
  ultimately show ?thesis
    using m(2-4) stats_run_default[OF _ stats] unfolding m0_def by (intro exI[of _ k] exI[of _ m]) (simp add: Let_def)
qed

text \<open>
  Thirty milliseconds at a period of ten, the cycles two long, the sleeps one late, the third due at 20 and the
  fourth at 30 milliseconds: three ticks.
\<close>

definition steady_clock :: "nat \<Rightarrow> cycle_timing" where
  "steady_clock k = \<lparr>ct_elapsed = \<lambda>i. from_millis 1, ct_body = from_millis 2, ct_late = from_millis 1, ct_gap = from_millis 0\<rparr>"

theorem run_for_returns_witness:
  "\<exists>m :: (nat, unit, unit, unit) service_manager.
    run_for 4 counting_service 1 (\<lambda>ch. (None, ch)) steady_clock 5 0 0 (from_millis 30) (from_millis 10)
      (with_services [(0, from_millis 5)] (with_config () manager_config_default)) = Return (Some (3, m)) \<and>
    unat (st_calls (en_stats (sm_entries m ! 0))) = 3"
proof -
  let ?T = "test_time steady_clock (as_nanos (from_millis 10)) (5 + 0) (5 + 0 + 0)"
  have fifo: "fifo_channel (\<lambda>ch. (None :: unit engine_event option, ch)) (\<lambda>ch :: unit. [])" by (simp add: fifo_channel_def)
  have quiet: "ticks_bounded counting_service (\<lambda>ch :: unit. [] :: unit engine_event list) 0" by (simp add: ticks_bounded_def)
  obtain k and m :: "(nat, unit, unit, unit) service_manager" where
    m: "run_for 4 counting_service 1 (\<lambda>ch. (None, ch)) steady_clock 5 0 0 (from_millis 30) (from_millis 10)
        (with_services [(0, from_millis 5)] (with_config () manager_config_default)) = Return (Some (k, m))" "k \<le> 3"
      "as_nanos (from_millis 30) \<le> ?T k - 5"
      "\<forall>i < 1. unat (st_calls (en_stats (sm_entries m ! i))) =
         length (served (snd ([(0 :: nat, from_millis 5)] ! i)) (overrun_limit (mc_rt_check_config manager_config_default))
           (map (\<lambda>l. ct_elapsed (steady_clock l) i) [0..<k]))"
    using run_for_returns[OF counting_returns fifo quiet, where drain = 1 and ch = "()" and period = "from_millis 10" and
        run_time = "from_millis 30" and n = 3 and start = 5 and gap = 0 and wait = 0 and fuel = 4 and clock = steady_clock and
        svcs = "[(0, from_millis 5)]" and mcfg = manager_config_default, where 'n = unit]
    by (auto simp: from_millis_def instant_limit_def Let_def)
  have "?T 0 - 5 = 0" "?T (Suc 0) - 5 = 11000000" "?T (Suc (Suc 0)) - 5 = 21000000"
    by (simp_all add: Let_def steady_clock_def from_millis_def)
  then have "k = 3" using m(2,3) by (cases k; cases "k - 1"; cases "k - 2") (auto simp: from_millis_def simp del: test_time.simps)
  moreover have "length (served (from_millis 5) (overrun_limit rt_check_config_default) [from_millis 1, from_millis 1, from_millis 1]) = 3"
    by (subst served_all) (simp_all add: from_millis_def overrun_limit_def rt_check_config_default_def less_duration_def)
  ultimately show ?thesis
    using m(1,4) by (intro exI[of _ m]) (simp add: steady_clock_def manager_config_default_def upt_rec)
qed

end
