(* ===== verification/Float64_Dyadic.thy ===== *)
theory Float64_Dyadic
  imports Float64_Exact
begin

text \<open>
  Binary fractions in double precision: the exactness of \<open>Float64_Exact\<close> with signs and a denominator
  \<open>2^p\<close>. Sums, products and quotients of such values are exact while the numerators stay below \<open>2^53\<close>. The
  last section evaluates the operations on literals.
\<close>

section \<open>Binary fractions in double precision\<close>

text \<open>The double \<open>i / 2^p\<close>, and the bit patterns that denote it with a mantissa shifted by \<open>j\<close>.\<close>

definition f64_dyadic :: "nat \<Rightarrow> int \<Rightarrow> f64" where
  "f64_dyadic p i = f64_round (i < 0) (nat \<bar>i\<bar>) (- int p)"

definition denotes :: "nat \<Rightarrow> f64 \<Rightarrow> int \<Rightarrow> nat \<Rightarrow> bool" where
  "denotes p a i j \<longleftrightarrow> f64_decode a = Fin (i < 0) (nat \<bar>i\<bar> * 2 ^ j) (- int (j + p))"

definition small_int :: "int \<Rightarrow> bool" where
  "small_int i \<longleftrightarrow> \<bar>i\<bar> < 2 ^ 53"

lemma f64_pack_neg: "f64_pack True ex fr = f64_neg (f64_pack False ex fr)"
  by (simp add: f64_pack_def f64_neg_def add.commute add.left_commute)

lemma f64_round_neg: "f64_round True m e = f64_neg (f64_round False m e)"
  unfolding f64_round_def Let_def f64_zero_def f64_inf_def f64_pack_neg by (simp only: if_distrib[of f64_neg])

lemma f64_round_shifted:
  assumes n: "exact_nat n" and p: "p \<le> 900"
  shows "f64_round s (n * 2 ^ j) (- int (j + p)) = f64_pack s (1075 - shift_of n - p) (n * 2 ^ shift_of n - 2 ^ 52)"
proof (cases "shift_of n \<le> j")
  case True
  then obtain d where d: "j = shift_of n + d" by (auto simp: le_iff_add)
  have "f64_round s (n * 2 ^ shift_of n * 2 ^ d) (- int (j + p)) =
      f64_pack s (nat (- int (j + p) + int d + 1075)) (n * 2 ^ shift_of n - 2 ^ 52)"
    by (rule f64_round_exact) (use shifted[OF n] p d in \<open>simp_all del: power_numeral\<close>)
  moreover have "nat (- int (j + p) + int d + 1075) = 1075 - shift_of n - p"
    using d by simp
  ultimately show ?thesis by (simp add: d power_add mult.assoc)
next
  case False
  note s = shifted[OF n]
  obtain d where d: "shift_of n = j + d" using False by (metis le_iff_add nat_le_linear)
  have "53 - shift_of n = Suc (52 - shift_of n)" using s by linarith
  then have "2 ^ (52 - shift_of n) \<le> n \<and> n < 2 ^ Suc (52 - shift_of n)"
    using bit_length_bounds[of n] s n by (simp add: exact_nat_def del: power_Suc)
  then have "2 ^ (52 - shift_of n + j) \<le> n * 2 ^ j" "n * 2 ^ j < 2 ^ Suc (52 - shift_of n + j)"
    by (simp_all add: power_add)
  then have b: "bit_length (n * 2 ^ j) = Suc (52 - shift_of n + j)" by (rule bit_length_range)
  have e: "n * 2 ^ j * 2 ^ d = n * 2 ^ shift_of n" by (simp add: d power_add)
  have "n * 2 ^ j \<noteq> 0" using n by (simp add: exact_nat_def)
  moreover have k: "max (int (bit_length (n * 2 ^ j)) - 53) (- 1074 - - int (j + p)) \<le> 0" using b s d p by simp
  moreover have u: "min (53 - int (bit_length (n * 2 ^ j))) (- int (j + p) + 1074) = int d" using b s d p by simp
  moreover have "nat (- int (j + p) - int d + 1075) = 1075 - shift_of n - p" using d by simp
  ultimately show ?thesis
    using s d p unfolding f64_round_def by (simp add: Let_def k u e del: power_numeral of_nat_add)
qed

lemma f64_round_dyadic:
  assumes "p \<le> 900" "small_int i"
  shows "f64_round (i < 0) (nat \<bar>i\<bar> * 2 ^ j) (- int (j + p)) = f64_dyadic p i"
proof (cases "i = 0")
  case True
  then show ?thesis by (simp add: f64_dyadic_def f64_round_def)
next
  case False
  then have n: "exact_nat (nat \<bar>i\<bar>)" using assms(2) by (auto simp: exact_nat_def small_int_def)
  show ?thesis
    using f64_round_shifted[OF n assms(1), of "i < 0" j] f64_round_shifted[OF n assms(1), of "i < 0" 0]
    by (simp add: f64_dyadic_def)
qed

lemma f64_decode_dyadic:
  assumes i: "i \<noteq> 0" "small_int i" and p: "p \<le> 900"
  shows "denotes p (f64_dyadic p i) i (shift_of (nat \<bar>i\<bar>))"
proof -
  let ?n = "nat \<bar>i\<bar>" let ?t = "shift_of ?n"
  have n: "exact_nat ?n" using i by (auto simp: exact_nat_def small_int_def)
  note s = shifted[OF n]
  have "c - 2 ^ 52 < 2 ^ 52" if "c < 2 ^ 53" for c :: nat using that by simp
  then have f: "?n * 2 ^ ?t - 2 ^ 52 < 2 ^ 52" using s by blast
  have "f64_decode (f64_pack False (1075 - ?t - p) (?n * 2 ^ ?t - 2 ^ 52)) = Fin False (?n * 2 ^ ?t) (- int (?t + p))"
    using s p f by (subst f64_decode_pack) (simp_all del: power_numeral)
  then show ?thesis
    using f64_round_shifted[OF n p, of "i < 0" 0]
    by (cases "i < 0") (simp_all add: denotes_def f64_dyadic_def f64_pack_neg f64_decode_neg del: power_numeral)
qed

section \<open>The operations on binary fractions\<close>

lemma dyadic_zero: "f64_dyadic p 0 = f64_zero False"
  by (simp add: f64_dyadic_def f64_round_def)

lemma decode_zero: "f64_decode (f64_zero False) = Fin False 0 (- 1074)"
  by (simp add: f64_decode_def f64_zero_def f64_pack_def Let_def)

lemma dyadic_denotes:
  assumes "small_int i" "p \<le> 900"
  obtains j where "denotes p (f64_dyadic p i) i j"
proof (cases "i = 0")
  case True
  have "denotes p (f64_dyadic p i) i (1074 - p)"
    using assms(2) True by (simp add: denotes_def dyadic_zero decode_zero)
  then show ?thesis by (rule that)
next
  case False
  from that[OF f64_decode_dyadic[OF False assms]] show ?thesis .
qed

lemma denotes_finer:
  assumes "denotes 0 a i j" "p \<le> j"
  shows "denotes p a (i * 2 ^ p) (j - p)"
proof -
  have "nat \<bar>i * 2 ^ p\<bar> = nat \<bar>i\<bar> * 2 ^ p" by (simp add: abs_mult nat_mult_distrib nat_power_eq)
  moreover have "i * 2 ^ p < 0 \<longleftrightarrow> i < 0" by (simp add: mult_less_0_iff)
  moreover have "(2 :: nat) ^ p * 2 ^ (j - p) = 2 ^ j" using assms(2) by (simp flip: power_add)
  ultimately show ?thesis using assms by (simp add: denotes_def mult.assoc)
qed

lemma denotes_neg: "denotes p a i j \<Longrightarrow> 0 < i \<Longrightarrow> denotes p (f64_neg a) (- i) j"
  by (simp add: denotes_def f64_decode_neg)

lemma signed_abs: "signed_mantissa (i < 0) (nat \<bar>i\<bar> * n) = i * int n"
  by (simp add: signed_mantissa_def)

lemma add_dyadic:
  assumes a: "denotes p a i j" and b: "denotes p b i' j'" and i: "small_int (i + i')" and p: "p \<le> 900"
  shows "f64_add a b = f64_dyadic p (i + i')"
proof -
  let ?G = "max j j'"
  have g: "min (- int (j + p)) (- int (j' + p)) = - int (?G + p)" by simp
  have e: "nat \<bar>k\<bar> * 2 ^ l * 2 ^ nat (- int (l + p) - - int (?G + p)) = nat \<bar>k\<bar> * 2 ^ ?G" if "l \<le> ?G" for k l
  proof -
    have "nat (- int (l + p) - - int (?G + p)) = ?G - l" using that by simp
    then show ?thesis using that by (simp add: mult.assoc flip: power_add)
  qed
  have sum: "signed_mantissa (i < 0) (nat \<bar>i\<bar> * 2 ^ ?G) + signed_mantissa (i' < 0) (nat \<bar>i'\<bar> * 2 ^ ?G) = (i + i') * 2 ^ ?G"
    by (simp add: signed_abs distrib_right)
  have m: "nat \<bar>(i + i') * 2 ^ ?G\<bar> = nat \<bar>i + i'\<bar> * 2 ^ ?G" by (simp add: abs_mult nat_mult_distrib nat_power_eq)
  have lt: "(i + i') * 2 ^ ?G < 0 \<longleftrightarrow> i + i' < 0" by (simp add: mult_less_0_iff)
  have zero_sign: "i + i' = 0 \<Longrightarrow> (i < 0 \<and> i' < 0) = False" by auto
  have "f64_add a b = (if (i + i') * 2 ^ ?G = 0 then f64_zero (i < 0 \<and> i' < 0)
      else f64_round (i + i' < 0) (nat \<bar>i + i'\<bar> * 2 ^ ?G) (- int (?G + p)))"
    using a b unfolding f64_add_def denotes_def
    by (simp only: fval.case prod.case Let_def g e[OF max.cobounded1] e[OF max.cobounded2] sum m lt)
  then show ?thesis
    by (cases "i + i' = 0") (auto simp: f64_round_dyadic[OF p i] dyadic_zero zero_sign simp del: of_nat_add)
qed

lemma mul_dyadic:
  assumes a: "denotes p a i j" and b: "denotes p' b i' j'" and i: "small_int (i * i')" and p: "p + p' \<le> 900" and pos: "0 < i'"
  shows "f64_mul a b = f64_dyadic (p + p') (i * i')"
proof -
  have m: "nat \<bar>i\<bar> * 2 ^ j * (nat \<bar>i'\<bar> * 2 ^ j') = nat \<bar>i * i'\<bar> * 2 ^ (j + j')"
    by (simp add: abs_mult nat_mult_distrib power_add)
  have e: "- int (j + p) + - int (j' + p') = - int (j + j' + (p + p'))" by simp
  have s: "(i < 0) \<noteq> (i' < 0) \<longleftrightarrow> i * i' < 0" using pos by (auto simp: mult_less_0_iff)
  have "f64_mul a b = f64_round (i * i' < 0) (nat \<bar>i * i'\<bar> * 2 ^ (j + j')) (- int (j + j' + (p + p')))"
    using a b unfolding f64_mul_def denotes_def by (simp only: fval.case prod.case m e s)
  then show ?thesis by (simp only: f64_round_dyadic[OF p i])
qed

lemma div_dyadic:
  assumes a: "denotes q a (r * c) j" and b: "denotes 0 b (c * 2 ^ p) j'"
    and r: "0 \<le> r" "small_int r" and c: "0 < c" and p: "p + q \<le> 900"
  shows "f64_div a b = f64_dyadic (p + q) r"
proof -
  define R C where "R = nat r" and "C = nat c"
  have rc: "r = int R" "c = int C" "0 < C" using r c by (simp_all add: R_def C_def)
  let ?n = "C * 2 ^ (p + j')" let ?k = "bit_length ?n + 55"
  have da: "f64_decode a = Fin False (R * C * 2 ^ j) (- int (j + q))"
    using a r c by (simp add: denotes_def rc nat_mult_distrib flip: of_nat_mult)
  have "\<not> int C * 2 ^ p < 0" by (simp add: not_less)
  then have db: "f64_decode b = Fin False ?n (- int j')"
    using b c by (simp add: denotes_def rc nat_mult_distrib nat_power_eq power_add mult.assoc)
  have n: "?n \<noteq> 0" using rc by simp
  have "2 ^ (p + j') \<le> ?n" using rc by simp
  also have "?n < 2 ^ bit_length ?n" using bit_length_bounds[of ?n] n by simp
  finally have "p + j' < bit_length ?n" by simp
  then obtain d where d: "?k = p + j' + d" by (metis add.commute le_iff_add less_imp_le_nat trans_le_add1)
  have num: "R * C * 2 ^ j * 2 ^ ?k = ?n * (R * 2 ^ (j + d))"
    unfolding d by (simp add: power_add mult.assoc mult.left_commute)
  have m: "2 * (R * 2 ^ (j + d)) = nat \<bar>r\<bar> * 2 ^ (j + d + 1)" by (simp add: rc)
  have e: "- int (j + q) - - int j' - int ?k - 1 = - int (j + d + 1 + (p + q))" unfolding d by simp
  have "f64_div a b = f64_round False (2 * (R * 2 ^ (j + d))) (- int (j + q) - - int j' - int ?k - 1)"
    using n unfolding f64_div_def da db
    by (simp only: fval.case prod.case Let_def num if_False nonzero_mult_div_cancel_left[OF n] mod_mult_self1_is_0 simp_thms if_True add_0_right)
  then show ?thesis using f64_round_dyadic[OF p r(2), of "j + d + 1"] r(1) unfolding m e by simp
qed

lemma to_u64_dyadic:
  assumes "denotes p a i j"
  shows "f64_to_u64 a = (if i < 0 then 0 else if nat i div 2 ^ p < 2 ^ 64 then word_of_nat (nat i div 2 ^ p) else - 1)"
proof -
  have "nat \<bar>i\<bar> * 2 ^ j div 2 ^ (j + p) = nat \<bar>i\<bar> div 2 ^ p" by (simp add: power_add flip: div_mult2_eq[of "2 ^ j"] add: mult.commute[of "2 ^ j"])
  moreover have "j + p = 0 \<Longrightarrow> nat \<bar>i\<bar> * 2 ^ j = nat \<bar>i\<bar> div 2 ^ p" by simp
  ultimately show ?thesis
    using assms by (auto simp: f64_to_u64_def denotes_def Let_def simp del: of_nat_add power_numeral)
qed

lemma of_u64_dyadic: "f64_of_u64 w = f64_dyadic 0 (int (unat w))"
  by (simp add: f64_of_u64_def f64_dyadic_def)

section \<open>Evaluation\<close>

lemma bit_length_numeral:
  "bit_length (Suc 0) = 1" "bit_length (numeral (num.Bit0 w)) = Suc (bit_length (numeral w))" "bit_length (numeral (num.Bit1 w)) = Suc (bit_length (numeral w))"
  "bit_length (numeral num.One) = 1"
  by (simp_all add: bit_length.simps[of "Suc 0"] bit_length.simps[of 0] bit_length.simps[of "numeral w" for w])

lemmas f64_eval = f64_lit_def f64_div_def f64_decode_def Let_def f64_round_def round_half_even_def bit_length_numeral
  f64_pack_def f64_add_def f64_sub_def f64_neg_def f64_abs_def f64_less_def f64_zero_def f64_mul_def f64_to_u64_def
  f64_of_u64_def signed_mantissa_def f64_nan_def f64_inf_def f64_dyadic_def

text \<open>A literal that is a multiple of an eighth.\<close>

lemma lit_eighth:
  assumes lit: "n * 8 = i * 10 ^ k" and n: "n < 2 ^ 50" "(10 :: nat) ^ k < 2 ^ 53"
  shows "f64_lit n k = f64_dyadic 3 (int i)"
proof -
  obtain j where j: "3 \<le> j" "denotes 0 (f64_dyadic 0 (int n)) (int n) j"
  proof (cases "n = 0")
    case True
    then show ?thesis using that[of 1074] by (simp add: denotes_def dyadic_zero decode_zero)
  next
    case False
    then have e: "exact_nat n" using n(1) by (simp add: exact_nat_def)
    note b = bit_length_bounds[of n] and s = shifted[OF e]
    have "2 ^ (bit_length n - 1) < (2 :: nat) ^ 50" using b False n(1) by linarith
    then have "bit_length n - 1 < 50" by (rule power_less_imp_less_exp[rotated]) simp
    then have "3 \<le> shift_of n" unfolding shift_of_def by linarith
    moreover have "denotes 0 (f64_dyadic 0 (int n)) (int n) (shift_of n)"
      using f64_decode_dyadic[of "int n" 0] False n(1) by (simp add: small_int_def)
    ultimately show ?thesis by (rule that)
  qed
  have "int n * 2 ^ 3 = int i * int (10 ^ k)" using arg_cong[OF lit, of int] by simp
  then have a: "denotes 3 (f64_dyadic 0 (int n)) (int i * int (10 ^ k)) (j - 3)"
    using denotes_finer[OF j(2,1)] by simp
  obtain j' where "denotes 0 (f64_dyadic 0 (int (10 ^ k))) (int (10 ^ k)) j'"
    by (rule dyadic_denotes[of "int (10 ^ k)" 0]) (use n(2) in \<open>simp_all add: small_int_def flip: of_nat_power\<close>)
  then have b: "denotes 0 (f64_dyadic 0 (int (10 ^ k))) (int (10 ^ k) * 2 ^ 0) j'" by simp
  have "i * 1 \<le> i * 10 ^ k" by (intro mult_left_mono) simp_all
  then have "i \<le> n * 8" using lit by linarith
  then have "small_int (int i)" using n(1) by (simp add: small_int_def)
  then have "f64_div (f64_dyadic 0 (int n)) (f64_dyadic 0 (int (10 ^ k))) = f64_dyadic 3 (int i)"
    using div_dyadic[OF a b] by simp
  moreover have "f64_dyadic 0 (int m) = f64_round False m 0" for m by (simp add: f64_dyadic_def)
  ultimately show ?thesis by (simp only: f64_lit_def)
qed

lemma f64_literals:
  "f64_lit 15 1 = f64_dyadic 3 12" "f64_lit 25 1 = f64_dyadic 3 20" "f64_lit 35 1 = f64_dyadic 3 28"
  "f64_lit 425 1 = f64_dyadic 3 340" "f64_lit 105 1 = f64_dyadic 3 84" "f64_lit 5 1 = f64_dyadic 3 4"
  "f64_lit 0 0 = f64_dyadic 3 0" "f64_lit 1 0 = f64_dyadic 3 8" "f64_lit 10 0 = f64_dyadic 3 80"
  "f64_lit 20 0 = f64_dyadic 3 160" "f64_lit 30 0 = f64_dyadic 3 240"
  using lit_eighth[of 15 12 1] lit_eighth[of 25 20 1] lit_eighth[of 35 28 1] lit_eighth[of 425 340 1]
    lit_eighth[of 105 84 1] lit_eighth[of 5 4 1] lit_eighth[of 0 0 0] lit_eighth[of 1 8 0] lit_eighth[of 10 80 0]
    lit_eighth[of 20 160 0] lit_eighth[of 30 240 0]
  by simp_all

lemma f64_neg_eighths:
  "f64_neg (f64_dyadic 3 20) = f64_dyadic 3 (- 20)" "f64_neg (f64_dyadic 3 8) = f64_dyadic 3 (- 8)"
  by (simp_all add: f64_dyadic_def f64_round_neg)

text \<open>Literals that are not: one rounding at a time.\<close>

lemma decode_small: "f64_decode (f64_round False 1 0) = Fin False (2 ^ 52) (- 52)" "f64_decode (f64_round False 1000 0) = Fin False (1000 * 2 ^ 43) (- 43)"
  "f64_decode (f64_round False 10000 0) = Fin False (10000 * 2 ^ 39) (- 39)" "f64_decode (f64_round False 10001 0) = Fin False (10001 * 2 ^ 39) (- 39)"
  "f64_decode (f64_round False 1000000 0) = Fin False (1000000 * 2 ^ 33) (- 33)"
  using f64_decode_nat[of 1] f64_decode_nat[of 1000] f64_decode_nat[of 10000] f64_decode_nat[of 10001] f64_decode_nat[of 1000000]
  by (simp_all add: exact_nat_def shift_of_def bit_length_numeral)

lemma round_eval:
  assumes "m \<noteq> 0" "bit_length m = 53 + k" "0 < k" "- 1074 \<le> e + int k"
    "round_half_even m k = c" "2 ^ 52 \<le> c" "c < 2 ^ 53" "e + int k \<le> 971"
  shows "f64_decode (f64_round False m e) = Fin False c (e + int k)"
proof -
  have c: "bit_length c = 53" using bit_length_range[of 52 c] assms by simp
  have k: "max (int (bit_length m) - 53) (- 1074 - e) = int k" using assms by simp
  have "f64_round False m e = f64_pack False (nat (e + int k + 1075)) (c - 2 ^ 52)"
    using assms unfolding f64_round_def k by (simp add: Let_def c del: power_numeral)
  moreover have "f64_decode (f64_pack False (nat (e + int k + 1075)) (c - 2 ^ 52)) = Fin False (c - 2 ^ 52 + 2 ^ 52) (int (nat (e + int k + 1075)) - 1075)"
    by (rule f64_decode_pack) (use assms in simp_all)
  ultimately show ?thesis using assms by simp
qed

lemma thousandth: "f64_decode (f64_lit 1 3) = Fin False 4611686018427388 (- 62)"
proof -
  have b: "bit_length (1000 * 2 ^ 43) = 53" by (simp add: bit_length_numeral)
  have "(10 :: nat) ^ 3 = 1000" by simp
  then have "f64_lit 1 3 = f64_round False 332306998946228968225951765070087 (- 118)"
    unfolding f64_lit_def f64_div_def by (simp only: decode_small fval.case prod.case Let_def b) simp
  moreover have "f64_decode (f64_round False 332306998946228968225951765070087 (- 118)) = Fin False 4611686018427388 (- 118 + int 56)"
    by (rule round_eval) (simp_all add: bit_length_numeral round_half_even_def)
  ultimately show ?thesis by simp
qed

lemma f64_sub_self_finite: "f64_decode a = Fin s m e \<Longrightarrow> f64_sub a a = f64_zero False"
  by (auto simp: f64_sub_def f64_add_def f64_decode_neg signed_mantissa_def Let_def)

lemma f64_sub_self_dyadic: "small_int i \<Longrightarrow> p \<le> 900 \<Longrightarrow> f64_sub (f64_dyadic p i) (f64_dyadic p i) = f64_zero False"
  by (rule dyadic_denotes) (auto simp: denotes_def intro: f64_sub_self_finite)

lemma f64_sub_zero_dyadic:
  assumes "i \<noteq> 0" "small_int i" "p \<le> 900"
  shows "f64_sub (f64_dyadic p i) (f64_zero False) = f64_dyadic p i"
proof -
  let ?t = "shift_of (nat \<bar>i\<bar>)"
  have "?t \<le> 52" using shifted[of "nat \<bar>i\<bar>"] assms by (auto simp: exact_nat_def small_int_def)
  then obtain d where d: "1074 = ?t + p + d" using assms(3) le_Suc_ex[of "?t + p" 1074] by auto
  have z: "f64_decode (f64_neg (f64_zero False)) = Fin True 0 (- 1074)" by (simp add: f64_decode_neg decode_zero)
  have e: "min (- int (?t + p)) (- 1074) = - 1074" "nat (- int (?t + p) - - 1074) = d" "- int (?t + d + p) = - 1074"
    using d by simp_all
  have m: "signed_mantissa (i < 0) (nat \<bar>i\<bar> * 2 ^ ?t * 2 ^ d) + signed_mantissa True 0 = i * 2 ^ (?t + d)"
    by (simp add: signed_mantissa_def power_add)
  have n: "nat \<bar>i * 2 ^ (?t + d)\<bar> = nat \<bar>i\<bar> * 2 ^ (?t + d)" "i * 2 ^ (?t + d) < 0 \<longleftrightarrow> i < 0"
    by (simp_all add: abs_mult nat_mult_distrib nat_power_eq mult_less_0_iff)
  have "f64_sub (f64_dyadic p i) (f64_zero False) = f64_round (i < 0) (nat \<bar>i\<bar> * 2 ^ (?t + d)) (- int (?t + d + p))"
    using assms(1) unfolding f64_sub_def f64_add_def f64_decode_dyadic[OF assms, unfolded denotes_def] z
    by (simp only: fval.case prod.case Let_def e mult_zero_left m n) simp
  then show ?thesis by (simp only: f64_round_dyadic[OF assms(3,2)])
qed

lemma f64_one: "f64_dyadic 3 8 = F64 4607182418800017408"
  by (simp add: f64_eval)

end
