(* ===== verification/Position_Exact.thy ===== *)
theory Position_Exact
  imports Float64_Dyadic Rt_Instances
begin

text \<open>
  The fixed-point coordinates of \<open>AtomicPosition\<close> (\<open>position_sync.rs\<close>) read back: where a coordinate
  survives \<open>store\<close> and \<open>load\<close> unchanged, and where the offset by a million cuts it off.
\<close>

lemma million_denotes: "\<exists>j \<ge> 3. denotes 0 (f64_lit 1000000 0) 1000000 j"
proof -
  have n: "exact_nat 1000000" by (simp add: exact_nat_def)
  have "bit_length 1000000 = Suc 19" by (rule bit_length_range) simp_all
  then have "shift_of 1000000 = 33" by (simp add: shift_of_def)
  then show ?thesis
    unfolding f64_lit_nat[OF n] using f64_decode_nat[OF n] by (auto simp: denotes_def intro!: exI[of _ 33])
qed

lemma thousand_denotes: "\<exists>j. denotes 0 (f64_lit 1000 0) 1000 j"
proof -
  have n: "exact_nat 1000" by (simp add: exact_nat_def)
  show ?thesis
    unfolding f64_lit_nat[OF n] using f64_decode_nat[OF n] by (auto simp: denotes_def intro!: exI[of _ "shift_of 1000"])
qed

text \<open>A coordinate \<open>k / 8\<close> is stored as \<open>125 k\<close> thousandths above minus one million, or as 0.\<close>

lemma to_fixed_eighth:
  assumes k: "\<bar>k\<bar> \<le> 8 * 10 ^ 12"
  shows "to_fixed (f64_dyadic 3 k) = word_of_nat (nat ((k + 8000000) * 125))"
proof -
  obtain j where j: "denotes 3 (f64_dyadic 3 k) k j"
    by (rule dyadic_denotes[of k 3]) (use k in \<open>simp_all add: small_int_def\<close>)
  obtain m where "3 \<le> m" "denotes 0 (f64_lit 1000000 0) 1000000 m" using million_denotes by blast
  then have m: "denotes 3 (f64_lit 1000000 0) 8000000 (m - 3)" using denotes_finer[of "f64_lit 1000000 0" 1000000 m 3] by simp
  obtain t where t: "denotes 0 (f64_lit 1000 0) 1000 t" using thousand_denotes by blast
  have small: "small_int (k + 8000000)" "small_int ((k + 8000000) * 1000)"
    using k by (simp_all add: small_int_def abs_if split: if_splits)
  obtain u where u: "denotes 3 (f64_dyadic 3 (k + 8000000)) (k + 8000000) u"
    by (rule dyadic_denotes[of "k + 8000000" 3]) (use small in simp_all)
  have "f64_mul (f64_dyadic 3 (k + 8000000)) (f64_lit 1000 0) = f64_dyadic 3 ((k + 8000000) * 1000)"
    using mul_dyadic[OF u t small(2)] by simp
  moreover obtain v where v: "denotes 3 (f64_dyadic 3 ((k + 8000000) * 1000)) ((k + 8000000) * 1000) v"
    by (rule dyadic_denotes[of "(k + 8000000) * 1000" 3]) (use small in simp_all)
  ultimately have "to_fixed (f64_dyadic 3 k) = f64_to_u64 (f64_dyadic 3 ((k + 8000000) * 1000))"
    by (simp add: to_fixed_def add_dyadic[OF j m small(1)])
  also have "\<dots> = word_of_nat (nat ((k + 8000000) * 125))"
  proof (cases "k + 8000000 < 0")
    case True
    then show ?thesis unfolding to_u64_dyadic[OF v] by simp
  next
    case False
    then have "nat ((k + 8000000) * 1000) div 2 ^ 3 = nat ((k + 8000000) * 125)" by (simp add: nat_mult_distrib)
    moreover have "nat ((k + 8000000) * 125) < 2 ^ 64" using k by simp
    ultimately show ?thesis using False unfolding to_u64_dyadic[OF v] by (simp add: not_less)
  qed
  finally show ?thesis .
qed

lemma from_fixed_eighth:
  assumes k: "n * 125 < 2 ^ 53"
  shows "from_fixed (word_of_nat (n * 125)) = f64_dyadic 3 (int n - 8000000)"
proof -
  obtain m where "3 \<le> m" "denotes 0 (f64_lit 1000000 0) 1000000 m" using million_denotes by blast
  then have "denotes 3 (f64_lit 1000000 0) 8000000 (m - 3)" using denotes_finer[of "f64_lit 1000000 0" 1000000 m 3] by simp
  then have m: "denotes 3 (f64_neg (f64_lit 1000000 0)) (- 8000000) (m - 3)" using denotes_neg by fastforce
  obtain t where t: "denotes 0 (f64_lit 1000 0) (125 * 2 ^ 3) t" using thousand_denotes by auto
  have "unat (word_of_nat (n * 125) :: u64) = n * 125" using k by (intro unat_small) simp
  then have w: "f64_of_u64 (word_of_nat (n * 125)) = f64_dyadic 0 (int n * 125)" unfolding of_u64_dyadic by simp
  obtain j where j: "denotes 0 (f64_dyadic 0 (int n * 125)) (int n * 125) j"
    by (rule dyadic_denotes[of "int n * 125" 0]) (use k in \<open>simp_all add: small_int_def\<close>)
  have small: "small_int (int n)" "small_int (int n + - 8000000)" using k by (simp_all add: small_int_def abs_if)
  have d: "f64_div (f64_dyadic 0 (int n * 125)) (f64_lit 1000 0) = f64_dyadic 3 (int n)"
    using div_dyadic[OF j t] small by simp
  obtain u where u: "denotes 3 (f64_dyadic 3 (int n)) (int n) u"
    by (rule dyadic_denotes[of "int n" 3]) (use small in simp_all)
  show ?thesis using add_dyadic[OF u m small(2)] by (simp only: from_fixed_def w d f64_sub_def diff_conv_add_uminus)
qed

lemma coordinate_survives:
  assumes k: "\<bar>k\<bar> \<le> 8 * 10 ^ 12"
  shows "from_fixed (to_fixed (f64_dyadic 3 k)) = f64_dyadic 3 (max (- 8000000) k)"
proof -
  have "nat ((k + 8000000) * 125) = nat (k + 8000000) * 125" by (simp add: nat_mult_distrib mult.commute)
  moreover have "nat (k + 8000000) * 125 < 2 ^ 53" using k by simp
  moreover have "int (nat (k + 8000000)) - 8000000 = max (- 8000000) k" by simp
  ultimately show ?thesis using from_fixed_eighth to_fixed_eighth[OF k] by metis
qed

text \<open>
  C35. A position whose coordinates are multiples of an eighth is stored and loaded unchanged, up to
  a million million in size, as long as no coordinate is below minus one million; a coordinate below
  is stored as minus one million, with no error. The position in place before does not matter.
\<close>

theorem positions_survive_above_the_offset:
  assumes "\<bar>x\<bar> \<le> 8 * 10 ^ 12" "\<bar>y\<bar> \<le> 8 * 10 ^ 12" "\<bar>z\<bar> \<le> 8 * 10 ^ 12"
  shows "ap_load (ap_store (f64_dyadic 3 x) (f64_dyadic 3 y) (f64_dyadic 3 z) a) =
    (f64_dyadic 3 (max (- 8000000) x), f64_dyadic 3 (max (- 8000000) y), f64_dyadic 3 (max (- 8000000) z))"
  using assms by (simp add: ap_load_def ap_store_def Let_def coordinate_survives)

theorem positions_survive_above_the_offset_witness:
  "ap_load (ap_store (f64_dyadic 3 12) (f64_dyadic 3 (- 20)) (f64_dyadic 3 (- 9000000))
      (atomic_position_new (f64_zero False) (f64_zero False) (f64_zero False))) =
    (f64_dyadic 3 12, f64_dyadic 3 (- 20), f64_dyadic 3 (- 8000000))"
  using positions_survive_above_the_offset[of 12 "- 20" "- 9000000"] by simp

end
