(* ===== verification/Repo_Tests.thy ===== *)
theory Repo_Tests
  imports Service_Manager Rest_Api Db_Writer Position_Exact
begin

text \<open>
  The unit tests of the crates under \<open>services/\<close>, translated and evaluated on the model: a test is the
  conjunction of its assertions, where an \<open>unwrap\<close> asserts \<open>Ok\<close>. \<open>test_sample_engine_run\<close>, which runs
  for a time, is left to \<open>Sample_Engine\<close>.
\<close>

section \<open>rtservices\<close>

definition test_jitter_stats :: bool where
  "test_jitter_stats \<longleftrightarrow>
     (case exec_bind (jitter_record 5 jitter_stats_new) (\<lambda>s. exec_bind (jitter_record 15 s) (jitter_record 25)) of
        Panic \<Rightarrow> False
      | Return stats \<Rightarrow>
          js_min_us stats = 5 \<and> js_max_us stats = 25 \<and> js_samples stats = 3 \<and>
          js_histogram stats ! 0 = 1 \<and> js_histogram stats ! 1 = 1 \<and> js_histogram stats ! 2 = 1)"

definition test_rt_checker_creation :: bool where
  "test_rt_checker_creation \<longleftrightarrow> \<not> is_rt_active rt_checker_new"

definition test_update_stats_no_overrun :: bool where
  "test_update_stats_no_overrun \<longleftrightarrow>
     (case update_stats (from_micros 100) (from_micros 500) rt_check_config_default rt_service_stats_default of
        Panic \<Rightarrow> False
      | Return (disabled, stats) \<Rightarrow> \<not> disabled \<and> st_calls stats = 1 \<and> st_overruns stats = 0)"

definition test_update_stats_overrun_disables :: bool where
  "test_update_stats_overrun_disables \<longleftrightarrow>
     (let cfg = \<lparr>disable_after_overruns = 3\<rparr>; over = from_micros 200; budget = from_micros 100
      in case exec_bind (update_stats over budget cfg rt_service_stats_default) (\<lambda>(_, s1).
              exec_bind (update_stats over budget cfg s1) (\<lambda>(_, s2). update_stats over budget cfg s2)) of
           Panic \<Rightarrow> False
         | Return (disabled, stats) \<Rightarrow> disabled \<and> st_disabled stats \<and> st_overruns stats = 3)"

text \<open>The service of the tests of \<open>rtservices\<close> and of the manager, which counts its ticks.\<close>

record test_rt_service =
  trs_name :: string
  trs_config :: rt_config
  trs_tick_count :: u32

definition test_rt_service_new :: "string \<Rightarrow> test_rt_service" where
  "test_rt_service_new name = \<lparr>trs_name = name, trs_config = rt_config_default, trs_tick_count = 0\<rparr>"

definition test_rt_methods :: "(test_rt_service, 'ch) rt_service" where
  "test_rt_methods =
     \<lparr>svc_name = trs_name, svc_config = trs_config, svc_init = default_init,
      svc_tick = \<lambda>ctx s. exec_bind (incr (trs_tick_count s)) (\<lambda>n. Return (Ok (), s\<lparr>trs_tick_count := n\<rparr>, ctx)),
      svc_shutdown = default_shutdown\<rparr>"

definition test_rt_service_trait :: bool where
  "test_rt_service_trait \<longleftrightarrow>
     (let service = test_rt_service_new ''test''; v = (test_rt_methods :: (test_rt_service, unit) rt_service)
      in svc_name v service = ''test'' \<and> period_us v service = 10000 \<and>
         (case svc_tick v \<lparr>ctx_props = properties_new, ctx_events = ()\<rparr> service of
            Panic \<Rightarrow> False
          | Return (res, s, ctx) \<Rightarrow> is_ok res \<and> trs_tick_count s = 1))"

text \<open>\<open>assert_eq!\<close> on doubles is \<open>==\<close>; the other assertions bound the distance.\<close>

definition f64_equal :: "f64 \<Rightarrow> f64 \<Rightarrow> bool" where
  "f64_equal a b \<longleftrightarrow> \<not> f64_is_nan a \<and> \<not> f64_is_nan b \<and> \<not> f64_less a b \<and> \<not> f64_less b a"

definition f64_epsilon :: f64 where
  "f64_epsilon = f64_dyadic 52 1"

definition closer :: "f64 \<Rightarrow> f64 \<Rightarrow> f64 \<Rightarrow> bool" where
  "closer eps x y \<longleftrightarrow> f64_less (f64_abs (f64_sub x y)) eps"

definition test_speed_atomic :: bool where
  "test_speed_atomic \<longleftrightarrow>
     (let props = properties_new; props1 = set_speed (f64_lit 425 1) props;
          props2 = set_speed (f64_neg (f64_lit 1 0)) props1
      in f64_equal (get_speed props) (f64_lit 0 0) \<and>
         closer f64_epsilon (get_speed props1) (f64_lit 425 1) \<and>
         closer f64_epsilon (get_speed props2) (f64_neg (f64_lit 1 0)))"

text \<open>The channel of the test is unbounded; every tick must answer \<open>Ok\<close>.\<close>

definition test_service_a_ticks :: bool where
  "test_service_a_ticks \<longleftrightarrow>
     (let props = set_speed (f64_lit 10 0) properties_new
      in case service_a_run (\<lambda>e ch. (True, ch @ [e])) (replicate 50 props) service_a_new ([] :: unit engine_event list) of
           Panic \<Rightarrow> False
         | Return (svc, rx) \<Rightarrow>
             sa_counter svc = 50 \<and> length rx = 1 \<and>
             (case hd rx of SetSpeed v \<Rightarrow> closer f64_epsilon v (f64_lit 105 1) | _ \<Rightarrow> False))"

definition test_atomic_position :: bool where
  "test_atomic_position \<longleftrightarrow>
     (let eps = f64_lit 1 3;
          pos = atomic_position_new (f64_lit 15 1) (f64_neg (f64_lit 25 1)) (f64_lit 35 1);
          (x, y, z) = ap_load pos;
          pos' = ap_store (f64_lit 10 0) (f64_lit 20 0) (f64_lit 30 0) pos;
          (x', y', z') = ap_load pos'
      in closer eps x (f64_lit 15 1) \<and> closer eps y (f64_neg (f64_lit 25 1)) \<and> closer eps z (f64_lit 35 1) \<and>
         closer eps x' (f64_lit 10 0) \<and> closer eps y' (f64_lit 20 0) \<and> closer eps z' (f64_lit 30 0))"

definition test_position_sync_service :: bool where
  "test_position_sync_service \<longleftrightarrow>
     (let zero = f64_lit 0 0; one = f64_lit 1 0; near = f64_lit 10001 4;
          source = atomic_position_new zero zero zero;
          source1 = ap_store one one one source;
          source2 = ap_store near near near source1
      in case position_sync_tick (ap_load source) (position_sync_new ''test_sync'' 10000) of
           Panic \<Rightarrow> False
         | Return (res1, s1) \<Rightarrow> is_ok res1 \<and> ps_skip_count s1 = 1 \<and>
             (case position_sync_tick (ap_load source1) s1 of
                Panic \<Rightarrow> False
              | Return (res2, s2) \<Rightarrow> is_ok res2 \<and> ps_sync_count s2 = 1 \<and>
                  (case position_sync_tick (ap_load source2) s2 of
                     Panic \<Rightarrow> False
                   | Return (res3, s3) \<Rightarrow> is_ok res3 \<and> ps_skip_count s3 = 2)))"

section \<open>servicemanagement\<close>

record mock_rt_service =
  mrs_name :: string
  mrs_config :: rt_config

definition test_registry :: bool where
  "test_registry \<longleftrightarrow>
     (let service = \<lparr>mrs_name = ''test_rt'', mrs_config = rt_config_default\<rparr>;
          r = register_rt mrs_name service (service_registry_new :: (mock_rt_service, unit) service_registry);
          names = list_rt [''test_rt''] r
      in get_rt r ''test_rt'' \<noteq> None \<and> get_rt r ''nonexistent'' = None \<and> length names = 1 \<and> ''test_rt'' \<in> set names \<and>
         count_services r = (1, 0))"

definition test_tree_node_creation :: bool where
  "test_tree_node_creation \<longleftrightarrow>
     (let (node, ar) = tree_node_new (with_priority 10 (rt_node ''test_service'')) ([] :: unit arena)
      in sn_name (tn_data (ar ! node)) = ''test_service'' \<and> sn_priority (tn_data (ar ! node)) = 10 \<and> is_leaf ar node)"

definition test_hierarchy :: bool where
  "test_hierarchy \<longleftrightarrow>
     (let h1 = snd (create_container ''root'' ''realtime'' (hierarchy_new :: unit arena));
          h2 = snd (create_container ''root'' ''nonrealtime'' h1);
          h3 = snd (register ''root/realtime'' (with_priority 100 (rt_node ''position_sync'')) h2);
          h4 = snd (register ''root/realtime'' (with_priority 50 (rt_node ''speed_sync'')) h3);
          h5 = snd (register ''root/nonrealtime'' (with_priority 10 (non_rt_node ''rest_api'')) h4)
      in map_option (map sn_name) (get_rt_services (length h5) h5) = Some [''position_sync'', ''speed_sync''] \<and>
         map_option (map sn_name) (get_non_rt_services (length h5) h5) = Some [''rest_api''])"

definition test_manager :: "(test_rt_service, unit, unit, unit) service_manager" where
  "test_manager = manager_register_rt (test_rt_service_new ''test'') (from_millis 5) (service_manager_new ())"

definition test_service_manager :: bool where
  "test_service_manager \<longleftrightarrow>
     \<not> ms_running (manager_status_of [] test_manager) \<and> ms_rt_service_count (manager_status_of [] test_manager) = 1"

text \<open>What the guard measured in the three ticks is the argument.\<close>

definition test_tick_rt :: "duration \<Rightarrow> duration \<Rightarrow> duration \<Rightarrow> bool" where
  "test_tick_rt e1 e2 e3 \<longleftrightarrow>
     (case exec_bind (tick_rt test_rt_methods (\<lambda>_. e1) test_manager) (\<lambda>(_, m1).
           exec_bind (tick_rt test_rt_methods (\<lambda>_. e2) m1) (\<lambda>(_, m2). tick_rt test_rt_methods (\<lambda>_. e3) m2)) of
        Panic \<Rightarrow> False
      | Return (_, m) \<Rightarrow>
          (let stats = rt_stats_snapshot test_rt_methods m
           in length stats = 1 \<and> st_calls (fst (snd (stats ! 0))) = 3 \<and> st_overruns (fst (snd (stats ! 0))) = 0))"

section \<open>nonrtservices\<close>

definition test_service_status :: bool where
  "test_service_status \<longleftrightarrow>
     (let status = service_status_new ''test_service''
      in ss_name status = ''test_service'' \<and> \<not> ss_running status \<and> ss_started_at status = None)"

record mock_service =
  mks_name :: string
  mks_status :: service_status

definition mock_service_methods :: "(mock_service, 'j, 'ch) nonrt_service" where
  "mock_service_methods =
     \<lparr>ns_name = mks_name, ns_start = \<lambda>s. (Ok (), s), ns_stop = \<lambda>s. (Ok (), s), ns_health_check = \<lambda>s. True,
      ns_status = mks_status, ns_call = default_call\<rparr>"

definition test_api_state :: bool where
  "test_api_state \<longleftrightarrow>
     (let mock = \<lparr>mks_name = ''mock'', mks_status = service_status_new ''mock''\<rparr>;
          state = api_register_service (mock_service_methods :: (mock_service, unit, unit) nonrt_service) mock
            (api_state_new :: (mock_service, unit) api_state)
      in api_get_service state ''mock'' \<noteq> None)"

text \<open>\<open>now\<close> is when it starts; \<open>data\<close> the JSON it writes.\<close>

definition test_db_writer_lifecycle :: "timestamp \<Rightarrow> 'j \<Rightarrow> bool" where
  "test_db_writer_lifecycle now data \<longleftrightarrow>
     (case writer_start list_mpsc now \<lparr>ww_service = db_writer_new ''test_writer'', ww_tasks = []\<rparr> of
        Panic \<Rightarrow> False
      | Return (started, w1) \<Rightarrow>
          is_ok started \<and> ss_running (dw_status (ww_service w1)) \<and>
          (case writer_submit list_mpsc (WriteInsert ''test'' data) w1 of
             None \<Rightarrow> False
           | Some (submitted, w2) \<Rightarrow>
               is_ok submitted \<and>
               (case writer_stop list_mpsc w2 of
                  (stopped, w3) \<Rightarrow> is_ok stopped \<and> \<not> ss_running (dw_status (ww_service w3)))))"

section \<open>They pass\<close>

lemma jitter_test_passes: "test_jitter_stats"
  by (simp add: test_jitter_stats_def jitter_record_def jitter_stats_new_def incr_def Let_def exec_bind_def)

lemma guard_tests_pass: "test_update_stats_no_overrun" "test_update_stats_overrun_disables"
  by (simp_all add: test_update_stats_no_overrun_def test_update_stats_overrun_disables_def update_stats_def incr_def
      rt_check_config_default_def rt_service_stats_default_def from_micros_def less_duration_def Let_def)

lemma rt_trait_test_passes: "test_rt_service_trait"
  by (simp add: test_rt_service_trait_def test_rt_service_new_def test_rt_methods_def rt_config_default_def period_us_def
      from_millis_def as_micros_def incr_def Let_def)

lemma closer_refl:
  assumes "small_int i"
  shows "closer (f64_lit 1 3) (f64_dyadic 3 i) (f64_dyadic 3 i)" "closer f64_epsilon (f64_dyadic 3 i) (f64_dyadic 3 i)"
proof -
  have "f64_abs (f64_zero False) = f64_zero False" by (simp add: f64_abs_def f64_zero_def f64_pack_def)
  moreover have "f64_less (f64_zero False) (f64_lit 1 3)"
    unfolding f64_less_def thousandth decode_zero by (simp add: signed_mantissa_def)
  moreover have "f64_less (f64_zero False) f64_epsilon" by (simp add: f64_eval f64_epsilon_def)
  ultimately show "closer (f64_lit 1 3) (f64_dyadic 3 i) (f64_dyadic 3 i)" "closer f64_epsilon (f64_dyadic 3 i) (f64_dyadic 3 i)"
    using f64_sub_self_dyadic[OF assms, of 3] by (simp_all add: closer_def)
qed

lemma speed_test_passes: "test_speed_atomic"
proof -
  have "f64_equal (get_speed properties_new) (f64_dyadic 3 0)"
    by (simp add: f64_equal_def f64_is_nan_def get_speed_def properties_new_def f64_eval)
  then show ?thesis
    unfolding test_speed_atomic_def Let_def f64_literals f64_neg_eighths by (simp add: closer_refl small_int_def)
qed

lemma service_a_events_fifty:
  "k < 50 \<Longrightarrow> k + n = 50 \<Longrightarrow> service_a_events k (replicate n p) = [SetSpeed (f64_add (get_speed p) (f64_lit 5 1))]"
proof (induction n arbitrary: k)
  case (Suc n)
  show ?case
  proof (cases "k = 49")
    case True
    then show ?thesis using Suc.prems by simp
  next
    case False
    then have "\<not> 50 dvd Suc k" using Suc.prems(1) by (auto dest: dvd_imp_le)
    then show ?thesis using Suc False by simp
  qed
qed simp

lemma service_a_test_passes: "test_service_a_ticks"
proof -
  have counter: "unat (sa_counter service_a_new) = 0" by (simp add: service_a_new_def)
  obtain j j' where "denotes 3 (f64_dyadic 3 80) 80 j" "denotes 3 (f64_dyadic 3 4) 4 j'"
    using f64_decode_dyadic[of 80 3] f64_decode_dyadic[of 4 3] by (simp add: small_int_def)
  from add_dyadic[OF this] have sum: "f64_add (f64_dyadic 3 80) (f64_dyadic 3 4) = f64_dyadic 3 84" by (simp add: small_int_def)
  let ?p = "set_speed (f64_dyadic 3 80) properties_new"
  have events: "service_a_events 0 (replicate 50 ?p) = [SetSpeed (f64_dyadic 3 84)]"
    unfolding service_a_events_fifty[of 0 50, simplified] f64_literals[unfolded One_nat_def] by (simp add: sum)
  obtain s' where s': "service_a_run (\<lambda>e ch. (True, ch @ [e])) (replicate 50 ?p) service_a_new ([] :: unit engine_event list) =
      Return (s', [SetSpeed (f64_dyadic 3 84)])" "unat (sa_counter s') = 50"
    using service_a_run_spec[of service_a_new "replicate 50 ?p" "\<lambda>e ch. (True, ch @ [e])" "[] :: unit engine_event list"]
    by (auto simp: counter events)
  have "word_of_nat (unat (sa_counter s')) = (word_of_nat 50 :: u64)" by (simp only: s'(2))
  then have "sa_counter s' = 50" by simp
  then show ?thesis
    unfolding test_service_a_ticks_def Let_def f64_literals s'(1) by (simp add: closer_refl small_int_def)
qed

lemma atomic_position_test_passes: "test_atomic_position"
  unfolding test_atomic_position_def Let_def f64_literals f64_neg_eighths
  by (simp add: atomic_position_new_def ap_load_def ap_store_def coordinate_survives closer_refl[unfolded One_nat_def] small_int_def)

lemma near_one: "f64_decode (f64_lit 10001 4) = Fin False 4504049987333233 (- 52)"
proof -
  have b: "bit_length (10000 * 2 ^ 39) = 53" by (simp add: bit_length_numeral)
  have "(10 :: nat) ^ 4 = 10000" by simp
  then have "f64_lit 10001 4 = f64_round False 649102011027585138911668672356627 (- 109)"
    unfolding f64_lit_def f64_div_def by (simp only: decode_small fval.case prod.case Let_def b) simp
  moreover have "f64_decode (f64_round False 649102011027585138911668672356627 (- 109)) = Fin False 4504049987333233 (- 109 + int 57)"
    by (rule round_eval) (simp_all add: bit_length_numeral round_half_even_def)
  ultimately show ?thesis by simp
qed

lemma near_fixed: "to_fixed (f64_lit 10001 4) = 1000001000"
proof -
  have lits: "f64_decode (f64_lit 1000000 0) = Fin False (1000000 * 2 ^ 33) (- 33)" "f64_decode (f64_lit 1000 0) = Fin False (1000 * 2 ^ 43) (- 43)"
    using f64_lit_nat[of 1000000] f64_lit_nat[of 1000] decode_small by (simp_all add: exact_nat_def)
  have "f64_add (f64_lit 10001 4) (f64_lit 1000000 0) = f64_round False 4503604131420483333233 (- 52)"
    unfolding f64_add_def by (simp only: near_one lits fval.case prod.case Let_def) (simp add: signed_mantissa_def)
  moreover have "f64_decode (f64_round False 4503604131420483333233 (- 52)) = Fin False 8589943182793585 (- 52 + int 19)"
    by (rule round_eval) (simp_all add: bit_length_numeral round_half_even_def)
  ultimately have sum: "f64_decode (f64_add (f64_lit 10001 4) (f64_lit 1000000 0)) = Fin False 8589943182793585 (- 33)" by simp
  have "f64_mul (f64_add (f64_lit 10001 4) (f64_lit 1000000 0)) (f64_lit 1000 0) = f64_round False (8589943182793585 * (1000 * 2 ^ 43)) (- 76)"
    unfolding f64_mul_def by (simp only: sum lits fval.case prod.case) simp
  moreover have "f64_decode (f64_round False (8589943182793585 * (1000 * 2 ^ 43)) (- 76)) = Fin False 8388616389446860 (- 76 + int 53)"
    by (rule round_eval) (simp_all add: bit_length_numeral round_half_even_def)
  ultimately show ?thesis by (simp add: to_fixed_def f64_to_u64_def)
qed
lemma position_sync_test_passes: "test_position_sync_service"
proof -
  have zero: "f64_zero False = f64_dyadic 3 0" by (simp add: dyadic_zero)
  have far: "f64_less (f64_lit 1 3) (f64_abs (f64_sub (f64_dyadic 3 8) (f64_dyadic 3 0)))"
  proof -
    have "f64_abs (f64_dyadic 3 8) = f64_dyadic 3 8" by (simp add: f64_one f64_abs_def)
    moreover have "f64_decode (f64_dyadic 3 8) = Fin False 4503599627370496 (- 52)" by (simp add: f64_one f64_decode_def Let_def)
    then have "f64_less (f64_lit 1 3) (f64_dyadic 3 8)"
      unfolding f64_less_def thousandth by (simp add: signed_mantissa_def)
    ultimately show ?thesis using f64_sub_zero_dyadic[of 8 3] by (simp add: zero small_int_def)
  qed
  have same: "\<not> f64_less (f64_lit 1 3) (f64_abs (f64_sub a a))" for a
  proof -
    have "\<not> f64_less (f64_lit 1 3) (f64_zero False)"
      unfolding f64_less_def thousandth decode_zero by (simp add: signed_mantissa_def)
    then show ?thesis using f64_abs_self_sub[of "f64_lit 1 3" a] by blast
  qed
  have near: "from_fixed (to_fixed (f64_lit 10001 4)) = f64_dyadic 3 8"
    using from_fixed_eighth[of 8000008] by (simp add: near_fixed)
  show ?thesis
    unfolding test_position_sync_service_def Let_def f64_literals position_sync_new_def zero
    by (simp add: atomic_position_new_def ap_load_def ap_store_def coordinate_survives near
        position_sync_tick_def position_changed_def incr_def far[unfolded One_nat_def] same[unfolded One_nat_def])
qed

lemma creation_tests_pass: "test_rt_checker_creation" "test_tree_node_creation" "test_service_manager"
  by (simp_all add: test_rt_checker_creation_def is_rt_active_def rt_checker_new_def test_tree_node_creation_def
      tree_node_new_def is_leaf_def rt_node_def service_node_new_def with_priority_def test_service_manager_def
      manager_status_of_def test_manager_def manager_register_rt_def service_manager_new_def with_config_def)

lemma registry_test_passes: "test_registry"
  by (simp add: test_registry_def register_rt_def put_rt_def service_registry_new_def get_rt_def
      list_rt_def count_services_def Let_def)

lemma hierarchy_test_passes: "test_hierarchy"
  by code_simp

lemma nonrt_tests_pass: "test_service_status" "test_api_state"
  by code_simp+

lemma tick_test_passes:
  assumes "e1 \<le> from_millis 5" "e2 \<le> from_millis 5" "e3 \<le> from_millis 5"
  shows "test_tick_rt e1 e2 e3"
proof -
  have "\<not> from_millis 5 < e1" "\<not> from_millis 5 < e2" "\<not> from_millis 5 < e3" using assms by auto
  then show ?thesis
    by (simp add: test_tick_rt_def test_manager_def manager_register_rt_def service_manager_new_def with_config_def
        tick_rt_def test_rt_methods_def test_rt_service_new_def rt_service_stats_default_def update_stats_def incr_def
        rt_stats_snapshot_def Let_def)
qed

lemma writer_test_passes: "test_db_writer_lifecycle now data"
  by (simp add: test_db_writer_lifecycle_def writer_start_def db_writer_new_def service_status_new_def writer_submit_def
      list_mpsc_def set_chan_def writer_stop_def signal_def Let_def)

end
