(* ===== verification/Spec2Isabelle.thy ===== *)
theory Spec2Isabelle
  imports Engine_Properties Pg_Properties Pg_Client Rt_Properties Manager_Properties
    Db_Config_Properties Data_Point_Properties Protocol_Properties Result_Handler
    Db_Writer_Properties Rest_Properties Gateway_Properties Abstract_Gateway Demo_Client Mock_Engine Dispatcher Engine_Main_Properties Sample_Engine Repo_Tests
begin

text \<open>
  A development on Twinning, a toolkit of Rust crates for digital twins. It models the crates' own
  logic as functions and step relations on explicit states and proves what makes each part correct.
  Paths below are under \<open>src/\<close>.

  \<^bold>\<open>How the program is put together.\<close> An \<^emph>\<open>engine\<close> runs workflows over events (\<open>engine/\<close>); a \<^emph>\<open>service
  layer\<close> runs real-time services in ticks and other services over HTTP and channels (\<open>services/\<close>); a
  \<^emph>\<open>database layer\<close> keeps datapoints and drives Postgres through one actor (\<open>databases/\<close>); \<^emph>\<open>gateways\<close>
  exchange JSON messages with the machine (\<open>gateway_old/\<close>, \<open>gateway/\<close>). The parts meet in shared atomic
  properties, channels of commands and events, and registries of trait objects. In the model a trait
  object is a state with a record of methods, an \<open>Arc\<close> of a lock an address of a cell, a channel a
  parameter whose documented laws are named hypotheses, a task the steps between its awaits.

  \<^bold>\<open>Foundations.\<close> \<open>Prelude\<close>: machine integers as words, results as sums, panics as \<open>exec\<close>, durations
  (an instance of \<open>linorder\<close>), hash maps as partial functions with the iteration order as an argument.
  \<open>Float64\<close>: the double precision arithmetic the code uses, on bit patterns, with rounding. \<open>Rust_Str\<close>:
  ASCII classes and case, \<open>trim\<close>, splitting and decimal printing on UTF-8 bytes. \<open>Channels\<close>: the
  bounded channels of \<open>tokio\<close> by the laws of their methods. \<open>Name_Map\<close> and \<open>Service_Lifecycle\<close>: the contracts
  of the registries and of start and stop, as locales interpreted on the registries and services that
  keep them.

  \<^bold>\<open>Engine.\<close> \<open>Event_Queue\<close> has the ring buffer and event queue of \<open>eventsystem/eventqueue.rs\<close> with its
  blocking and bounded pushes; \<open>Engine\<close> the workflow engine (\<open>workflowengine.rs\<close>), the synchronizer, the
  position mapping and the binary \<open>bin/mainold.rs\<close>. \<open>Engine_Properties\<close>: the queue refines a first in,
  first out list over every history, ticks drain it, a mapping's failure stays in its tick, and the
  positions an engine visits are those it stores. \<open>Engine_Main\<close> is the program of \<open>bin/main.rs\<close>, interleaved
  with the gateway's task from await to await over two bounded channels; \<open>Engine_Main_Properties\<close>: it answers
  every reading that is too fast, once and in order; the engine's property model lags behind the
  gateway's by what is in the channel; and there are exactly two ways in which the program cannot go on: the
  tasks wait for each other over full channels, which a backlog reaches, or the gateway waits inside
  \<open>publish\<close> for its own client, whose requests only its own poll would take. \<open>Float64_Exact\<close> and \<open>Float64_Dyadic\<close>
  have the integers and binary fractions on which \<open>Float64\<close> is exact.

  \<^bold>\<open>Postgres.\<close> \<open>Pg_Types\<close>: values, identifiers, statements (\<open>models/postgrestypes.rs\<close>,
  \<open>transformation.rs\<close>); \<open>Pg_Worker\<close> and \<open>Pg_Handlers\<close>: the actor of \<open>postgresimpl.rs\<close>, its metadata, its
  persistence and one definition per command; \<open>Pg_Client\<close>: the client methods, the position and speed
  properties and the database manager; \<open>Pg_Queue\<close>: the actor behind its channel, interleaved with those
  who submit without waiting and those who wait to send; \<open>Mock_Engine\<close>: the program of \<open>bin/mockengine.rs\<close>. The server is a parameter:
  what it answers to a statement. \<open>Pg_Invariants\<close> and \<open>Pg_Properties\<close>: bindings always resolve and agree
  with the managed ids, what was acknowledged is in the database and comes back after a restart, values
  travel as parameters only. Behind its queue the actor is a run on what the channel took, and,
  where nothing else writes the table, the last position whose statement succeeded is the one that is
  read, or one that failed after it, as a failed statement may have been carried out.

  \<^bold>\<open>Abstract database.\<close> \<open>Db_Config\<close>: \<open>model/configuration.rs\<close>; validation equals a table of checks.
  \<open>Data_Points\<close>: values, types and the registry of \<open>model/serialization.rs\<close>. \<open>Connector\<close>: the connection pool
  of \<open>client/connector.rs\<close> as interleaved steps, with the locale \<open>managed_connection\<close> for what the pool asks
  of a connection. \<open>Protocol_Connection\<close>: \<open>client/protocol.rs\<close>, the connection that interprets it.
  \<open>Result_Handler\<close>: \<open>controller/resulthandler.rs\<close>. The properties: no connection in two places and no
  permit lost, the bound on connections and how a drop breaks it, the type of every stored value, the
  builder against its reference, and that an idle connection is as a handshake or a ping that succeeded
  left it.

  \<^bold>\<open>Services.\<close> \<open>Rt_Guard\<close>, \<open>Rt_Checker\<close>, \<open>Rt_Instances\<close>: the crate \<open>rtservices\<close> (overrun statistics, the jitter
  monitor thread with its clock arithmetic, the two RT services). \<open>Nonrt_Traits\<close>, \<open>Db_Writer\<close>, \<open>Rest_Api\<close>: the
  crate \<open>nonrtservices\<close> (traits, the batching writer with the tasks of all its starts, the HTTP handlers
  and the server task). \<open>Service_Registry\<close>, \<open>Service_Hierarchy\<close>, \<open>Service_Manager\<close>: the crate
  \<open>servicemanagement\<close> (registry, tree of services in an arena, manager, sample engine), \<open>Dispatcher\<close> its dispatcher with callers on
  any number of threads: every call gets the answer to its own request and returns after its turn. \<open>Sample_Engine\<close> is
  \<open>run_for\<close> in time: it returns, and its ticks do not drift. The other properties: which service is disabled when and that it then is frozen, the monitor's period, tearing
  of an atomic position, the coordinates that survive it (\<open>Position_Exact\<close>), listings and removals of the tree, starts and stops that alternate, writes
  processed in order and the ones that \<open>stop\<close> may lose, requests that reach one service, and events
  posted over HTTP that arrive in the properties. \<open>Repo_Tests\<close> has the crates' unit tests, which pass on the
  model.

  \<^bold>\<open>Gateways.\<close> \<open>Gateway_Types\<close>, \<open>Gateway_Parser\<close> and \<open>Gateway_Loop\<close>: \<open>gateway_old/mqtt\<close>, that is its \<open>models/\<close>
  with the telemetry parser, the decoding of messages (\<open>upstreaminterface.rs\<close>), the MQTT client's side and
  the state of the task between them (\<open>gateway.rs\<close>), whose steps are in \<open>Engine_Main\<close>, with the sample
  engine on its other end; \<open>serde_json\<close>, \<open>chrono\<close>, the
  digits of \<open>regex\<close> beyond ASCII and \<open>rumqttc\<close> are parameters. \<open>Gateway_Properties\<close>: the tuple notation is
  read back as it is written, JSON arrays are dropped, and a property model holds the last
  readings of the events it was given. \<open>Abstract_Gateway\<close>: \<open>gateway/\<close>, the core with its registries and the
  \<open>MqttGateway\<close> on it, which executes a method as it was last configured. \<open>Demo_Client\<close> runs the example of
  \<open>abstractdatabase/src/bin/main.rs\<close> on the database layer.

  \<^bold>\<open>Fuel and bounds.\<close> Only four loops need fuel. \<open>process_events\<close> drains a channel: one more than the
  channel's length is enough (\<open>drain_applies_last_speed\<close>, \<open>posted_events_set_the_speed\<close>). The traversals of
  the service tree take the size of the arena, enough on every reachable tree (\<open>listings_are_complete\<close>).
  \<open>run_for\<close> takes more than the periods that cover its run time (\<open>run_for_returns\<close>), which it needs since
  no loop test comes before its due time.
  The ticks of the engine take the number of queued events (\<open>ticks_drain_queue\<close>). Counters that the code
  lets wrap or panic are words; \<open>pool_is_exclusive\<close> is stated below \<open>2^64 - 1\<close> steps, where the
  connection ids are fresh.

  A \<open>usize\<close> that sizes something is a natural number; making a channel or a semaphore of the pool panics
  above \<open>max_permits\<close>, as in \<open>tokio\<close>. \<open>request_capacity\<close> is the room for requests in the MQTT client.

  \<^bold>\<open>Not modelled.\<close> The ports of the engine's \<open>bin/main.rs\<close> are parameters, as no crate implements
  them for the real gateway and database (the program does not build at this commit, see the
  manifest); the binary of the Postgres crate prints a hint. Of the other binaries, reading arguments,
  opening sockets and printing is left out. The
  crates \<open>opcua\<close>, \<open>influxdb\<close>, \<open>aas\<close>, \<open>eclipse\<close>, \<open>pythonconnector\<close>, \<open>modelmanagement\<close> and the abstract engine hold
  stubs. Third-party code (\<open>tokio\<close>, \<open>axum\<close>, \<open>serde_json\<close>, \<open>tokio_postgres\<close>, the MQTT client) is a parameter.
  Allocation is taken to succeed: the capacity overflow of \<open>Vec::with_capacity\<close> for a huge batch size is
  none of the panics of the model. A turn of the dispatcher is one step: the service locks it
  waits for in between, and the time they are held, are left out. Log lines and most sleeps are left out. Dropping a future in the middle is a step of the pool, where it
  matters for the permits, and of no other component.
\<close>

end
